(* ===== verification/Prelude.thy ===== *)
theory Prelude
  imports Main "HOL-Library.Word" "HOL-Library.AList" "HOL-Library.Sublist"
begin

text \<open>
  Shared vocabulary of the development: Python's \<open>bytes\<close> and \<open>str\<close>, the exceptions the
  code raises or lets through, slices, \<open>int.to_bytes\<close>, \<open>struct.pack\<close> / \<open>struct.unpack\<close>
  on big-endian 32-bit fields, the latin1 codec and the lemmas the components share.

  \<^item> \<open>bytes\<close> is a list of 8-bit words.
  \<^item> \<open>str\<close> is a list of code points (natural numbers), so that a code point above 255 makes
    the latin1 encoder fail as it does in Python.
  \<^item> A computation that may raise is a sum: \<open>Inl e\<close> is the exception, \<open>Inr v\<close> the value.
\<close>

unbundle bit_operations_syntax

named_theorems byte_simps \<open>lengths and values of encoded integers\<close>
named_theorems slice_simps \<open>slices of concatenated fields\<close>

section \<open>Types\<close>

type_synonym byte = "8 word"
type_synonym bytes = "byte list"
type_synonym pystr = "nat list"

datatype py_exc =
    StructError | KeyError | ValueError | RuntimeError | TypeError | IndexError
  | OverflowError | UnicodeEncodeError | AttributeError | ZstdError | ImportError
  | TimeoutError | NotImplementedError | OSError | JSONDecodeError | InvalidStateError

type_synonym 'a result = "py_exc + 'a"

definition py_bind :: "'a result \<Rightarrow> ('a \<Rightarrow> 'b result) \<Rightarrow> 'b result" where
  "py_bind m f = (case m of Inl e \<Rightarrow> Inl e | Inr x \<Rightarrow> f x)"

lemma py_bind_simps [simp]:
  "py_bind (Inl e) f = Inl e"
  "py_bind (Inr x) f = f x"
  by (simp_all add: py_bind_def)

lemma py_bind_eq_Inr [simp]: "py_bind m f = Inr y \<longleftrightarrow> (\<exists>x. m = Inr x \<and> f x = Inr y)"
  by (auto simp: py_bind_def split: sum.splits)

lemma py_bind_cong [fundef_cong]:
  "m = m' \<Longrightarrow> (\<And>x. m' = Inr x \<Longrightarrow> f x = f' x) \<Longrightarrow> py_bind m f = py_bind m' f'"
  by (cases m') auto

text \<open>A comprehension whose body may raise: the first exception wins.\<close>

fun map_result :: "('a \<Rightarrow> 'b result) \<Rightarrow> 'a list \<Rightarrow> 'b list result" where
  "map_result f [] = Inr []"
| "map_result f (x # xs) = py_bind (f x) (\<lambda>y. py_bind (map_result f xs) (\<lambda>ys. Inr (y # ys)))"

text \<open>A string literal of the source, as code points.\<close>

definition py :: "string \<Rightarrow> pystr" where
  "py cs = map of_char cs"

text \<open>A bytes literal of the source.\<close>

definition pyb :: "string \<Rightarrow> bytes" where
  "pyb cs = map of_char cs"

section \<open>Slices\<close>

text \<open>Python's \<open>xs[i:j]\<close> for non-negative \<open>i\<close> and \<open>j\<close>: it clamps and never raises.\<close>

definition slice :: "'a list \<Rightarrow> nat \<Rightarrow> nat \<Rightarrow> 'a list" where
  "slice xs i j = take (j - i) (drop i xs)"

lemma length_slice [byte_simps]: "length (slice xs i j) = min (j - i) (length xs - i)"
  by (simp add: slice_def)

lemma slice_field [slice_simps]:
  "length pre = i \<Longrightarrow> slice (pre @ x @ rest) i (i + length x) = x"
  by (simp add: slice_def)

lemma slice_field_end [slice_simps]:
  "length pre = i \<Longrightarrow> slice (pre @ x) i (i + length x) = x"
  by (simp add: slice_def)

lemma slice_0 [slice_simps]: "slice xs 0 n = take n xs"
  by (simp add: slice_def)

lemma slice_drop: "i \<le> j \<Longrightarrow> slice xs i j @ drop j xs = drop i xs"
  by (metis append_take_drop_id drop_drop le_add_diff_inverse2 slice_def)

section \<open>Integers as bytes\<close>

text \<open>\<open>n.to_bytes(k, "little")\<close> for a value that fits, and \<open>int.from_bytes\<close>.\<close>

fun le_bytes :: "nat \<Rightarrow> nat \<Rightarrow> bytes" where
  "le_bytes 0 n = []"
| "le_bytes (Suc k) n = of_nat (n mod 256) # le_bytes k (n div 256)"

fun le_val :: "bytes \<Rightarrow> nat" where
  "le_val [] = 0"
| "le_val (b # bs) = unat b + 256 * le_val bs"

definition be_bytes :: "nat \<Rightarrow> nat \<Rightarrow> bytes" where
  "be_bytes k n = rev (le_bytes k n)"

definition be_val :: "bytes \<Rightarrow> nat" where
  "be_val bs = le_val (rev bs)"

definition to_bytes_little :: "nat \<Rightarrow> nat \<Rightarrow> bytes result" where
  "to_bytes_little k n = (if n < 256 ^ k then Inr (le_bytes k n) else Inl OverflowError)"

lemma length_le_bytes [byte_simps, simp]: "length (le_bytes k n) = k"
  by (induction k arbitrary: n) simp_all

lemma length_be_bytes [byte_simps, simp]: "length (be_bytes k n) = k"
  by (simp add: be_bytes_def)

lemma unat_byte_less [simp]: "unat (b :: byte) < 256"
  using unsigned_less [of b] by simp

lemma byte_div16 [simp]: "unat (b :: byte) div 16 < 16"
  using unat_byte_less [of b] by linarith

lemma unat_byte_mod: "unat (of_nat (n mod 256) :: byte) = n mod 256"
  by (simp add: unat_of_nat)

lemma le_val_le_bytes: "n < 256 ^ k \<Longrightarrow> le_val (le_bytes k n) = n"
proof (induction k arbitrary: n)
  case 0
  then show ?case by simp
next
  case (Suc k)
  then have "n div 256 < 256 ^ k"
    by (simp add: less_mult_imp_div_less mult.commute)
  with Suc.IH show ?case
    by (simp add: unat_byte_mod)
qed

lemma be_val_be_bytes [byte_simps]: "n < 256 ^ k \<Longrightarrow> be_val (be_bytes k n) = n"
  by (simp add: be_val_def be_bytes_def le_val_le_bytes)

lemma le_bytes_inj: "m < 256 ^ k \<Longrightarrow> n < 256 ^ k \<Longrightarrow> le_bytes k m = le_bytes k n \<Longrightarrow> m = n"
  by (metis le_val_le_bytes)

lemma be_bytes_inj: "m < 256 ^ k \<Longrightarrow> n < 256 ^ k \<Longrightarrow> be_bytes k m = be_bytes k n \<Longrightarrow> m = n"
  by (metis be_val_be_bytes)

lemma le_val_bound: "le_val bs < 256 ^ length bs"
proof (induction bs)
  case (Cons b bs)
  from Cons.IH have "256 * Suc (le_val bs) \<le> 256 * 256 ^ length bs"
    by (intro mult_le_mono2) simp
  then show ?case using unat_byte_less [of b] by (simp del: unat_byte_less)
qed simp

lemma be_val_bound: "be_val bs < 256 ^ length bs"
  using le_val_bound [of "rev bs"] by (simp add: be_val_def)

section \<open>struct\<close>

text \<open>\<open>struct.pack(">I", n)\<close>, \<open>struct.unpack(">nI", b)\<close> and \<open>struct.unpack_from(">I", b, off)\<close>.\<close>

definition pack_I :: "nat \<Rightarrow> bytes result" where
  "pack_I n = (if n < 2 ^ 32 then Inr (be_bytes 4 n) else Inl StructError)"

fun pack_Is :: "nat list \<Rightarrow> bytes result" where
  "pack_Is [] = Inr []"
| "pack_Is (n # ns) = py_bind (pack_I n) (\<lambda>b. py_bind (pack_Is ns) (\<lambda>bs. Inr (b @ bs)))"

fun u32s :: "nat \<Rightarrow> bytes \<Rightarrow> nat list" where
  "u32s 0 bs = []"
| "u32s (Suc n) bs = be_val (take 4 bs) # u32s n (drop 4 bs)"

definition unpack_Is :: "nat \<Rightarrow> bytes \<Rightarrow> nat list result" where
  "unpack_Is n bs = (if length bs = 4 * n then Inr (u32s n bs) else Inl StructError)"

definition unpack_from_I :: "bytes \<Rightarrow> nat \<Rightarrow> nat result" where
  "unpack_from_I bs off =
     (if length bs < off + 4 then Inl StructError else Inr (be_val (slice bs off (off + 4))))"

lemma pack_I_ok [byte_simps]: "n < 2 ^ 32 \<Longrightarrow> pack_I n = Inr (be_bytes 4 n)"
  by (simp add: pack_I_def)

lemma pack_I_Inr: "pack_I n = Inr b \<longleftrightarrow> n < 2 ^ 32 \<and> b = be_bytes 4 n"
  by (auto simp: pack_I_def)

lemma pack_Is_ok [byte_simps]:
  "\<forall>n \<in> set ns. n < 2 ^ 32 \<Longrightarrow> pack_Is ns = Inr (concat (map (be_bytes 4) ns))"
  by (induction ns) (simp_all add: pack_I_ok)

lemma pack_Is_Inr: "pack_Is ns = Inr b \<Longrightarrow> b = concat (map (be_bytes 4) ns)"
  by (induction ns arbitrary: b) (auto simp: pack_I_Inr)

lemma be_val_u32 [byte_simps]: "n < 2 ^ 32 \<Longrightarrow> be_val (be_bytes 4 n) = n"
  by (rule be_val_be_bytes) simp

lemma u32s_concat:
  "\<forall>n \<in> set ns. n < 2 ^ 32 \<Longrightarrow> length ns = k \<Longrightarrow> u32s k (concat (map (be_bytes 4) ns) @ rest) = ns"
  by (induction ns arbitrary: k) (auto simp: be_val_u32)

lemma length_concat_u32 [byte_simps]: "length (concat (map (be_bytes 4) ns)) = 4 * length ns"
  by (induction ns) simp_all

lemma unpack_pack_Is:
  "\<forall>n \<in> set ns. n < 2 ^ 32 \<Longrightarrow> length ns = k \<Longrightarrow>
     unpack_Is k (concat (map (be_bytes 4) ns)) = Inr ns"
  using u32s_concat [of ns k "[]"] by (simp add: unpack_Is_def length_concat_u32)

lemma u32s_less: "x \<in> set (u32s n bs) \<Longrightarrow> x < 2 ^ 32"
proof (induction n arbitrary: bs)
  case (Suc n)
  have "be_val (take 4 bs) < 256 ^ length (take 4 bs)" by (rule be_val_bound)
  also have "(256 :: nat) ^ length (take 4 bs) \<le> 256 ^ 4" by (rule power_increasing) auto
  finally show ?case using Suc by auto
qed simp

lemma length_u32s [simp]: "length (u32s n bs) = n"
  by (induction n arbitrary: bs) simp_all

lemma unpack_from_I_at [byte_simps]:
  "length pre = off \<Longrightarrow> n < 2 ^ 32 \<Longrightarrow> unpack_from_I (pre @ be_bytes 4 n @ rest) off = Inr n"
  by (simp add: unpack_from_I_def slice_def be_val_u32)

lemma unpack_from_I_0 [byte_simps]:
  "n < 2 ^ 32 \<Longrightarrow> unpack_from_I (be_bytes 4 n @ rest) 0 = Inr n"
  using unpack_from_I_at [of "[]" 0 n rest] by simp

section \<open>latin1\<close>

definition decode_latin1 :: "bytes \<Rightarrow> pystr" where
  "decode_latin1 bs = map unat bs"

definition encode_latin1 :: "pystr \<Rightarrow> bytes result" where
  "encode_latin1 s = (if \<forall>c \<in> set s. c < 256 then Inr (map of_nat s) else Inl UnicodeEncodeError)"

definition latin1 :: "pystr \<Rightarrow> bool" where
  "latin1 s \<longleftrightarrow> (\<forall>c \<in> set s. c < 256)"

lemma unat_of_nat_byte: "c < 256 \<Longrightarrow> unat (of_nat c :: byte) = c"
  by (simp add: unat_of_nat)

lemma length_decode_latin1 [simp]: "length (decode_latin1 bs) = length bs"
  by (simp add: decode_latin1_def)

lemma decode_latin1_inj [simp]: "decode_latin1 a = decode_latin1 b \<longleftrightarrow> a = b"
  by (auto simp: decode_latin1_def inj_map_eq_map word_unat_eq_iff inj_def)

lemma latin1_decode [simp]: "latin1 (decode_latin1 bs)"
  by (simp add: latin1_def decode_latin1_def)

lemma encode_decode_latin1 [simp]: "encode_latin1 (decode_latin1 bs) = Inr bs"
  by (simp add: encode_latin1_def decode_latin1_def map_idI)

lemma encode_latin1_Inr:
  "encode_latin1 s = Inr b \<longleftrightarrow> latin1 s \<and> b = map of_nat s"
  by (auto simp: encode_latin1_def latin1_def)

lemma decode_encode_latin1: "encode_latin1 s = Inr b \<Longrightarrow> decode_latin1 b = s"
  by (auto simp: encode_latin1_def decode_latin1_def unat_of_nat_byte intro!: map_idI split: if_splits)

lemma latin1_encode_ex: "latin1 s \<Longrightarrow> \<exists>b. encode_latin1 s = Inr b \<and> decode_latin1 b = s"
  using decode_encode_latin1 by (auto simp: encode_latin1_def latin1_def)

lemma length_encode_latin1: "encode_latin1 s = Inr b \<Longrightarrow> length b = length s"
  by (auto simp: encode_latin1_def split: if_splits)

section \<open>Lists\<close>

lemma prefix_strict_take:
  "strict_prefix xs ys \<Longrightarrow> \<exists>n < length ys. xs = take n ys"
  by (metis append_eq_conv_conj prefix_length_less prefixE strict_prefix_def)

end
