(* ===== verification/Crypto.thy ===== *)
theory Crypto
  imports Prelude
begin

text \<open>
  The third-party code the program relies on, as a parameter of the model: the
  \<open>cryptography\<close> package (X25519, HKDF, ChaCha20-Poly1305) and the \<open>zstandard\<close> package.
  A value of type \<open>crypto\<close> supplies their functions; \<open>crypto_ok\<close> states the documented
  behaviour the code relies on. \<open>toy_crypto\<close> is a concrete value that satisfies it, used
  by the witnesses.
\<close>

record crypto =
  x25519_public :: "bytes \<Rightarrow> bytes"
    \<comment> \<open>\<open>private_key.public_key().public_bytes(Raw, Raw)\<close>\<close>
  x25519_exchange :: "bytes \<Rightarrow> bytes \<Rightarrow> bytes option"
    \<comment> \<open>\<open>private_key.exchange(peer)\<close>; \<open>None\<close> when it raises \<open>ValueError\<close>\<close>
  hkdf_derive :: "bytes \<Rightarrow> bytes \<Rightarrow> bytes"
    \<comment> \<open>\<open>HKDF(SHA256, 32, None, info).derive(secret)\<close>, info first\<close>
  aead_encrypt :: "bytes \<Rightarrow> bytes \<Rightarrow> bytes \<Rightarrow> bytes option"
    \<comment> \<open>\<open>ChaCha20Poly1305(key).encrypt(nonce, data, None)\<close>; \<open>None\<close> is \<open>OverflowError\<close>\<close>
  aead_decrypt :: "bytes \<Rightarrow> bytes \<Rightarrow> bytes \<Rightarrow> bytes option"
    \<comment> \<open>\<open>ChaCha20Poly1305(key).decrypt(nonce, data, None)\<close>; \<open>None\<close> is \<open>InvalidTag\<close>\<close>
  zstd_compress :: "nat \<Rightarrow> bytes \<Rightarrow> bytes"
    \<comment> \<open>\<open>ZstdCompressor(level).compress(data)\<close>\<close>
  zstd_decompress :: "nat \<Rightarrow> bytes \<Rightarrow> bytes option"
    \<comment> \<open>\<open>ZstdDecompressor().decompress(data, max_output_size)\<close>; \<open>None\<close> is \<open>ZstdError\<close>\<close>

text \<open>Documented behaviour of the AEAD with a 32-byte key and a 12-byte nonce: it encrypts up
  to \<open>2^31 - 1\<close> bytes, adds a 16-byte tag, and decryption under the same key and nonce gives
  the plaintext back.\<close>

definition aead_ok :: "crypto \<Rightarrow> bool" where
  "aead_ok cr \<longleftrightarrow>
     (\<forall>k n p. length k = 32 \<longrightarrow> length n = 12 \<longrightarrow> length p < 2 ^ 31 \<longrightarrow>
        (\<exists>c. aead_encrypt cr k n p = Some c \<and> length c = length p + 16 \<and> aead_decrypt cr k n c = Some p))"

text \<open>Documented behaviour of Zstandard: compression produces a frame, which is never empty,
  and decompression inverts it at every level, when no output limit is given or the data fits
  into it.\<close>

definition zstd_ok :: "crypto \<Rightarrow> bool" where
  "zstd_ok cr \<longleftrightarrow>
     (\<forall>l d. zstd_compress cr l d \<noteq> []) \<and>
     (\<forall>l m d. m = 0 \<or> length d \<le> m \<longrightarrow> zstd_decompress cr m (zstd_compress cr l d) = Some d)"

text \<open>Documented behaviour of X25519 with honest keys and of HKDF with \<open>length=32\<close>: public
  keys are 32 bytes, both sides compute the same shared secret, the exchange succeeds, and
  the derived key is 32 bytes long.\<close>

definition x25519_ok :: "crypto \<Rightarrow> bool" where
  "x25519_ok cr \<longleftrightarrow>
     (\<forall>a. length (x25519_public cr a) = 32) \<and>
     (\<forall>i s. length (hkdf_derive cr i s) = 32) \<and>
     (\<forall>a b. \<exists>s. x25519_exchange cr a (x25519_public cr b) = Some s \<and>
                x25519_exchange cr b (x25519_public cr a) = Some s)"

definition crypto_ok :: "crypto \<Rightarrow> bool" where
  "crypto_ok cr \<longleftrightarrow> aead_ok cr \<and> zstd_ok cr \<and> x25519_ok cr"

text \<open>The authenticity the program expects of the AEAD across nonces: a ciphertext made under
  one nonce is rejected under another.\<close>

definition aead_nonce_bound :: "crypto \<Rightarrow> bool" where
  "aead_nonce_bound cr \<longleftrightarrow>
     (\<forall>k n m p c. length k = 32 \<longrightarrow> length n = 12 \<longrightarrow> length m = 12 \<longrightarrow> aead_encrypt cr k n p = Some c \<longrightarrow> m \<noteq> n \<longrightarrow> aead_decrypt cr k m c = None)"

lemma aead_okE:
  assumes "aead_ok cr" and "length k = 32" and "length n = 12" and "length p < 2 ^ 31"
  obtains c where "aead_encrypt cr k n p = Some c" and "length c = length p + 16"
    and "aead_decrypt cr k n c = Some p"
  using assms unfolding aead_ok_def by blast

lemma zstd_okD:
  "zstd_ok cr \<Longrightarrow> m = 0 \<or> length d \<le> m \<Longrightarrow> zstd_decompress cr m (zstd_compress cr l d) = Some d"
  unfolding zstd_ok_def by blast

lemma zstd_ok_nonempty: "zstd_ok cr \<Longrightarrow> zstd_compress cr l d \<noteq> []"
  unfolding zstd_ok_def by blast

section \<open>A concrete instance\<close>

text \<open>
  The instance keeps plaintext and appends the nonce and four bytes of the key as the tag
  (sixteen bytes for the twelve-byte nonces the program uses), compresses runs of zero bytes
  shorter than 256, and adds the two private keys bytewise for the exchange. It is not
  secure; it only has the behaviour the hypotheses state.
\<close>

definition toy_pad :: "nat \<Rightarrow> bytes \<Rightarrow> bytes" where
  "toy_pad n bs = take n (bs @ replicate n 0)"

definition toy_tag :: "bytes \<Rightarrow> bytes \<Rightarrow> bytes" where
  "toy_tag k n = toy_pad 16 (n @ toy_pad 4 k)"

definition toy_encrypt :: "bytes \<Rightarrow> bytes \<Rightarrow> bytes \<Rightarrow> bytes option" where
  "toy_encrypt k n p = (if length p < 2 ^ 31 then Some (p @ toy_tag k n) else None)"

definition toy_decrypt :: "bytes \<Rightarrow> bytes \<Rightarrow> bytes \<Rightarrow> bytes option" where
  "toy_decrypt k n c =
     (if length c < 16 then None
      else if drop (length c - 16) c = toy_tag k n then Some (take (length c - 16) c)
      else None)"

definition toy_compress :: "nat \<Rightarrow> bytes \<Rightarrow> bytes" where
  "toy_compress l d =
     (if d = replicate (length d) 0 \<and> length d < 256 then [1, of_nat (length d)] else 0 # d)"

fun toy_decompress :: "nat \<Rightarrow> bytes \<Rightarrow> bytes option" where
  "toy_decompress m [] = None"
| "toy_decompress m (t # d) =
     (let r = (if t = 0 then Some d
               else case d of [n] \<Rightarrow> Some (replicate (unat n) 0) | _ \<Rightarrow> None)
      in case r of None \<Rightarrow> None
         | Some x \<Rightarrow> if m = 0 \<or> length x \<le> m then Some x else None)"

definition toy_crypto :: crypto where
  "toy_crypto =
     \<lparr>x25519_public = toy_pad 32,
      x25519_exchange = (\<lambda>a b. Some (map2 (+) (toy_pad 32 a) (toy_pad 32 b))),
      hkdf_derive = (\<lambda>info secret. toy_pad 32 secret),
      aead_encrypt = toy_encrypt,
      aead_decrypt = toy_decrypt,
      zstd_compress = toy_compress,
      zstd_decompress = toy_decompress\<rparr>"

lemmas toy_defs = toy_crypto_def toy_pad_def toy_tag_def toy_encrypt_def toy_decrypt_def
  toy_compress_def

lemma length_toy_pad [simp]: "length (toy_pad n bs) = n"
  by (simp add: toy_pad_def)

lemma toy_pad_idem [simp]: "toy_pad n (toy_pad n bs) = toy_pad n bs"
  by (simp add: toy_pad_def)

lemma length_toy_tag [simp]: "length (toy_tag k n) = 16"
  by (simp add: toy_tag_def)

lemma toy_aead_ok: "aead_ok toy_crypto"
  by (simp add: aead_ok_def toy_crypto_def toy_encrypt_def toy_decrypt_def)

lemma toy_decompress_compress:
  assumes "m = 0 \<or> length d \<le> m"
  shows "toy_decompress m (toy_compress l d) = Some d"
proof (cases "d = replicate (length d) 0 \<and> length d < 256")
  case True
  then have "replicate (unat (of_nat (length d) :: byte)) 0 = d"
    by (simp add: unat_of_nat_byte)
  then show ?thesis using True assms by (simp add: toy_compress_def)
next
  case False
  then show ?thesis using assms by (auto simp: toy_compress_def)
qed

lemma toy_zstd_ok: "zstd_ok toy_crypto"
  by (auto simp: zstd_ok_def toy_crypto_def toy_decompress_compress) (simp add: toy_compress_def split: if_splits)

lemma map2_add_commute: "map2 (+) xs ys = map2 (+) ys (xs :: bytes)"
proof (induction xs arbitrary: ys)
  case (Cons x xs)
  then show ?case by (cases ys) (simp_all add: add.commute)
qed simp

lemma toy_x25519_ok: "x25519_ok toy_crypto"
  by (auto simp: x25519_ok_def toy_crypto_def map2_add_commute)

lemma toy_nonce_bound: "aead_nonce_bound toy_crypto"
proof -
  have "toy_tag k m = toy_tag k n \<Longrightarrow> m = n" if "length m = 12" "length n = 12" for k m n
    using that by (simp add: toy_tag_def toy_pad_def)
  then show ?thesis
    by (auto simp: aead_nonce_bound_def toy_crypto_def toy_encrypt_def toy_decrypt_def split: if_splits)
qed

lemma toy_crypto_ok: "crypto_ok toy_crypto"
  by (simp add: crypto_ok_def toy_aead_ok toy_zstd_ok toy_x25519_ok)

end
