(* ===== verification/Wire.thy ===== *)
theory Wire
  imports Crypto
begin

text \<open>
  \<^verbatim>\<open>pipebomb/utils.py\<close>, the wire layer: the message records, the
  conversion of primitives, the packet frame, the CRC, packet construction and verification
  and the error texts. The two loops that read a frame from a socket
  (\<^verbatim>\<open>read_packet_frame\<close>, and the inner loop of
  \<^verbatim>\<open>Server.handle_client\<close> and
  \<^verbatim>\<open>RawClient.handle_connection\<close>) are here too, because they only use
  \<^verbatim>\<open>extract_packet_frame\<close>: what a socket delivers is the list of the
  chunks its \<open>sock_recv\<close> calls return, an empty chunk or the end of the list being the end
  of the stream.
\<close>

named_theorems wire_defs \<open>the constants of the wire format\<close>

section \<open>Constants and messages\<close>

definition HEADER :: bytes where [wire_defs]: "HEADER = [0x91, 0x93]"

definition FOOTER :: bytes where [wire_defs]: "FOOTER = [0x80, 0x38]"

definition FRAME_HEADER_SIZE :: nat where [wire_defs]: "FRAME_HEADER_SIZE = 6"

record Request =
  rq_return_uuid :: bytes
  rq_key :: bytes
  rq_request :: bytes
  rq_request_uuid :: bytes

record Response =
  rs_key :: bytes
  rs_response :: bytes
  rs_response_uuid :: bytes

definition ACK :: bytes where [wire_defs]: "ACK = [0, 69, 82, 82, 0]"

datatype Primitives = PInt int | PBytes bytes | PStr pystr

text \<open>\<open>str(n)\<close> for an \<open>int\<close>: decimal digits, with a minus sign for a negative number.\<close>

fun decimal :: "nat \<Rightarrow> pystr" where
  "decimal n = (if n < 10 then [48 + n] else decimal (n div 10) @ [48 + n mod 10])"

declare decimal.simps [simp del]

definition str_int :: "int \<Rightarrow> pystr" where
  "str_int i = (if i < 0 then 45 # decimal (nat (- i)) else decimal (nat i))"

definition undecimal :: "pystr \<Rightarrow> nat" where
  "undecimal ds = foldl (\<lambda>a d. 10 * a + (d - 48)) 0 ds"

lemma decimal_digits: "\<forall>d \<in> set (decimal n). 48 \<le> d \<and> d \<le> 57"
proof (induction n rule: decimal.induct)
  case (1 n)
  then show ?case using decimal.simps [of n] by (cases "n < 10") auto
qed

lemma decimal_digit: "d \<in> set (decimal n) \<Longrightarrow> 48 \<le> d \<and> d \<le> 57"
  using decimal_digits by blast

lemma undecimal_decimal: "undecimal (decimal n) = n"
proof (induction n rule: decimal.induct)
  case (1 n)
  then show ?case using decimal.simps [of n] by (cases "n < 10") (auto simp: undecimal_def)
qed

lemma str_int_inj: "str_int i = str_int j \<Longrightarrow> i = j"
proof -
  have inj: "decimal m = decimal n \<Longrightarrow> m = n" for m n by (metis undecimal_decimal)
  have sign: "45 # x \<noteq> decimal n" for x n
    using decimal_digit [of 45 n] by (auto dest: arg_cong [of _ _ "\<lambda>l. 45 \<in> set l"])
  show "str_int i = str_int j \<Longrightarrow> i = j"
    using sign sign [symmetric] by (auto simp: str_int_def dest!: inj split: if_splits)
qed

lemma encode_str_int: "\<exists>b. encode_latin1 (str_int i) = Inr b"
proof -
  have "\<forall>c \<in> set (str_int i). c < 256"
    by (auto simp: str_int_def dest!: decimal_digit)
  then show ?thesis by (simp add: encode_latin1_def)
qed

fun primitive :: "Primitives \<Rightarrow> bytes result" where
  "primitive (PInt i) = encode_latin1 (str_int i)"
| "primitive (PBytes b) = Inr b"
| "primitive (PStr s) = encode_latin1 s"

section \<open>The packet frame\<close>

definition extract_packet_frame :: "bytes \<Rightarrow> bytes option \<times> bytes \<times> nat option" where
  "extract_packet_frame buffer =
     (if length buffer < FRAME_HEADER_SIZE then (None, buffer, None)
      else if take 2 buffer \<noteq> HEADER then (None, [], Some 2)
      else let ciphertext_size = be_val (slice buffer 2 FRAME_HEADER_SIZE);
               frame_size = FRAME_HEADER_SIZE + ciphertext_size
           in if length buffer < frame_size then (None, buffer, None)
              else (Some (take frame_size buffer), drop frame_size buffer, None))"

definition frame_ok :: "bytes \<Rightarrow> bool" where
  "frame_ok f \<longleftrightarrow>
     6 \<le> length f \<and> take 2 f = HEADER \<and> length f = 6 + be_val (slice f 2 6)"

lemma frame_okI:
  "length c < 2 ^ 32 \<Longrightarrow> frame_ok (HEADER @ be_bytes 4 (length c) @ c)"
  by (simp add: frame_ok_def HEADER_def slice_def be_val_u32)

lemma extract_whole:
  assumes "frame_ok f"
  shows "extract_packet_frame (f @ rest) = (Some f, rest, None)"
proof -
  from assms have l: "6 \<le> length f" and h: "take 2 f = HEADER"
    and n: "length f = 6 + be_val (slice f 2 6)"
    by (simp_all add: frame_ok_def)
  from l h have "take 2 (f @ rest) = HEADER" by simp
  moreover from l have "slice (f @ rest) 2 6 = slice f 2 6" by (simp add: slice_def)
  ultimately show ?thesis
    using l n by (simp add: extract_packet_frame_def FRAME_HEADER_SIZE_def Let_def)
qed

lemma extract_partial:
  assumes f: "frame_ok f" and b: "strict_prefix b f"
  shows "extract_packet_frame b = (None, b, None)"
proof (cases "length b < 6")
  case True
  then show ?thesis by (simp add: extract_packet_frame_def FRAME_HEADER_SIZE_def)
next
  case False
  from b obtain n where n: "n < length f" "b = take n f"
    using prefix_strict_take by blast
  with False have "6 \<le> n" by simp
  then have "take 2 b = take 2 f" "slice b 2 6 = slice f 2 6"
    using n by (simp_all add: slice_def min_def drop_take)
  then show ?thesis
    using f n False by (simp add: extract_packet_frame_def frame_ok_def FRAME_HEADER_SIZE_def Let_def)
qed

lemma extract_frame_ok:
  assumes "extract_packet_frame b = (Some f, rest, e)"
  shows "frame_ok f \<and> b = f @ rest \<and> e = None"
proof -
  let ?n = "6 + be_val (slice b 2 6)"
  from assms have l: "6 \<le> length b" "take 2 b = HEADER" "?n \<le> length b"
    and f: "f = take ?n b" and rest: "rest = drop ?n b" "e = None"
    by (auto simp: extract_packet_frame_def FRAME_HEADER_SIZE_def Let_def split: if_splits)
  have "slice f 2 6 = slice b 2 6" unfolding f by (simp add: slice_def drop_take)
  with l f have "frame_ok f" by (simp add: frame_ok_def)
  with f rest show ?thesis by simp
qed

lemma extract_none_buffer: "extract_packet_frame b = (None, b', None) \<Longrightarrow> b' = b"
  by (auto simp: extract_packet_frame_def Let_def split: if_splits)

lemma extract_error: "extract_packet_frame b = (f, b', Some e) \<Longrightarrow> f = None \<and> b' = [] \<and> e = 2"
  by (auto simp: extract_packet_frame_def Let_def split: if_splits)

section \<open>Reading frames from a stream\<close>

text \<open>
  What a reading loop returns: a frame with the bytes left in its buffer and the chunks not
  yet received, a framing error, or the end of the stream in the middle of a frame.
\<close>

datatype read_result = Frame bytes bytes "bytes list" | FrameError nat | Eof

text \<open>The inner loop of \<open>handle_client\<close> and of the client's \<open>recv_loop\<close>.\<close>

fun receive_frame :: "bytes \<Rightarrow> bytes list \<Rightarrow> read_result" where
  "receive_frame receive_buffer chunks =
     (case extract_packet_frame receive_buffer of (frame, buffer, framing_error) \<Rightarrow>
        (case framing_error of Some e \<Rightarrow> FrameError e
         | None \<Rightarrow>
             (case frame of Some f \<Rightarrow> Frame f buffer chunks
              | None \<Rightarrow>
                  (case chunks of [] \<Rightarrow> Eof
                   | packet # chunks' \<Rightarrow>
                       if packet = [] then Eof else receive_frame (buffer @ packet) chunks'))))"

declare receive_frame.simps [simp del]

text \<open>
  \<open>read_packet_frame\<close>, the same in the server and the client: it starts with an empty
  buffer and returns only the frame, so the bytes after it in the last chunk are dropped.
  The second component is the rest of the stream.
\<close>

fun read_packet_frame_loop :: "bytes \<Rightarrow> bytes list \<Rightarrow> (bytes \<times> bytes list) result" where
  "read_packet_frame_loop buffer chunks =
     (case extract_packet_frame buffer of (frame, buffer', framing_error) \<Rightarrow>
        (if framing_error \<noteq> None then Inl RuntimeError
         else case frame of Some f \<Rightarrow> Inr (f, chunks)
         | None \<Rightarrow>
             (case chunks of [] \<Rightarrow> Inl RuntimeError
              | chunk # chunks' \<Rightarrow>
                  if chunk = [] then Inl RuntimeError
                  else read_packet_frame_loop (buffer' @ chunk) chunks')))"

declare read_packet_frame_loop.simps [simp del]

definition read_packet_frame :: "bytes list \<Rightarrow> (bytes \<times> bytes list) result" where
  "read_packet_frame chunks = read_packet_frame_loop [] chunks"

text \<open>
  \<open>read_exact\<close>: \<open>sock_recv(size - len(buffer))\<close> until the size is reached or the stream
  ends. A chunk longer than what was asked for is split, and its rest stays in the stream.
\<close>

fun read_exact :: "nat \<Rightarrow> bytes \<Rightarrow> bytes list \<Rightarrow> bytes \<times> bytes list" where
  "read_exact sz buffer [] = (buffer, [])"
| "read_exact sz buffer (chunk # chunks) =
     (if sz \<le> length buffer then (buffer, chunk # chunks)
      else if chunk = [] then (buffer, chunks)
      else let k = sz - length buffer in
        if length chunk \<le> k then read_exact sz (buffer @ chunk) chunks
        else (buffer @ take k chunk, drop k chunk # chunks))"

text \<open>A loop that reads \<open>n\<close> frames, as \<open>handle_client\<close> and \<open>recv_loop\<close> do, with any reader.\<close>

fun read_frames :: "(bytes \<Rightarrow> bytes list \<Rightarrow> read_result) \<Rightarrow> nat \<Rightarrow> bytes \<Rightarrow> bytes list \<Rightarrow> bytes list"
where
  "read_frames rd 0 buffer chunks = []"
| "read_frames rd (Suc n) buffer chunks =
     (case rd buffer chunks of Frame f b cs \<Rightarrow> f # read_frames rd n b cs | _ \<Rightarrow> [])"

subsection \<open>The framing interface\<close>

text \<open>
  What the readers need of the frame format: a whole frame at the start of the buffer is
  extracted, whatever follows it, and a proper prefix of a frame is kept for later.
\<close>

locale framing =
  fixes split_frame :: "bytes \<Rightarrow> bytes option \<times> bytes \<times> nat option"
    and wf :: "bytes \<Rightarrow> bool"
  assumes frame_whole: "wf f \<Longrightarrow> split_frame (f @ rest) = (Some f, rest, None)"
    and frame_partial: "wf f \<Longrightarrow> strict_prefix b f \<Longrightarrow> split_frame b = (None, b, None)"

text \<open>A reader over a frame format: one loop of the code, by its unfolding.\<close>

locale frame_reader = framing +
  fixes rd :: "bytes \<Rightarrow> bytes list \<Rightarrow> read_result"
  assumes read_whole: "split_frame b = (Some f, b', None) \<Longrightarrow> rd b cs = Frame f b' cs"
    and read_more: "split_frame b = (None, b', None) \<Longrightarrow> c \<noteq> [] \<Longrightarrow> rd b (c # cs) = rd (b' @ c) cs"
begin

lemma read_one:
  "wf f \<Longrightarrow> b @ concat cs = f @ rest \<Longrightarrow> [] \<notin> set cs \<Longrightarrow>
     \<exists>b' cs'. rd b cs = Frame f b' cs' \<and> b' @ concat cs' = rest \<and> [] \<notin> set cs'"
proof (induction cs arbitrary: b)
  case Nil
  then show ?case using read_whole [OF frame_whole] by auto
next
  case (Cons c cs)
  show ?case
  proof (cases "strict_prefix b f")
    case True
    then have "rd b (c # cs) = rd (b @ c) cs"
      using Cons.prems read_more [OF frame_partial] by auto
    with Cons show ?thesis by simp
  next
    case False
    with Cons.prems(2) obtain d where d: "b = f @ d"
      by (metis append_eq_append_conv2 strict_prefix_def prefixI append_Nil2)
    then have "rd b (c # cs) = Frame f d (c # cs)"
      using Cons.prems(1) read_whole [OF frame_whole] by simp
    with d Cons.prems show ?thesis by auto
  qed
qed

lemma read_all:
  "\<forall>f \<in> set fs. wf f \<Longrightarrow> b @ concat cs = concat fs @ rest \<Longrightarrow> [] \<notin> set cs \<Longrightarrow>
     read_frames rd (length fs) b cs = fs"
proof (induction fs arbitrary: b cs)
  case (Cons f fs)
  then obtain b' cs' where "rd b cs = Frame f b' cs'" "b' @ concat cs' = concat fs @ rest"
    "[] \<notin> set cs'"
    using read_one [of f b cs "concat fs @ rest"] by auto
  with Cons show ?case by simp
qed simp

end

interpretation frames: frame_reader extract_packet_frame frame_ok receive_frame
  by unfold_locales
    (simp_all add: extract_whole extract_partial receive_frame.simps split: if_splits)

lemma receive_frame_ok:
  "receive_frame b cs = Frame f b' cs' \<Longrightarrow> frame_ok f"
proof (induction b cs rule: receive_frame.induct)
  case (1 b cs)
  obtain f0 b0 e0 where x: "extract_packet_frame b = (f0, b0, e0)" by (cases "extract_packet_frame b")
  show ?case
  proof (cases "f0 = None \<and> e0 = None")
    case True
    then obtain p cs'' where "cs = p # cs''" "p \<noteq> []" "receive_frame (b0 @ p) cs'' = Frame f b' cs'"
      using "1.prems" x by (subst (asm) receive_frame.simps) (auto split: list.splits if_splits)
    with "1.IH" x True show ?thesis by simp
  next
    case False
    with "1.prems" x have "f0 = Some f"
      by (subst (asm) receive_frame.simps) (auto split: option.splits)
    with x show ?thesis using extract_frame_ok by blast
  qed
qed

text \<open>\<open>read_packet_frame\<close> is the same loop, less the buffer it drops.\<close>

lemma read_packet_frame_loop_eq:
  "read_packet_frame_loop b cs =
     (case receive_frame b cs of Frame f b' cs' \<Rightarrow> Inr (f, cs') | _ \<Rightarrow> Inl RuntimeError)"
proof (induction b cs rule: receive_frame.induct)
  case (1 b cs)
  obtain f0 b0 e0 where x: "extract_packet_frame b = (f0, b0, e0)" by (cases "extract_packet_frame b")
  then show ?case using "1.IH"
    by (simp add: receive_frame.simps [of b] read_packet_frame_loop.simps [of b]
        split: option.splits list.splits)
qed

lemma read_exact_ok:
  "length buffer \<le> sz \<Longrightarrow> sz \<le> length (buffer @ concat chunks) \<Longrightarrow> [] \<notin> set chunks \<Longrightarrow>
     \<exists>chunks'. read_exact sz buffer chunks = (take sz (buffer @ concat chunks), chunks') \<and>
       concat chunks' = drop sz (buffer @ concat chunks) \<and> [] \<notin> set chunks'"
  by (induction sz buffer chunks rule: read_exact.induct) (auto simp: Let_def)

section \<open>Properties\<close>

text \<open>C19: chunk independence. However a sequence of well-formed frames is cut into non-empty
  chunks, and whatever follows it, the loop around \<open>receive_frame\<close> reads exactly those frames.\<close>

theorem framing_chunk_independent:
  assumes "\<forall>f \<in> set fs. frame_ok f" and "concat chunks = concat fs @ rest" and "[] \<notin> set chunks"
  shows "read_frames receive_frame (length fs) [] chunks = fs"
  using frames.read_all [OF assms(1), of "[]" chunks rest] assms(2,3) by simp

theorem framing_chunk_independent_witness:
  "read_frames receive_frame 2 []
     [[0x91], [0x93, 0, 0, 0], [2, 7, 8, 0x91, 0x93, 0], [0, 0, 1, 9, 5]] =
   [[0x91, 0x93, 0, 0, 0, 2, 7, 8], [0x91, 0x93, 0, 0, 0, 1, 9]]"
proof -
  let ?fs = "[[0x91, 0x93, 0, 0, 0, 2, 7, 8], [0x91, 0x93, 0, 0, 0, 1, 9]] :: bytes list"
  have "\<forall>f \<in> set ?fs. frame_ok f"
    by (simp add: frame_ok_def HEADER_def slice_def be_val_def)
  from framing_chunk_independent [OF this, of
      "[[0x91], [0x93, 0, 0, 0], [2, 7, 8, 0x91, 0x93, 0], [0, 0, 1, 9, 5]]" "[5]"]
  show ?thesis by (simp add: numeral_2_eq_2 del: read_frames.simps)
qed

text \<open>The frame splitter loses no byte. A frame it returns is well formed and, with the rest
  it returns, makes up the buffer; without a frame and without an error the buffer is kept; the
  only error is code 2, for six bytes or more that do not start with the header.\<close>

theorem extract_conserves:
  "case extract_packet_frame buffer of
     (Some f, rest, e) \<Rightarrow> frame_ok f \<and> buffer = f @ rest \<and> e = None
   | (None, rest, None) \<Rightarrow> rest = buffer
   | (None, rest, Some e) \<Rightarrow> e = 2 \<and> rest = [] \<and> 6 \<le> length buffer \<and> take 2 buffer \<noteq> HEADER"
proof (cases "extract_packet_frame buffer")
  case (fields f rest e)
  show ?thesis
  proof (cases "f = None \<and> e \<noteq> None")
    case True
    with fields show ?thesis
      by (auto simp: extract_packet_frame_def FRAME_HEADER_SIZE_def Let_def split: if_splits)
  next
    case False
    with fields extract_frame_ok [of buffer _ rest e] extract_none_buffer [of buffer rest]
    show ?thesis by (auto split: option.split)
  qed
qed

text \<open>\<open>read_packet_frame\<close> (the reader of the handshake) keeps only the frame: what the peer
  sent in the same chunk after it is lost, while the connection loop keeps it.\<close>

theorem read_packet_frame_drops:
  assumes "frame_ok f" and "f @ late \<noteq> []"
  shows "read_packet_frame ((f @ late) # chunks) = Inr (f, chunks) \<and>
    receive_frame [] ((f @ late) # chunks) = Frame f late chunks"
proof -
  have "strict_prefix [] f" using assms(1) by (cases f) (auto simp: frame_ok_def)
  then have e: "extract_packet_frame [] = (None, [], None)" using extract_partial [OF assms(1)] by simp
  have r: "receive_frame [] ((f @ late) # chunks) = Frame f late chunks"
    using frames.read_more [OF e assms(2)] frames.read_whole [OF extract_whole [OF assms(1)]] by simp
  then show ?thesis by (simp add: read_packet_frame_def read_packet_frame_loop_eq)
qed

theorem read_packet_frame_drops_witness:
  "read_packet_frame [[0x91, 0x93, 0, 0, 0, 1, 9, 5, 6]] = Inr ([0x91, 0x93, 0, 0, 0, 1, 9], []) \<and>
   receive_frame [] [[0x91, 0x93, 0, 0, 0, 1, 9, 5, 6]] = Frame [0x91, 0x93, 0, 0, 0, 1, 9] [5, 6] []"
  using read_packet_frame_drops [of "[0x91, 0x93, 0, 0, 0, 1, 9]" "[5, 6]" "[]"]
  by (simp add: frame_ok_def HEADER_def slice_def be_val_def)

text \<open>An integer key or value has one text: \<open>primitive\<close> is injective on integers.\<close>

theorem primitive_int_injective:
  "primitive (PInt i) = primitive (PInt j) \<longleftrightarrow> i = j"
proof
  assume eq: "primitive (PInt i) = primitive (PInt j)"
  then have "str_int i = str_int j"
    using encode_str_int by (metis decode_encode_latin1 primitive.simps(1))
  then show "i = j" by (rule str_int_inj)
qed simp

end
