(* ===== verification/Crc32.thy ===== *)
theory Crc32
  imports Prelude
begin

text \<open>
  \<open>zlib.crc32\<close>, the checksum of \<^verbatim>\<open>pipebomb/utils.py\<close>: the reflected CRC of polynomial
  \<open>0xEDB88320\<close> with initial value and final complement all ones. The lemmas show that the
  register update is injective, so a change confined to one byte always changes the
  checksum.
\<close>

definition crc32_bit :: "32 word \<Rightarrow> 32 word" where
  "crc32_bit c = (if bit c 0 then drop_bit 1 c XOR 0xEDB88320 else drop_bit 1 c)"

fun crc32_bits :: "nat \<Rightarrow> 32 word \<Rightarrow> 32 word" where
  "crc32_bits 0 c = c"
| "crc32_bits (Suc n) c = crc32_bits n (crc32_bit c)"

definition crc32_byte :: "32 word \<Rightarrow> byte \<Rightarrow> 32 word" where
  "crc32_byte c b = crc32_bits 8 (c XOR ucast b)"

definition crc32 :: "bytes \<Rightarrow> 32 word" where
  "crc32 bs = NOT (foldl crc32_byte 0xFFFFFFFF bs)"

text \<open>\<open>crc32(data).to_bytes(4, "big")\<close>\<close>

definition crc32_be :: "bytes \<Rightarrow> bytes" where
  "crc32_be bs = be_bytes 4 (unat (crc32 bs))"

lemma length_crc32_be [simp]: "length (crc32_be bs) = 4"
  by (simp add: crc32_be_def)

lemma xor_right_cancel: "a XOR c = b XOR c \<longleftrightarrow> a = (b :: 'a :: len word)"
  by (auto simp: bit_eq_iff bit_simps)

lemma xor_left_cancel: "c XOR a = c XOR b \<longleftrightarrow> a = (b :: 'a :: len word)"
  by (auto simp: bit_eq_iff bit_simps)

text \<open>The top bit of the result tells which branch was taken.\<close>

lemma crc32_bit_top: "bit (crc32_bit c) 31 = bit c 0"
proof -
  have "\<not> bit c 32" using bit_imp_le_length [of c 32] by auto
  then show ?thesis by (simp add: crc32_bit_def bit_simps)
qed

lemma crc32_bit_inj: "crc32_bit a = crc32_bit b \<Longrightarrow> a = b"
proof -
  assume eq: "crc32_bit a = crc32_bit b"
  then have b0: "bit a 0 = bit b 0" by (metis crc32_bit_top)
  with eq have d: "drop_bit 1 a = drop_bit 1 b"
    by (auto simp: crc32_bit_def xor_right_cancel split: if_splits)
  show "a = b"
  proof (rule bit_eqI)
    fix n
    show "bit a n = bit b n"
    proof (cases n)
      case (Suc m)
      then have "bit a n = bit (drop_bit 1 a) m" "bit b n = bit (drop_bit 1 b) m"
        by (simp_all add: bit_drop_bit_eq)
      with d show ?thesis by simp
    qed (simp add: b0)
  qed
qed

lemma crc32_bits_inj: "crc32_bits n a = crc32_bits n b \<Longrightarrow> a = b"
  by (induction n arbitrary: a b) (auto dest: crc32_bit_inj)

lemma crc32_byte_inj_state: "crc32_byte c b = crc32_byte d b \<longleftrightarrow> c = d"
  by (auto simp: crc32_byte_def xor_right_cancel dest!: crc32_bits_inj)

lemma crc32_byte_inj_byte: "crc32_byte c a = crc32_byte c b \<longleftrightarrow> a = b"
proof
  assume "crc32_byte c a = crc32_byte c b"
  then have "ucast a = (ucast b :: 32 word)"
    by (auto simp: crc32_byte_def xor_left_cancel dest!: crc32_bits_inj)
  then have "unat (ucast a :: 32 word) = unat (ucast b :: 32 word)" by simp
  moreover have "unat (ucast x :: 32 word) = unat x" for x :: byte
    using unat_byte_less [of x]
    by (simp add: unsigned_ucast_eq take_bit_nat_eq_self_iff del: unat_byte_less)
  ultimately show "a = b" by (simp add: word_unat_eq_iff)
qed simp

lemma foldl_crc32_inj: "foldl crc32_byte c bs = foldl crc32_byte d bs \<longleftrightarrow> c = d"
  by (induction bs arbitrary: c d) (simp_all add: crc32_byte_inj_state)

lemma crc32_one_byte:
  "crc32 (pre @ a # post) = crc32 (pre @ b # post) \<longleftrightarrow> a = b"
  by (simp add: crc32_def foldl_crc32_inj crc32_byte_inj_byte)

lemma crc32_be_eq: "crc32_be xs = crc32_be ys \<longleftrightarrow> crc32 xs = crc32 ys"
proof
  assume "crc32_be xs = crc32_be ys"
  then have "unat (crc32 xs) = unat (crc32 ys)"
    using unsigned_less [of "crc32 xs"] unsigned_less [of "crc32 ys"]
    by (intro be_bytes_inj [of _ 4]) (simp_all add: crc32_be_def)
  then show "crc32 xs = crc32 ys" by (simp add: word_unat_eq_iff)
qed (simp add: crc32_be_def)

lemma crc32_check: "crc32 [49, 50, 51, 52, 53, 54, 55, 56, 57] = 0xCBF43926"
  by code_simp

end
