(* ===== verification/Packet.thy ===== *)
theory Packet
  imports Wire Crc32
begin

text \<open>
  \<^verbatim>\<open>construct_packet\<close>, \<^verbatim>\<open>verify_packet\<close> and
  \<^verbatim>\<open>err_to_human_readable\<close> of \<^verbatim>\<open>pipebomb/utils.py\<close>.
  A cipher is the session key of its \<open>ChaCha20Poly1305\<close> object, or \<open>None\<close> where the code
  has no cipher (using it raises \<open>AttributeError\<close>). The compressor is its level.
\<close>

section \<open>Building a packet\<close>

definition construct_packet :: "crypto \<Rightarrow> bytes \<Rightarrow> bytes option \<Rightarrow> nat \<Rightarrow> nat \<Rightarrow> bytes result" where
  "construct_packet cr data cipher tx_nonce level =
     (if data = [] then Inl RuntimeError
      else let compressed_payload = zstd_compress cr level data;
               use_compression = length compressed_payload < length data;
               flags = (if use_compression then 1 else 0);
               body = (if use_compression then compressed_payload else data);
               checksum = crc32_be data;
               plaintext = [flags] @ body @ checksum @ FOOTER
           in py_bind (to_bytes_little 12 tx_nonce) (\<lambda>nonce.
                case cipher of None \<Rightarrow> Inl AttributeError
                | Some key \<Rightarrow>
                    (case aead_encrypt cr key nonce plaintext of None \<Rightarrow> Inl OverflowError
                     | Some ciphertext \<Rightarrow>
                         py_bind (pack_I (length ciphertext))
                           (\<lambda>size_field. Inr (HEADER @ size_field @ ciphertext)))))"

section \<open>Verifying a packet\<close>

text \<open>
  The Python result is \<open>(2, None)\<close>, \<open>(3, None)\<close> or \<open>(payload, remainder)\<close>: an error code
  is \<open>Inl\<close>, a payload \<open>Inr\<close>. The two helpers are the checks before and after decryption.
\<close>

definition verify_plaintext :: "crypto \<Rightarrow> bytes \<Rightarrow> bytes option \<Rightarrow> (nat + bytes) \<times> bytes option" where
  "verify_plaintext cr plaintext remainder =
     (let n = length plaintext in
      if n < 8 then (Inl 2, None)
      else if drop (n - 2) plaintext \<noteq> FOOTER then (Inl 2, None)
      else let checksum = slice plaintext (n - 6) (n - 2);
               flags = plaintext ! 0;
               body = slice plaintext 1 (n - 6)
           in if body = [] then (Inl 2, None)
              else let is_compressed = flags AND 1 \<noteq> 0
                   in case (if is_compressed then zstd_decompress cr (2 ^ 32 - 1) body else Some body) of
                        None \<Rightarrow> (Inl 2, None)
                      | Some payload \<Rightarrow>
                          if crc32_be payload \<noteq> checksum then (Inl 3, None)
                          else (Inr payload, remainder))"

definition verify_packet ::
  "crypto \<Rightarrow> bytes \<Rightarrow> bytes option \<Rightarrow> nat \<Rightarrow> ((nat + bytes) \<times> bytes option) result" where
  "verify_packet cr packet cipher rx_nonce =
     py_bind (to_bytes_little 12 rx_nonce) (\<lambda>nonce.
       if length packet < 6 then Inr (Inl 2, None)
       else if take 2 packet \<noteq> HEADER then Inr (Inl 2, None)
       else let ciphertext_size = be_val (slice packet 2 6)
            in if length packet < 6 + ciphertext_size then Inr (Inl 2, None)
               else let ciphertext = slice packet 6 (6 + ciphertext_size);
                        rest = drop (6 + ciphertext_size) packet;
                        remainder = (if rest = [] then None else Some rest)
                    in case cipher of None \<Rightarrow> Inl AttributeError
                       | Some key \<Rightarrow>
                           (case aead_decrypt cr key nonce ciphertext of
                              None \<Rightarrow> Inr (Inl 3, None)
                            | Some plaintext \<Rightarrow> Inr (verify_plaintext cr plaintext remainder)))"

text \<open>\<open>err_to_human_readable\<close>, for an \<open>int\<close> and for \<open>bytes\<close>.\<close>

definition err_to_human_readable :: "int \<Rightarrow> pystr" where
  "err_to_human_readable err =
     (if err = 0 then py ''Success''
      else if err = 1 then py ''Unknown error''
      else if err = 2 then py ''Invalid packet''
      else if err = 3 then py ''Invalid crc32 or MAC''
      else if err = 4 then py ''Invalid command''
      else if err = 5 then py ''Key does not exist or the key already exists''
      else if err = 6 then py ''Invalid value''
      else if err = 7 then py ''UUID does not exist''
      else if err = 8 then py ''Empty outbox''
      else py ''Unknown error'')"

definition err_bytes_to_human_readable :: "bytes \<Rightarrow> pystr" where
  "err_bytes_to_human_readable err = err_to_human_readable (int (be_val err))"

section \<open>Lemmas\<close>

lemma to_bytes_little_12: "n < 2 ^ 96 \<Longrightarrow> to_bytes_little 12 n = Inr (le_bytes 12 n)"
  by (simp add: to_bytes_little_def)

text \<open>What the checks after decryption make of the plaintext the builder encrypts.\<close>

lemma verify_plaintext_built:
  assumes "length checksum = 4" and "body \<noteq> []"
  shows "verify_plaintext cr ([flags] @ body @ checksum @ FOOTER) remainder =
     (case (if flags AND 1 \<noteq> 0 then zstd_decompress cr (2 ^ 32 - 1) body else Some body) of
        None \<Rightarrow> (Inl 2, None)
      | Some payload \<Rightarrow>
          if crc32_be payload \<noteq> checksum then (Inl 3, None) else (Inr payload, remainder))"
proof -
  let ?p = "[flags] @ body @ checksum @ FOOTER"
  have n: "length ?p = length body + 7" using assms(1) by (simp add: FOOTER_def)
  have b: "slice ?p 1 (length ?p - 6) = body"
    using n by (simp add: slice_def)
  have c: "slice ?p (length ?p - 6) (length ?p - 2) = checksum"
    using n assms(1) by (simp add: slice_def)
  have f: "drop (length ?p - 2) ?p = FOOTER"
  proof -
    have "?p = ([flags] @ body @ checksum) @ FOOTER"
      and "length ?p - 2 = length ([flags] @ body @ checksum)" by (simp_all add: FOOTER_def)
    then show ?thesis by (metis append_eq_conv_conj)
  qed
  have l: "\<not> length ?p < 8" using n assms(2) by (cases body) auto
  have h: "?p ! 0 = flags" by simp
  show ?thesis
    unfolding verify_plaintext_def Let_def b c f h using l assms(2) by simp
qed

lemma construct_packet_Inr:
  assumes "construct_packet cr data cipher n level = Inr p"
  obtains key c where "cipher = Some key" and "data \<noteq> []" and "n < 256 ^ 12"
    and "length c < 2 ^ 32" and "p = HEADER @ be_bytes 4 (length c) @ c"
proof -
  from assms obtain key c where "cipher = Some key" "data \<noteq> []" "n < 256 ^ 12"
    "length c < 2 ^ 32" "p = HEADER @ be_bytes 4 (length c) @ c"
    by (auto simp: construct_packet_def to_bytes_little_def pack_I_Inr Let_def
        split: if_splits option.splits)
  then show ?thesis by (rule that)
qed

lemma construct_frame_ok: "construct_packet cr data cipher n level = Inr p \<Longrightarrow> frame_ok p"
  by (elim construct_packet_Inr) (simp add: frame_okI)

text \<open>A well-formed frame goes to decryption, with nothing after it.\<close>

lemma verify_packet_frame:
  assumes "length c < 2 ^ 32" and "n < 2 ^ 96"
  shows "verify_packet cr (HEADER @ be_bytes 4 (length c) @ c) (Some key) n =
     (case aead_decrypt cr key (le_bytes 12 n) c of
        None \<Rightarrow> Inr (Inl 3, None)
      | Some plaintext \<Rightarrow> Inr (verify_plaintext cr plaintext None))"
proof -
  let ?p = "HEADER @ be_bytes 4 (length c) @ c"
  have "slice ?p 2 6 = be_bytes 4 (length c)" by (simp add: slice_def HEADER_def)
  then have s: "be_val (slice ?p 2 6) = length c" using assms(1) by (simp add: be_val_u32)
  have "slice ?p 6 (6 + length c) = c" "drop (6 + length c) ?p = []"
    by (simp_all add: slice_def HEADER_def)
  then show ?thesis
    using s assms(2)
    by (simp add: verify_packet_def to_bytes_little_12 Let_def) (simp add: HEADER_def)
qed

text \<open>The packet the builder makes, and the verifier's answer on it.\<close>

lemma construct_verify:
  assumes "aead_ok cr" and "zstd_ok cr" and "length key = 32" and "n < 2 ^ 96"
    and "data \<noteq> []" and "length data < 2 ^ 31 - 7"
  shows "\<exists>p. construct_packet cr data (Some key) n level = Inr p \<and>
             verify_packet cr p (Some key) n = Inr (Inr data, None) \<and>
             length p \<le> length data + 29"
proof -
  let ?z = "zstd_compress cr level data"
  let ?u = "length ?z < length data"
  let ?body = "if ?u then ?z else data"
  let ?pl = "[if ?u then 1 else 0] @ ?body @ crc32_be data @ FOOTER"
  have zd: "zstd_decompress cr (2 ^ 32 - 1) ?z = Some data"
    using assms(2,6) by (intro zstd_okD) auto
  have lb: "length ?body \<le> length data" by simp
  with assms(6) have "length ?pl < 2 ^ 31" by (simp add: FOOTER_def)
  then obtain c where c: "aead_encrypt cr key (le_bytes 12 n) ?pl = Some c"
    "length c = length ?pl + 16" "aead_decrypt cr key (le_bytes 12 n) c = Some ?pl"
    using aead_okE [OF assms(1,3), of "le_bytes 12 n" ?pl] by auto
  have lc: "length c \<le> length data + 23" using c(2) lb by (simp add: FOOTER_def)
  with assms(6) have lc32: "length c < 2 ^ 32" by simp
  let ?p = "HEADER @ be_bytes 4 (length c) @ c"
  have con: "construct_packet cr data (Some key) n level = Inr ?p"
    unfolding construct_packet_def Let_def
    using assms(4,5) c(1) lc32 by (simp add: to_bytes_little_12 pack_I_ok)
  have ne: "?body \<noteq> []" using assms(5) zstd_ok_nonempty [OF assms(2)] by simp
  have "verify_packet cr ?p (Some key) n = Inr (verify_plaintext cr ?pl None)"
    using verify_packet_frame [OF lc32 assms(4)] c(3) by simp
  also have "verify_plaintext cr ?pl None = (Inr data, None)"
    using zd by (subst verify_plaintext_built [OF length_crc32_be ne]) simp
  finally have "verify_packet cr ?p (Some key) n = Inr (Inr data, None)" .
  moreover have "length ?p \<le> length data + 29" using lc by (simp add: HEADER_def)
  ultimately show ?thesis using con by blast
qed

text \<open>The verifier returns only the error codes 2 and 3 and raises nothing while the session
  has a cipher and fewer than \<open>2^96\<close> packets were received.\<close>

lemma verify_plaintext_codes:
  "verify_plaintext cr p r = (Inl e, r') \<Longrightarrow> e \<in> {2, 3} \<and> r' = None"
  by (auto simp: verify_plaintext_def Let_def split: if_splits option.splits)

lemma verify_packet_total:
  "n < 2 ^ 96 \<Longrightarrow> \<exists>v. verify_packet cr p (Some key) n = Inr v"
  by (auto simp: verify_packet_def to_bytes_little_12 Let_def split: option.split)

lemma verify_packet_codes:
  "verify_packet cr p cipher n = Inr (Inl e, r) \<Longrightarrow> e \<in> {2, 3} \<and> r = None"
  by (auto simp: verify_packet_def Let_def dest: verify_plaintext_codes
      split: if_splits option.splits)

text \<open>An accepted payload was decrypted under the expected nonce and its checksum matches.\<close>

lemma verify_plaintext_accept:
  assumes "verify_plaintext cr p r = (Inr d, r')"
  shows "8 \<le> length p \<and> drop (length p - 2) p = FOOTER \<and>
         slice p (length p - 6) (length p - 2) = crc32_be d \<and>
         (if p ! 0 AND 1 \<noteq> 0 then zstd_decompress cr (2 ^ 32 - 1) (slice p 1 (length p - 6)) = Some d
          else d = slice p 1 (length p - 6)) \<and> r' = r"
  using assms by (auto simp: verify_plaintext_def Let_def split: if_splits option.splits)

lemma verify_packet_accept:
  assumes "verify_packet cr p cipher n = Inr (Inr d, r)"
  shows "\<exists>key plaintext. cipher = Some key \<and>
           aead_decrypt cr key (le_bytes 12 n) (slice p 6 (6 + be_val (slice p 2 6))) = Some plaintext \<and>
           slice plaintext (length plaintext - 6) (length plaintext - 2) = crc32_be d"
  using assms
  by (auto simp: verify_packet_def to_bytes_little_def Let_def dest!: verify_plaintext_accept
      split: if_splits option.splits)

text \<open>A packet made under another nonce is rejected with code 3, when the AEAD binds nonces.\<close>

lemma verify_wrong_nonce:
  assumes "aead_nonce_bound cr" and "length key = 32" and "m < 2 ^ 96" and "m \<noteq> n"
    and "construct_packet cr data (Some key) n level = Inr p"
  shows "verify_packet cr p (Some key) m = Inr (Inl 3, None)"
proof -
  obtain c pl where c: "aead_encrypt cr key (le_bytes 12 n) pl = Some c" "length c < 2 ^ 32"
    "p = HEADER @ be_bytes 4 (length c) @ c" "n < 256 ^ 12"
    using assms(5)
    by (auto simp: construct_packet_def to_bytes_little_def pack_I_Inr Let_def
        split: if_splits option.splits)
  have "le_bytes 12 m \<noteq> le_bytes 12 n"
    using le_bytes_inj [of m 12 n] c(4) assms(3,4) by auto
  then have "aead_decrypt cr key (le_bytes 12 m) c = None"
    using assms(1,2) c(1) unfolding aead_nonce_bound_def by (metis length_le_bytes)
  then show ?thesis using verify_packet_frame [OF c(2) assms(3)] c(3) by simp
qed

section \<open>Properties\<close>

text \<open>C17: packet round trip. With a 32-byte session key, every payload of at least one byte and
  less than \<open>2^31 - 7\<close> bytes is packed, and the packet verifies under the same key and counter to
  that payload and nothing left over. The overhead is at most 29 bytes.\<close>

theorem packet_round_trip:
  assumes "aead_ok cr" and "zstd_ok cr" and "length key = 32" and "nonce < 2 ^ 96"
    and "data \<noteq> []" and "length data < 2 ^ 31 - 7"
  shows "\<exists>p. construct_packet cr data (Some key) nonce level = Inr p \<and>
             verify_packet cr p (Some key) nonce = Inr (Inr data, None) \<and>
             length p \<le> length data + 29"
  using assms by (rule construct_verify)

theorem packet_round_trip_witness:
  "\<exists>p. construct_packet toy_crypto [1, 2, 3] (Some (replicate 32 7)) 5 9 = Inr p \<and>
       verify_packet toy_crypto p (Some (replicate 32 7)) 5 = Inr (Inr [1, 2, 3], None) \<and>
       length p \<le> 32"
  using packet_round_trip [OF toy_aead_ok toy_zstd_ok, of "replicate 32 7" 5 "[1, 2, 3]" 9] by simp

text \<open>Replay. A packet built under one counter is rejected with code 3 under any other, so a
  recorded packet is not accepted again.\<close>

theorem replay_rejected:
  assumes "aead_nonce_bound cr" and "length key = 32" and "m < 2 ^ 96" and "m \<noteq> n"
    and "construct_packet cr data (Some key) n level = Inr p"
  shows "verify_packet cr p (Some key) m = Inr (Inl 3, None)"
  using assms by (rule verify_wrong_nonce)

theorem replay_rejected_witness:
  "\<exists>p. construct_packet toy_crypto [1] (Some (replicate 32 7)) 5 9 = Inr p \<and>
       verify_packet toy_crypto p (Some (replicate 32 7)) 6 = Inr (Inl 3, None)"
proof -
  obtain p where p: "construct_packet toy_crypto [1] (Some (replicate 32 7)) 5 9 = Inr p"
    using construct_verify [OF toy_aead_ok toy_zstd_ok, of "replicate 32 7" 5 "[1]" 9] by auto
  then show ?thesis using replay_rejected [OF toy_nonce_bound _ _ _ p, of 6] by simp
qed



text \<open>C37: with a cipher and a counter below \<open>2^96\<close>, \<open>verify_packet\<close> raises nothing on any byte
  string, and its only error codes are 2 and 3.\<close>

theorem verify_packet_never_raises:
  assumes "n < 2 ^ 96"
  shows "\<exists>v r. verify_packet cr p (Some key) n = Inr (v, r) \<and> (\<forall>e. v = Inl e \<longrightarrow> e \<in> {2, 3} \<and> r = None)"
proof -
  obtain v r where v: "verify_packet cr p (Some key) n = Inr (v, r)"
    using verify_packet_total [OF assms] by (metis surj_pair)
  then have "\<forall>e. v = Inl e \<longrightarrow> e \<in> {2, 3} \<and> r = None" by (auto dest: verify_packet_codes)
  with v show ?thesis by blast
qed

theorem verify_packet_never_raises_witness:
  "\<exists>v r. verify_packet toy_crypto [1, 2, 3] (Some [7]) 0 = Inr (v, r) \<and>
     (\<forall>e. v = Inl e \<longrightarrow> e \<in> {2, 3} \<and> r = None)"
  by (rule verify_packet_never_raises) simp

text \<open>A packet cut short anywhere is rejected with code 2, before any decryption.\<close>

theorem truncated_packet_rejected:
  assumes "construct_packet cr data (Some key) n level = Inr p" and "strict_prefix q p" and "m < 2 ^ 96"
  shows "verify_packet cr q (Some key) m = Inr (Inl 2, None)"
proof -
  have f: "frame_ok p" using assms(1) by (rule construct_frame_ok)
  obtain k where k: "k < length p" "q = take k p" using prefix_strict_take [OF assms(2)] by blast
  show ?thesis
  proof (cases "k < 6")
    case True
    then show ?thesis using k assms(3) by (simp add: verify_packet_def to_bytes_little_12)
  next
    case False
    then have "take 2 q = take 2 p" "slice q 2 6 = slice p 2 6" "6 \<le> length q"
      using k by (simp_all add: slice_def min_def drop_take)
    then show ?thesis
      using f k assms(3) by (simp add: verify_packet_def to_bytes_little_12 frame_ok_def Let_def)
  qed
qed

theorem truncated_packet_rejected_witness:
  "\<exists>p. construct_packet toy_crypto [1] (Some (replicate 32 7)) 5 9 = Inr p \<and>
       verify_packet toy_crypto (take 7 p) (Some (replicate 32 7)) 5 = Inr (Inl 2, None)"
proof -
  obtain p where p: "construct_packet toy_crypto [1] (Some (replicate 32 7)) 5 9 = Inr p"
    using construct_verify [OF toy_aead_ok toy_zstd_ok, of "replicate 32 7" 5 "[1]" 9] by auto
  then obtain c where "p = HEADER @ be_bytes 4 (length c) @ c" "length c \<ge> 16"
    by (auto simp: construct_packet_def toy_crypto_def toy_encrypt_def to_bytes_little_def pack_I_Inr
        Let_def split: if_splits)
  then have "7 < length p" by (simp add: HEADER_def)
  then have "strict_prefix (take 7 p) p"
    by (metis append_take_drop_id length_take min.absorb4 nat_less_le prefixI strict_prefix_def)
  then show ?thesis using p truncated_packet_rejected [OF p] by simp
qed

end
