(* ===== verification/Impl.thy ===== *)
theory Impl
  imports Wire
begin

text \<open>
  \<^verbatim>\<open>pipebomb/impl.py\<close>: the dictionary the server keeps its tables in, and the
  socket factories.

  A \<open>FactoryDict\<close> is a Python \<open>dict\<close>: an insertion-ordered association list in which
  assignment to a present key keeps its place and a new key goes to the end. Its \<open>db_id\<close>
  attribute is only ever written, and is left out. \<open>dict_protocol\<close> is the interface
  \<open>DictFactory\<close> asks of a storage backend, with the laws the server relies on;
  \<open>FactoryDict\<close> is its implementation in the repository.
\<close>

named_theorems dict_simps \<open>reads after writes on dictionaries\<close>

section \<open>FactoryDict\<close>

type_synonym ('k, 'v) dict = "('k \<times> 'v) list"

definition dict_factory :: "('k, 'v) dict" where
  "dict_factory = []"

definition dict_getitem :: "('k, 'v) dict \<Rightarrow> 'k \<Rightarrow> 'v result" where
  "dict_getitem d k = (case map_of d k of None \<Rightarrow> Inl KeyError | Some v \<Rightarrow> Inr v)"

definition dict_setitem :: "('k, 'v) dict \<Rightarrow> 'k \<Rightarrow> 'v \<Rightarrow> ('k, 'v) dict" where
  "dict_setitem d k v = AList.update k v d"

definition dict_contains :: "('k, 'v) dict \<Rightarrow> 'k \<Rightarrow> bool" where
  "dict_contains d k \<longleftrightarrow> k \<in> fst ` set d"

definition dict_delitem :: "('k, 'v) dict \<Rightarrow> 'k \<Rightarrow> ('k, 'v) dict result" where
  "dict_delitem d k = (if dict_contains d k then Inr (AList.delete k d) else Inl KeyError)"

definition dict_clear :: "('k, 'v) dict \<Rightarrow> ('k, 'v) dict" where
  "dict_clear d = []"

definition dict_keys :: "('k, 'v) dict \<Rightarrow> 'k list" where
  "dict_keys d = map fst d"

definition dict_values :: "('k, 'v) dict \<Rightarrow> 'v list" where
  "dict_values d = map snd d"

text \<open>The invariant of a \<open>dict\<close>: no key occurs twice.\<close>

definition dict_ok :: "('k, 'v) dict \<Rightarrow> bool" where
  "dict_ok d \<longleftrightarrow> distinct (map fst d)"

lemma dict_contains_map_of: "dict_contains d k \<longleftrightarrow> map_of d k \<noteq> None"
  by (simp add: dict_contains_def map_of_eq_None_iff)

lemma dict_getitem_Inr [dict_simps]: "dict_getitem d k = Inr v \<longleftrightarrow> map_of d k = Some v"
  by (simp add: dict_getitem_def split: option.splits)

lemma map_of_setitem [dict_simps]: "map_of (dict_setitem d k v) = (map_of d)(k \<mapsto> v)"
  by (simp add: dict_setitem_def update_conv')

lemma map_of_delete [dict_simps]: "map_of (AList.delete k d) = (map_of d)(k := None)"
  by (simp add: delete_conv')

lemma dict_ok_setitem [intro, simp]: "dict_ok d \<Longrightarrow> dict_ok (dict_setitem d k v)"
  by (simp add: dict_ok_def dict_setitem_def distinct_update)

lemma dict_ok_delete [intro, simp]: "dict_ok d \<Longrightarrow> dict_ok (AList.delete k d)"
  by (simp add: dict_ok_def distinct_delete)

lemma dict_ok_Nil [intro, simp]: "dict_ok []"
  by (simp add: dict_ok_def)

lemma setitem_new: "\<not> dict_contains d k \<Longrightarrow> dict_setitem d k v = d @ [(k, v)]"
  unfolding dict_contains_def dict_setitem_def by (induction d) auto

lemma setitem_twice [simp]: "dict_setitem (dict_setitem d k v) k w = dict_setitem d k w"
  by (simp add: dict_setitem_def)

lemma length_setitem:
  "length (dict_setitem d k v) = (if dict_contains d k then length d else Suc (length d))"
  unfolding dict_contains_def dict_setitem_def by (induction d) auto

lemma length_delete:
  "dict_ok d \<Longrightarrow> dict_contains d k \<Longrightarrow> length d = Suc (length (AList.delete k d))"
proof (induction d)
  case (Cons p d)
  show ?case
  proof (cases "fst p = k")
    case True
    with Cons.prems have "k \<notin> fst ` set d" by (auto simp: dict_ok_def)
    then have "AList.delete k d = d" by (rule delete_id)
    with True show ?thesis by simp
  next
    case False
    with Cons show ?thesis
      by (cases p) (auto simp: dict_ok_def dict_contains_def)
  qed
qed (simp add: dict_contains_def)

lemma dict_ok_mem: "dict_ok d \<Longrightarrow> (k, v) \<in> set d \<longleftrightarrow> map_of d k = Some v"
  by (simp add: dict_ok_def)

lemma set_setitem:
  "dict_ok d \<Longrightarrow> set (dict_setitem d k v) = insert (k, v) {p \<in> set d. fst p \<noteq> k}"
  using dict_ok_mem [OF dict_ok_setitem, of d] dict_ok_mem [of d]
  by (auto simp: map_of_setitem split: if_splits)

subsection \<open>The storage protocol\<close>

locale dict_protocol =
  fixes getitem :: "'d \<Rightarrow> 'k \<Rightarrow> 'v result"
    and setitem :: "'d \<Rightarrow> 'k \<Rightarrow> 'v \<Rightarrow> 'd"
    and delitem :: "'d \<Rightarrow> 'k \<Rightarrow> 'd result"
    and contains :: "'d \<Rightarrow> 'k \<Rightarrow> bool"
    and len :: "'d \<Rightarrow> nat"
    and clear :: "'d \<Rightarrow> 'd"
    and ok :: "'d \<Rightarrow> bool"
  assumes ok_set: "ok d \<Longrightarrow> ok (setitem d k v)"
    and ok_del: "ok d \<Longrightarrow> delitem d k = Inr d' \<Longrightarrow> ok d'"
    and ok_clear: "ok (clear d)"
    and get_contains: "getitem d k = Inl e \<longleftrightarrow> \<not> contains d k \<and> e = KeyError"
    and get_set: "getitem (setitem d k v) j = (if j = k then Inr v else getitem d j)"
    and del_present: "contains d k \<Longrightarrow> \<exists>d'. delitem d k = Inr d'"
    and del_missing: "\<not> contains d k \<Longrightarrow> delitem d k = Inl KeyError"
    and get_del: "delitem d k = Inr d' \<Longrightarrow> getitem d' j = (if j = k then Inl KeyError else getitem d j)"
    and len_set: "ok d \<Longrightarrow> len (setitem d k v) = (if contains d k then len d else Suc (len d))"
    and len_del: "ok d \<Longrightarrow> delitem d k = Inr d' \<Longrightarrow> len d = Suc (len d')"
    and len_clear: "len (clear d) = 0"
    and contains_clear: "\<not> contains (clear d) k"
begin

lemma contains_set: "contains (setitem d k v) j \<longleftrightarrow> j = k \<or> contains d j"
  using get_contains [of "setitem d k v" j KeyError] get_contains [of d j KeyError]
  by (auto simp: get_set split: if_splits)

lemma contains_del: "delitem d k = Inr d' \<Longrightarrow> contains d' j \<longleftrightarrow> j \<noteq> k \<and> contains d j"
  using get_contains [of d' j KeyError] get_contains [of d j KeyError] get_del [of d k d' j]
  by (auto split: if_splits)

text \<open>A sequence of assignments: the last one to a key wins.\<close>

lemma get_after_sets:
  "getitem (foldl (\<lambda>d p. setitem d (fst p) (snd p)) d kvs) k =
     (case map_of (rev kvs) k of Some v \<Rightarrow> Inr v | None \<Rightarrow> getitem d k)"
proof (induction kvs rule: rev_induct)
  case (snoc p kvs)
  then show ?case by (cases p) (auto simp: get_set)
qed simp

text \<open>Deleting what was just stored leaves the other keys as they were.\<close>

lemma get_set_del:
  "\<exists>d'. delitem (setitem d k v) k = Inr d' \<and>
     (\<forall>j. getitem d' j = (if j = k then Inl KeyError else getitem d j))"
proof -
  obtain d' where d': "delitem (setitem d k v) k = Inr d'"
    using del_present contains_set by blast
  then show ?thesis using get_del [OF d'] by (auto simp: get_set)
qed

end

interpretation fd: dict_protocol dict_getitem dict_setitem dict_delitem dict_contains length
  dict_clear dict_ok
proof unfold_locales
  fix d :: "('a, 'b) dict" and k d'
  assume "dict_ok d" "dict_delitem d k = Inr d'"
  then show "length d = Suc (length d')"
    using length_delete [of d k] by (simp add: dict_delitem_def split: if_splits)
qed (auto simp: dict_delitem_def dict_getitem_def dict_contains_map_of dict_clear_def
    length_setitem dict_simps split: if_splits option.splits)

section \<open>Addresses\<close>

datatype SocketAddress = HostPort pystr nat | AddrStr pystr

definition parse_address :: "SocketAddress \<Rightarrow> pystr" where
  "parse_address address =
     (case address of HostPort host port \<Rightarrow> host @ py '':'' @ decimal port
      | AddrStr path \<Rightarrow> path)"

text \<open>\<open>TcpSocket.factory_address\<close> of the socket's own name, \<open>UnixSocket.factory_address\<close> and
  the default of \<open>FactorySocket\<close>.\<close>

datatype FactorySocket = UnknownSocket | TcpSocket pystr nat | UnixSocket pystr

fun factory_address :: "FactorySocket \<Rightarrow> pystr" where
  "factory_address UnknownSocket = py ''Unknown''"
| "factory_address (TcpSocket addr port) = addr @ py '':'' @ decimal port"
| "factory_address (UnixSocket path) = path"

lemma tcp_factory_address: "factory_address (TcpSocket a p) = parse_address (HostPort a p)"
  by (simp add: parse_address_def)

section \<open>Socket factories\<close>

text \<open>What a factory does to the socket it makes, in order.\<close>

datatype sock_setup = ReuseAddr | SetBlocking bool | NoDelay

record TcpSocketFactory =
  tf_nodelay :: bool
  tf_reuseaddr :: bool
  tf_name :: pystr

definition override :: "bool option \<Rightarrow> bool \<Rightarrow> bool" where
  "override arg dflt = (case arg of Some b \<Rightarrow> b | None \<Rightarrow> dflt)"

definition tcp_call :: "TcpSocketFactory \<Rightarrow> bool option \<Rightarrow> bool option \<Rightarrow> sock_setup list" where
  "tcp_call f nodelay reuseaddr =
     (if override reuseaddr (tf_reuseaddr f) then [ReuseAddr] else []) @
     [SetBlocking False] @
     (if override nodelay (tf_nodelay f) then [NoDelay] else [])"

definition tcp_factory :: TcpSocketFactory where
  "tcp_factory = \<lparr>tf_nodelay = False, tf_reuseaddr = False, tf_name = py ''tcp_factory''\<rparr>"

definition tcp_server_factory :: TcpSocketFactory where
  "tcp_server_factory = \<lparr>tf_nodelay = False, tf_reuseaddr = True, tf_name = py ''tcp_server_factory''\<rparr>"

text \<open>\<open>resolve_connect_address\<close> of TCP: \<open>addrinfos\<close> is what \<open>getaddrinfo\<close> returned, reduced
  to the addresses.\<close>

definition tcp_resolve_connect_address :: "SocketAddress list \<Rightarrow> SocketAddress result" where
  "tcp_resolve_connect_address addrinfos =
     (case addrinfos of [] \<Rightarrow> Inl RuntimeError | a # _ \<Rightarrow> Inr a)"

definition tcp_resolve_bind_address :: "pystr \<Rightarrow> nat \<Rightarrow> SocketAddress" where
  "tcp_resolve_bind_address address port = HostPort address port"

record UnixSocketFactory =
  uf_path :: pystr
  uf_name :: pystr

definition DEFAULT_UNIX_SOCKET_PATH :: pystr where
  "DEFAULT_UNIX_SOCKET_PATH = py ''/tmp/pipebomb.sock''"

definition unix_init :: "bool \<Rightarrow> pystr \<Rightarrow> pystr \<Rightarrow> UnixSocketFactory result" where
  "unix_init posix path name =
     (if \<not> posix then Inl NotImplementedError else Inr \<lparr>uf_path = path, uf_name = name\<rparr>)"

text \<open>The socket made, by its path, and what is done to it.\<close>

definition unix_call :: "bool \<Rightarrow> UnixSocketFactory \<Rightarrow> pystr option \<Rightarrow> (pystr \<times> sock_setup list) result" where
  "unix_call posix f path =
     (if \<not> posix then Inl NotImplementedError
      else Inr (case path of Some p \<Rightarrow> p | None \<Rightarrow> uf_path f, [SetBlocking False]))"

definition resolve_path :: "UnixSocketFactory \<Rightarrow> pystr \<Rightarrow> pystr" where
  "resolve_path f address = (if address \<noteq> py ''localhost'' then address else uf_path f)"

definition unix_resolve_connect_address :: "UnixSocketFactory \<Rightarrow> pystr \<Rightarrow> nat \<Rightarrow> SocketAddress" where
  "unix_resolve_connect_address f address port = AddrStr (resolve_path f address)"

definition unix_resolve_bind_address :: "UnixSocketFactory \<Rightarrow> pystr \<Rightarrow> nat \<Rightarrow> SocketAddress" where
  "unix_resolve_bind_address f address port = AddrStr (resolve_path f address)"

text \<open>\<open>prepare_bind\<close> of Unix sockets on the set of existing paths: a stale socket file is
  removed, and its absence is not an error.\<close>

definition unix_prepare_bind :: "pystr set \<Rightarrow> SocketAddress \<Rightarrow> pystr set" where
  "unix_prepare_bind files bind_address = files - {parse_address bind_address}"

definition tcp_prepare_bind :: "pystr set \<Rightarrow> SocketAddress \<Rightarrow> pystr set" where
  "tcp_prepare_bind files bind_address = files"

text \<open>The module's \<open>unix_factory\<close>, called: off POSIX it is a function that raises.\<close>

definition unix_factory :: "bool \<Rightarrow> pystr option \<Rightarrow> (pystr \<times> sock_setup list) result" where
  "unix_factory posix path =
     (if \<not> posix then Inl NotImplementedError
      else case unix_init posix DEFAULT_UNIX_SOCKET_PATH (py ''unix_factory'') of
        Inl e \<Rightarrow> Inl e | Inr f \<Rightarrow> unix_call posix f path)"

text \<open>Client and server given the same address meet at the same socket path, and the path is
  free when the server binds it.\<close>

lemma unix_rendezvous:
  "unix_resolve_connect_address f a p = unix_resolve_bind_address f a q"
  "parse_address (unix_resolve_bind_address f a q) \<notin>
     unix_prepare_bind files (unix_resolve_bind_address f a q)"
  by (simp_all add: unix_resolve_connect_address_def unix_resolve_bind_address_def
      unix_prepare_bind_def)

lemma unix_factory_default: "unix_factory True None = Inr (DEFAULT_UNIX_SOCKET_PATH, [SetBlocking False])"
  by (simp add: unix_factory_def unix_init_def unix_call_def)

end
