(* ===== verification/Server.thy ===== *)
theory Server
  imports Packet Impl
begin

text \<open>
  The state of \<^verbatim>\<open>pipebomb/server.py\<close>: the \<open>Client\<close> and \<open>Server\<close> objects, the actions the
  code performs on them, and the server's direct API (the dictionary access, the client, key
  and database operations, \<open>start\<close> and \<open>stop\<close>).

  An action maps the server to an outcome, the effects on sockets and tasks in the order they
  happen, and the new server. The outcome is a returned value, a raised exception (the state
  keeps what was changed before the raise) or \<open>Block\<close>: the coroutine waits for something no
  step of its own can provide, a lock that is held or an item of an empty queue.
  An action runs to its end without another coroutine in between: the awaits inside it are
  lock acquisitions, which either succeed at once or block, and sends.
\<close>

named_theorems act_simps \<open>evaluation of actions\<close>

section \<open>Objects\<close>

datatype sock = Sock nat | Placeholder
  \<comment> \<open>an accepted connection, or the unconnected \<open>FactorySocket()\<close>\<close>

datatype task = AcceptTask nat | HandlerTask sock pystr

datatype effect =
    SendAll sock bytes
  | CloseSock sock
  | PrepareBind SocketAddress
  | Bind SocketAddress
  | Listen
  | CloseListener
  | CancelTask task

record client =
  cl_socket :: sock
  cl_address :: SocketAddress
  cl_addresses_owned :: "pystr list"
  cl_inbox :: "Request list"
  cl_outbox :: "(bytes, Response) dict"
  cl_uuid :: pystr
  cl_cipher :: "bytes option"
  cl_rx_nonce :: nat
  cl_tx_nonce :: nat
  cl_active :: bool

record NewClientTicket =
  tk_uuid :: pystr
  tk_addresses_owned :: "pystr list"
  tk_inbox :: "Request list"
  tk_outbox :: "(bytes, Response) dict"

record server =
  sv_address :: pystr
  sv_port :: nat
  sv_password :: bytes
  sv_keep_dead_sessions :: bool
  sv_multithreaded :: bool
  sv_tasks :: "task list"
  sv_db :: "(bytes, bytes) dict"
  sv_db_locked :: bool
  sv_client_db :: "(pystr, client) dict"
  sv_address_book :: "(pystr, pystr) dict"

definition ERR_DISPATCH :: "nat \<Rightarrow> bytes result" where
  "ERR_DISPATCH n = (if n \<in> {2, 3, 4, 5, 6, 7} then Inr [0, 69, 82, 82, of_nat n] else Inl KeyError)"

text \<open>\<open>Server.__init__\<close>; \<open>gsyncio\<close> is the answer of \<open>_init_gsyncio\<close>.\<close>

definition new_server :: "pystr \<Rightarrow> nat \<Rightarrow> bytes \<Rightarrow> bool \<Rightarrow> bool \<Rightarrow> bool \<Rightarrow> server" where
  "new_server address port password keep_dead_sessions multithreaded gsyncio =
     \<lparr>sv_address = address, sv_port = port, sv_password = password,
      sv_keep_dead_sessions = keep_dead_sessions,
      sv_multithreaded = (if \<not> multithreaded then multithreaded
                          else if \<not> gsyncio then False else multithreaded),
      sv_tasks = [], sv_db = dict_factory, sv_db_locked = False,
      sv_client_db = dict_factory, sv_address_book = dict_factory\<rparr>"

section \<open>Actions\<close>

datatype 'a outcome = Return 'a | Raise py_exc | Block

type_synonym 'a action = "server \<Rightarrow> 'a outcome \<times> effect list \<times> server"

definition ret :: "'a \<Rightarrow> 'a action" where
  "ret x = (\<lambda>s. (Return x, [], s))"

definition throw :: "py_exc \<Rightarrow> 'a action" where
  "throw e = (\<lambda>s. (Raise e, [], s))"

definition and_then :: "'a action \<Rightarrow> ('a \<Rightarrow> 'b action) \<Rightarrow> 'b action" where
  "and_then m f = (\<lambda>s. case m s of
       (Return x, es, s') \<Rightarrow> (case f x s' of (r, es', s'') \<Rightarrow> (r, es @ es', s''))
     | (Raise e, es, s') \<Rightarrow> (Raise e, es, s')
     | (Block, es, s') \<Rightarrow> (Block, es, s'))"

definition gets :: "(server \<Rightarrow> 'a) \<Rightarrow> 'a action" where
  "gets f = (\<lambda>s. (Return (f s), [], s))"

definition modify :: "(server \<Rightarrow> server) \<Rightarrow> unit action" where
  "modify f = (\<lambda>s. (Return (), [], f s))"

definition emit :: "effect \<Rightarrow> unit action" where
  "emit e = (\<lambda>s. (Return (), [e], s))"

definition lift :: "'a result \<Rightarrow> 'a action" where
  "lift r = (case r of Inl e \<Rightarrow> throw e | Inr x \<Rightarrow> ret x)"

definition check :: "bool \<Rightarrow> py_exc \<Rightarrow> unit action" where
  "check ok e = (if ok then ret () else throw e)"

definition block :: "'a action" where
  "block = (\<lambda>s. (Block, [], s))"

fun for_each :: "('a \<Rightarrow> unit action) \<Rightarrow> 'a list \<Rightarrow> unit action" where
  "for_each f [] = ret ()"
| "for_each f (x # xs) = and_then (f x) (\<lambda>_. for_each f xs)"

text \<open>\<open>await self.db_lock.acquire()\<close>, \<open>release()\<close> and \<open>async with self.db_lock\<close>, which releases
  on an exception too. Nothing holds the lock between two actions unless an action left it
  held, so a held lock is never released by anybody.\<close>

definition acquire_db :: "unit action" where
  "acquire_db = (\<lambda>s. if sv_db_locked s then (Block, [], s) else (Return (), [], s\<lparr>sv_db_locked := True\<rparr>))"

definition release_db :: "unit action" where
  "release_db = modify (\<lambda>s. s\<lparr>sv_db_locked := False\<rparr>)"

definition with_db_lock :: "'a action \<Rightarrow> 'a action" where
  "with_db_lock m =
     and_then acquire_db (\<lambda>_ s. case m s of (r, es, s') \<Rightarrow> (r, es, s'\<lparr>sv_db_locked := False\<rparr>))"

lemma act_eval [act_simps]:
  "ret x s = (Return x, [], s)"
  "throw e s = (Raise e, [], s)"
  "gets f s = (Return (f s), [], s)"
  "modify g s = (Return (), [], g s)"
  "emit ef s = (Return (), [ef], s)"
  "block s = (Block, [], s)"
  "lift (Inl e) = throw e"
  "lift (Inr x) = ret x"
  "check True e = ret ()"
  "check False e = throw e"
  by (simp_all add: ret_def throw_def gets_def modify_def emit_def block_def lift_def check_def)

lemma and_then_eval [act_simps]:
  "and_then (ret x) f = f x"
  "and_then (throw e) f = throw e"
  "and_then (gets g) f s = f (g s) s"
  "and_then (modify h) k s = k () (h s)"
  "and_then block f = block"
  by (auto simp: and_then_def ret_def throw_def gets_def modify_def block_def fun_eq_iff)

lemma and_then_assoc [act_simps]: "and_then (and_then m f) g = and_then m (\<lambda>x. and_then (f x) g)"
  by (auto simp: and_then_def fun_eq_iff split: prod.split outcome.split)

lemma and_then_emit [act_simps]:
  "and_then (emit ef) f s = (case f () s of (r, es, s') \<Rightarrow> (r, ef # es, s'))"
  by (simp add: and_then_def emit_def)

lemma and_then_return:
  "m s = (Return x, es, s') \<Longrightarrow>
   and_then m k s = (case k x s' of (r, es', s'') \<Rightarrow> (r, es @ es', s''))"
  by (simp add: and_then_def)

lemma with_db_lock_free [act_simps]:
  "\<not> sv_db_locked s \<Longrightarrow> with_db_lock m s =
     (case m (s\<lparr>sv_db_locked := True\<rparr>) of (r, es, s') \<Rightarrow> (r, es, s'\<lparr>sv_db_locked := False\<rparr>))"
  by (simp add: with_db_lock_def and_then_def acquire_db_def split: prod.split)

lemma with_db_lock_held [act_simps]: "sv_db_locked s \<Longrightarrow> with_db_lock m s = (Block, [], s)"
  by (simp add: with_db_lock_def and_then_def acquire_db_def)

text \<open>\<open>self.client_db[uuid]\<close> and assignments to the attributes of that object.\<close>

definition get_session :: "pystr \<Rightarrow> client action" where
  "get_session u = (\<lambda>s. lift (dict_getitem (sv_client_db s) u) s)"

definition put_session :: "pystr \<Rightarrow> client \<Rightarrow> unit action" where
  "put_session u c = modify (\<lambda>s. s\<lparr>sv_client_db := dict_setitem (sv_client_db s) u c\<rparr>)"

definition set_book :: "pystr \<Rightarrow> pystr \<Rightarrow> unit action" where
  "set_book key u = modify (\<lambda>s. s\<lparr>sv_address_book := dict_setitem (sv_address_book s) key u\<rparr>)"

text \<open>\<open>del self.address_book[key]\<close>, also \<open>self.address_book.pop(key)\<close>.\<close>

definition del_book :: "pystr \<Rightarrow> unit action" where
  "del_book key = and_then (gets sv_address_book) (\<lambda>b.
     and_then (lift (dict_delitem b key)) (\<lambda>b'. modify (\<lambda>s. s\<lparr>sv_address_book := b'\<rparr>)))"

end
