(* ===== verification/ServerApi.thy ===== *)
theory ServerApi
  imports Server
begin

text \<open>
  The direct API of \<^verbatim>\<open>Server\<close>: \<open>start\<close> and \<open>stop\<close>, the synchronous dictionary access
  (\<open>server[key]\<close> and friends), the asynchronous database operations, the client sessions and
  the address book.
\<close>

section \<open>Start and stop\<close>

text \<open>\<open>resolve\<close> is the socket factory's \<open>resolve_bind_address\<close>.\<close>

definition server_start :: "(pystr \<Rightarrow> nat \<Rightarrow> SocketAddress) \<Rightarrow> nat \<Rightarrow> unit action" where
  "server_start resolve client_accepters =
     and_then (gets (\<lambda>s. resolve (sv_address s) (sv_port s))) (\<lambda>bind_address.
     and_then (emit (PrepareBind bind_address)) (\<lambda>_.
     and_then (emit (Bind bind_address)) (\<lambda>_.
     and_then (emit Listen) (\<lambda>_.
       modify (\<lambda>s. s\<lparr>sv_tasks := sv_tasks s @ map AcceptTask [0..<client_accepters]\<rparr>)))))"

definition server_stop :: "unit action" where
  "server_stop =
     and_then (emit CloseListener) (\<lambda>_.
     and_then (modify (\<lambda>s. s\<lparr>sv_client_db := dict_clear (sv_client_db s)\<rparr>)) (\<lambda>_.
     and_then (modify (\<lambda>s. s\<lparr>sv_address_book := dict_clear (sv_address_book s)\<rparr>)) (\<lambda>_.
     and_then (modify (\<lambda>s. s\<lparr>sv_db := dict_clear (sv_db s)\<rparr>)) (\<lambda>_.
     and_then (gets sv_tasks) (for_each (\<lambda>t. emit (CancelTask t)))))))"

section \<open>Dictionary access\<close>

text \<open>
  \<open>__getitem__\<close>, \<open>__setitem__\<close>, \<open>__delitem__\<close>, \<open>__contains__\<close>, \<open>__len__\<close>, \<open>keys\<close> and
  \<open>values\<close>: the lock is acquired with \<open>run_until_complete\<close> and released by a statement after
  the access, so an exception in between skips the release.
\<close>

definition server_getitem :: "bytes \<Rightarrow> bytes action" where
  "server_getitem key =
     and_then acquire_db (\<lambda>_.
     and_then (gets sv_db) (\<lambda>db.
     and_then (lift (dict_getitem db key)) (\<lambda>v.
     and_then release_db (\<lambda>_. ret v))))"

definition server_setitem :: "bytes \<Rightarrow> bytes \<Rightarrow> unit action" where
  "server_setitem key v =
     and_then acquire_db (\<lambda>_.
     and_then (modify (\<lambda>s. s\<lparr>sv_db := dict_setitem (sv_db s) key v\<rparr>)) (\<lambda>_. release_db))"

definition server_delitem :: "bytes \<Rightarrow> unit action" where
  "server_delitem key =
     and_then acquire_db (\<lambda>_.
     and_then (gets sv_db) (\<lambda>db.
     and_then (lift (dict_delitem db key)) (\<lambda>db'.
     and_then (modify (\<lambda>s. s\<lparr>sv_db := db'\<rparr>)) (\<lambda>_. release_db))))"

definition server_contains :: "bytes \<Rightarrow> bool action" where
  "server_contains key =
     and_then acquire_db (\<lambda>_.
     and_then (gets (\<lambda>s. dict_contains (sv_db s) key)) (\<lambda>r.
     and_then release_db (\<lambda>_. ret r)))"

definition server_len :: "nat action" where
  "server_len =
     and_then acquire_db (\<lambda>_.
     and_then (gets (\<lambda>s. length (sv_db s))) (\<lambda>r. and_then release_db (\<lambda>_. ret r)))"

definition server_keys :: "bytes list action" where
  "server_keys =
     and_then acquire_db (\<lambda>_.
     and_then (gets (\<lambda>s. dict_keys (sv_db s))) (\<lambda>r. and_then release_db (\<lambda>_. ret r)))"

definition server_values :: "bytes list action" where
  "server_values =
     and_then acquire_db (\<lambda>_.
     and_then (gets (\<lambda>s. dict_values (sv_db s))) (\<lambda>r. and_then release_db (\<lambda>_. ret r)))"

section \<open>Asynchronous database operations\<close>

definition set_db :: "bytes \<Rightarrow> bytes \<Rightarrow> unit action" where
  "set_db key v = with_db_lock (modify (\<lambda>s. s\<lparr>sv_db := dict_setitem (sv_db s) key v\<rparr>))"

definition get_db :: "bytes \<Rightarrow> bytes action" where
  "get_db key = with_db_lock (\<lambda>s. lift (dict_getitem (sv_db s) key) s)"

definition remove_db :: "bytes \<Rightarrow> unit action" where
  "remove_db key =
     with_db_lock (and_then (gets sv_db) (\<lambda>db.
       and_then (lift (dict_delitem db key)) (\<lambda>db'. modify (\<lambda>s. s\<lparr>sv_db := db'\<rparr>))))"

section \<open>Sessions\<close>

definition uuid_check :: "pystr \<Rightarrow> unit action" where
  "uuid_check u = check (length u = 36) ValueError"

definition add_client :: "NewClientTicket \<Rightarrow> unit action" where
  "add_client ticket =
     and_then (uuid_check (tk_uuid ticket)) (\<lambda>_.
     and_then (gets sv_client_db) (\<lambda>cdb.
     and_then (check (\<not> dict_contains cdb (tk_uuid ticket)) ValueError) (\<lambda>_.
     and_then (for_each (\<lambda>(response_uuid, response).
          check (response_uuid = rs_response_uuid response) ValueError) (tk_outbox ticket)) (\<lambda>_.
       put_session (tk_uuid ticket)
         \<lparr>cl_socket = Placeholder, cl_address = HostPort (py ''unknown'') 0,
          cl_addresses_owned = tk_addresses_owned ticket, cl_inbox = tk_inbox ticket,
          cl_outbox = tk_outbox ticket, cl_uuid = tk_uuid ticket, cl_cipher = None,
          cl_rx_nonce = 0, cl_tx_nonce = 0, cl_active = False\<rparr>))))"

text \<open>\<open>replace\<close> copies the session with another cipher, socket and counters.\<close>

definition get_client :: "pystr \<Rightarrow> client action" where
  "get_client u =
     and_then (uuid_check u) (\<lambda>_.
     and_then (gets sv_client_db) (\<lambda>cdb.
     and_then (check (dict_contains cdb u) ValueError) (\<lambda>_.
     and_then (get_session u) (\<lambda>c.
       ret (c\<lparr>cl_cipher := None, cl_socket := Placeholder, cl_tx_nonce := 0, cl_rx_nonce := 0\<rparr>)))))"

definition check_client :: "pystr \<Rightarrow> bool action" where
  "check_client u =
     and_then (uuid_check u) (\<lambda>_. gets (\<lambda>s. dict_contains (sv_client_db s) u))"

definition remove_client :: "pystr \<Rightarrow> unit action" where
  "remove_client u =
     and_then (uuid_check u) (\<lambda>_.
     and_then (gets sv_client_db) (\<lambda>cdb.
     and_then (check (dict_contains cdb u) ValueError) (\<lambda>_.
     and_then (get_session u) (\<lambda>c.
     and_then (emit (CloseSock (cl_socket c))) (\<lambda>_.
     and_then (for_each del_book (cl_addresses_owned c)) (\<lambda>_.
     and_then (gets sv_client_db) (\<lambda>cdb'.
     and_then (lift (dict_delitem cdb' u)) (\<lambda>cdb''.
       modify (\<lambda>s. s\<lparr>sv_client_db := cdb''\<rparr>)))))))))"

definition apply_client_state :: "NewClientTicket \<Rightarrow> bool \<Rightarrow> unit action" where
  "apply_client_state ticket strict =
     (let u = tk_uuid ticket in
      and_then (uuid_check u) (\<lambda>_.
      and_then (gets sv_client_db) (\<lambda>cdb.
      and_then (check (dict_contains cdb u) ValueError) (\<lambda>_.
      and_then (get_session u) (\<lambda>c.
      and_then (put_session u (c\<lparr>cl_inbox := tk_inbox ticket, cl_outbox := tk_outbox ticket\<rparr>)) (\<lambda>_.
      and_then (for_each (\<lambda>key.
          and_then (gets (\<lambda>s. dict_contains (sv_address_book s) key)) (\<lambda>known.
            if known then ret () else if strict then throw ValueError else set_book key u))
          (tk_addresses_owned ticket)) (\<lambda>_.
      and_then (get_session u) (\<lambda>c.
        put_session u (c\<lparr>cl_addresses_owned := tk_addresses_owned ticket\<rparr>)))))))))"

section \<open>The address book\<close>

definition add_key :: "pystr \<Rightarrow> pystr \<Rightarrow> unit action" where
  "add_key key u =
     and_then (uuid_check u) (\<lambda>_.
     and_then (gets (\<lambda>s. dict_contains (sv_address_book s) key)) (\<lambda>known.
     and_then (check (\<not> known) ValueError) (\<lambda>_.
     and_then (set_book key u) (\<lambda>_.
     and_then (gets (\<lambda>s. dict_getitem (sv_client_db s) u)) (\<lambda>r.
       case r of Inl e \<Rightarrow> throw ValueError
       | Inr c \<Rightarrow> put_session u (c\<lparr>cl_addresses_owned := cl_addresses_owned c @ [key]\<rparr>))))))"

definition get_key :: "pystr \<Rightarrow> pystr action" where
  "get_key key =
     and_then (gets sv_address_book) (\<lambda>b.
     and_then (check (dict_contains b key) ValueError) (\<lambda>_. lift (dict_getitem b key)))"

definition check_key :: "pystr \<Rightarrow> pystr \<Rightarrow> bool action" where
  "check_key key u =
     and_then (uuid_check u) (\<lambda>_.
       gets (\<lambda>s. dict_contains (sv_address_book s) key \<and> dict_getitem (sv_address_book s) key = Inr u))"

text \<open>\<open>remove_key\<close>: the first \<open>try\<close> maps the missing key to \<open>ValueError\<close>; in the second,
  \<open>list.remove\<close> raises \<open>ValueError\<close> itself when the client does not own the key.\<close>

definition remove_key :: "pystr \<Rightarrow> pystr \<Rightarrow> unit action" where
  "remove_key key u =
     and_then (uuid_check u) (\<lambda>_.
     and_then (gets (\<lambda>s. dict_contains (sv_address_book s) key)) (\<lambda>known.
     and_then (check known ValueError) (\<lambda>_.
     and_then (del_book key) (\<lambda>_.
     and_then (gets (\<lambda>s. dict_getitem (sv_client_db s) u)) (\<lambda>r.
       case r of Inl e \<Rightarrow> throw ValueError
       | Inr c \<Rightarrow>
           if key \<in> set (cl_addresses_owned c)
           then put_session u (c\<lparr>cl_addresses_owned := remove1 key (cl_addresses_owned c)\<rparr>)
           else throw ValueError)))))"

definition get_all_clients :: "pystr list action" where
  "get_all_clients = gets (\<lambda>s. dict_keys (sv_client_db s))"

definition get_all_keys :: "pystr list action" where
  "get_all_keys = gets (\<lambda>s. dict_keys (sv_address_book s))"

definition apply_state ::
  "(bytes, bytes) dict \<Rightarrow> (pystr, client) dict \<Rightarrow> (pystr, pystr) dict \<Rightarrow> unit action" where
  "apply_state db client_db address_book =
     modify (\<lambda>s. s\<lparr>sv_db := db, sv_client_db := client_db, sv_address_book := address_book\<rparr>)"

lemmas api_defs = server_start_def server_stop_def server_getitem_def server_setitem_def
  server_delitem_def server_contains_def server_len_def server_keys_def server_values_def
  set_db_def get_db_def remove_db_def uuid_check_def add_client_def get_client_def
  check_client_def remove_client_def apply_client_state_def add_key_def get_key_def
  check_key_def remove_key_def get_all_clients_def get_all_keys_def apply_state_def
  get_session_def put_session_def set_book_def del_book_def acquire_db_def release_db_def

end
