(* ===== verification/PyLib.thy ===== *)
theory PyLib
  imports Impl
begin

text \<open>
  What the program uses of Python's standard library beyond the prelude: \<open>uuid.uuid4\<close> with
  its \<open>str\<close> form, and \<open>json.dumps\<close> / \<open>json.loads\<close> on a \<open>dict[str, str]\<close>, the only values the
  LIST command and \<^verbatim>\<open>Client.list\<close> exchange.
\<close>

section \<open>Hexadecimal\<close>

definition hex_digit :: "nat \<Rightarrow> nat" where
  "hex_digit n = (if n < 10 then 48 + n else 87 + n)"

definition hex_value :: "nat \<Rightarrow> nat option" where
  "hex_value c =
     (if 48 \<le> c \<and> c \<le> 57 then Some (c - 48)
      else if 97 \<le> c \<and> c \<le> 102 then Some (c - 87)
      else if 65 \<le> c \<and> c \<le> 70 then Some (c - 55)
      else None)"

lemma hex_value_digit [simp]: "n < 16 \<Longrightarrow> hex_value (hex_digit n) = Some n"
  by (auto simp: hex_value_def hex_digit_def)

lemma hex_digit_less: "n < 16 \<Longrightarrow> hex_digit n < 128"
  by (simp add: hex_digit_def)

section \<open>uuid4\<close>

text \<open>\<open>uuid4()\<close> from sixteen random bytes: the version and variant bits are set.\<close>

definition uuid4_bytes :: "bytes \<Rightarrow> bytes" where
  "uuid4_bytes r = r[6 := (r ! 6 AND 0x0F) OR 0x40, 8 := (r ! 8 AND 0x3F) OR 0x80]"

definition hex_str :: "bytes \<Rightarrow> pystr" where
  "hex_str bs = concat (map (\<lambda>b. [hex_digit (unat b div 16), hex_digit (unat b mod 16)]) bs)"

definition uuid_str :: "bytes \<Rightarrow> pystr" where
  "uuid_str b =
     hex_str (slice b 0 4) @ [45] @ hex_str (slice b 4 6) @ [45] @ hex_str (slice b 6 8) @ [45] @
     hex_str (slice b 8 10) @ [45] @ hex_str (slice b 10 16)"

lemma length_uuid4_bytes [simp]: "length (uuid4_bytes r) = length r"
  by (simp add: uuid4_bytes_def)

lemma length_hex_str [simp]: "length (hex_str bs) = 2 * length bs"
  by (induction bs) (simp_all add: hex_str_def)

lemma length_uuid_str: "length b = 16 \<Longrightarrow> length (uuid_str b) = 36"
  by (simp add: uuid_str_def length_slice)

lemma latin1_append [simp]: "latin1 (a @ b) \<longleftrightarrow> latin1 a \<and> latin1 b"
  by (auto simp: latin1_def)

lemma latin1_hex_str: "latin1 (hex_str bs)"
proof -
  have "hex_digit (unat b div 16) < 256" "hex_digit (unat b mod 16) < 256" for b :: byte
    using hex_digit_less [of "unat b div 16"] hex_digit_less [of "unat b mod 16"] by simp_all
  then show ?thesis by (auto simp: hex_str_def latin1_def)
qed

lemma latin1_uuid_str: "latin1 (uuid_str b)"
proof -
  have "latin1 [45]" by (simp add: latin1_def)
  then show ?thesis unfolding uuid_str_def latin1_append by (simp add: latin1_hex_str)
qed

lemma hex_digit_inj: "m < 16 \<Longrightarrow> n < 16 \<Longrightarrow> hex_digit m = hex_digit n \<longleftrightarrow> m = n"
  by (auto simp: hex_digit_def split: if_splits)

lemma hex_byte_inj:
  "hex_digit (unat a div 16) = hex_digit (unat b div 16) \<Longrightarrow>
   hex_digit (unat a mod 16) = hex_digit (unat b mod 16) \<Longrightarrow> a = (b :: byte)"
proof -
  assume *: "hex_digit (unat a div 16) = hex_digit (unat b div 16)"
    "hex_digit (unat a mod 16) = hex_digit (unat b mod 16)"
  have "unat a div 16 = unat b div 16" "unat a mod 16 = unat b mod 16"
    using * by (simp_all add: hex_digit_inj)
  then have "unat a = unat b" by (metis div_mult_mod_eq)
  then show "a = b" by (simp add: word_unat_eq_iff)
qed

lemma hex_str_inj: "hex_str a = hex_str b \<longleftrightarrow> a = b"
proof (induction a arbitrary: b)
  case Nil
  then show ?case by (cases b) (simp_all add: hex_str_def)
next
  case (Cons x a)
  then show ?case by (cases b) (auto simp: hex_str_def dest: hex_byte_inj)
qed

lemma uuid_str_inj:
  assumes "length a = 16" and "length b = 16" and "uuid_str a = uuid_str b"
  shows "a = b"
proof -
  have cut: "x = slice x 0 4 @ slice x 4 6 @ slice x 6 8 @ slice x 8 10 @ slice x 10 16"
    if "length x = 16" for x :: bytes
  proof -
    have "slice x 10 16 = drop 10 x" using that by (simp add: slice_def)
    then show ?thesis
      using slice_drop [of 0 4 x] slice_drop [of 4 6 x] slice_drop [of 6 8 x] slice_drop [of 8 10 x]
      by simp
  qed
  from assms have "slice a 0 4 = slice b 0 4" "slice a 4 6 = slice b 4 6" "slice a 6 8 = slice b 6 8"
    "slice a 8 10 = slice b 8 10" "slice a 10 16 = slice b 10 16"
    by (simp_all add: uuid_str_def length_slice hex_str_inj)
  with cut assms(1,2) show ?thesis by metis
qed

section \<open>json\<close>

text \<open>The escapes of \<open>json.dumps\<close> with \<open>ensure_ascii\<close>.\<close>

definition json_u :: "nat \<Rightarrow> nat list" where
  "json_u c = [92, 117, hex_digit (c div 4096 mod 16), hex_digit (c div 256 mod 16),
               hex_digit (c div 16 mod 16), hex_digit (c mod 16)]"

definition json_escape :: "nat \<Rightarrow> nat list" where
  "json_escape c =
     (if c = 34 then [92, 34] else if c = 92 then [92, 92]
      else if c = 10 then [92, 110] else if c = 13 then [92, 114] else if c = 9 then [92, 116]
      else if c = 12 then [92, 102] else if c = 8 then [92, 98]
      else if 32 \<le> c \<and> c \<le> 126 then [c]
      else if c < 65536 then json_u c
      else json_u (55296 + (c - 65536) div 1024) @ json_u (56320 + (c - 65536) mod 1024))"

definition json_string :: "pystr \<Rightarrow> nat list" where
  "json_string s = 34 # concat (map json_escape s) @ [34]"

definition json_member :: "pystr \<times> pystr \<Rightarrow> nat list" where
  "json_member p = json_string (fst p) @ [58, 32] @ json_string (snd p)"

fun json_members :: "(pystr \<times> pystr) list \<Rightarrow> nat list" where
  "json_members [] = []"
| "json_members [p] = json_member p"
| "json_members (p # q # ps) = json_member p @ [44, 32] @ json_members (q # ps)"

definition json_dumps :: "(pystr, pystr) dict \<Rightarrow> pystr" where
  "json_dumps d = 123 # json_members d @ [125]"

text \<open>
  \<open>json.loads\<close> of the UTF-8 text of an object whose values are strings. Text outside that
  fragment (other values, bytes above 127) is refused here like a syntax error; the server
  never sends any.
\<close>

definition skip_ws :: "nat list \<Rightarrow> nat list" where
  "skip_ws cs = dropWhile (\<lambda>c. c \<in> {32, 9, 10, 13}) cs"

fun hex4 :: "nat list \<Rightarrow> (nat \<times> nat list) option" where
  "hex4 (a # b # c # d # cs) =
     (case (hex_value a, hex_value b, hex_value c, hex_value d) of
        (Some a', Some b', Some c', Some d') \<Rightarrow> Some (((a' * 16 + b') * 16 + c') * 16 + d', cs)
      | _ \<Rightarrow> None)"
| "hex4 _ = None"

definition json_unescape :: "nat \<Rightarrow> nat option" where
  "json_unescape e =
     (if e \<in> {34, 92, 47} then Some e else if e = 98 then Some 8 else if e = 102 then Some 12
      else if e = 110 then Some 10 else if e = 114 then Some 13 else if e = 116 then Some 9
      else None)"

text \<open>A \<open>\u\<close> escape, with the pairing of surrogates.\<close>

definition json_unicode :: "nat list \<Rightarrow> (nat \<times> nat list) option" where
  "json_unicode cs =
     (case hex4 cs of None \<Rightarrow> None
      | Some (u, cs') \<Rightarrow>
          (if 55296 \<le> u \<and> u \<le> 56319 \<and> take 2 cs' = [92, 117]
           then (case hex4 (drop 2 cs') of
                   Some (v, cs'') \<Rightarrow>
                     if 56320 \<le> v \<and> v \<le> 57343
                     then Some (65536 + (u - 55296) * 1024 + (v - 56320), cs'')
                     else Some (u, cs')
                 | None \<Rightarrow> None)
           else Some (u, cs')))"

lemma hex4_length: "hex4 cs = Some (u, cs') \<Longrightarrow> length cs' < length cs"
  by (induction cs rule: hex4.induct) (auto split: option.splits)

lemma json_unicode_length: "json_unicode cs = Some (u, cs') \<Longrightarrow> length cs' < length cs"
  by (auto simp: json_unicode_def dest!: hex4_length split: option.splits if_splits)

function parse_string :: "nat list \<Rightarrow> (pystr \<times> nat list) option" where
  "parse_string cs =
     (case cs of [] \<Rightarrow> None
      | c # cs1 \<Rightarrow>
          if c = 34 then Some ([], cs1)
          else if c = 92 then
            (case cs1 of [] \<Rightarrow> None
             | e # cs2 \<Rightarrow>
                 (case (if e = 117 then json_unicode cs2
                        else map_option (\<lambda>d. (d, cs2)) (json_unescape e)) of
                    None \<Rightarrow> None
                  | Some (d, cs3) \<Rightarrow> map_option (\<lambda>(s, r). (d # s, r)) (parse_string cs3)))
          else if c < 32 then None
          else map_option (\<lambda>(s, r). (c # s, r)) (parse_string cs1))"
  by pat_completeness auto
termination
  by (relation "measure length") (auto dest!: json_unicode_length split: if_splits)

declare parse_string.simps [simp del]

lemma parse_string_length: "parse_string cs = Some (s, r) \<Longrightarrow> length r < length cs"
proof (induction cs arbitrary: s r rule: parse_string.induct)
  case (1 cs)
  note IH = "1.IH" and eq = "1.prems" [unfolded parse_string.simps [of cs]]
  show ?case
  proof (cases cs)
    case (Cons c cs1)
    show ?thesis
    proof (cases "c = 92")
      case True
      with Cons eq obtain e cs2 d cs3 s' where cs1: "cs1 = e # cs2"
        and d: "(if e = 117 then json_unicode cs2
                 else map_option (\<lambda>d. (d, cs2)) (json_unescape e)) = Some (d, cs3)"
        and p: "parse_string cs3 = Some (s', r)"
        by (auto split: list.splits option.splits if_splits)
      from d have "length cs3 \<le> length cs2"
        by (auto dest: json_unicode_length split: if_splits)
      moreover have "length r < length cs3" using IH(1) Cons True cs1 d p by auto
      ultimately show ?thesis using Cons cs1 by simp
    next
      case False
      with Cons eq IH(2) show ?thesis by (fastforce split: if_splits)
    qed
  qed (use eq in simp)
qed

lemma skip_ws_length: "length (skip_ws cs) \<le> length cs"
  by (simp add: skip_ws_def length_dropWhile_le)

function parse_members :: "nat list \<Rightarrow> (pystr, pystr) dict \<Rightarrow> ((pystr, pystr) dict \<times> nat list) option"
where
  "parse_members cs d =
     (case cs of [] \<Rightarrow> None
      | q # cs1 \<Rightarrow> if q \<noteq> 34 then None else
          (case parse_string cs1 of None \<Rightarrow> None
           | Some (k, cs2) \<Rightarrow>
          (case skip_ws cs2 of [] \<Rightarrow> None
           | colon # cs3 \<Rightarrow> if colon \<noteq> 58 then None else
          (case skip_ws cs3 of [] \<Rightarrow> None
           | q' # cs4 \<Rightarrow> if q' \<noteq> 34 then None else
          (case parse_string cs4 of None \<Rightarrow> None
           | Some (v, cs5) \<Rightarrow>
          (case skip_ws cs5 of [] \<Rightarrow> None
           | sep # cs6 \<Rightarrow>
               if sep = 125 then Some (dict_setitem d k v, cs6)
               else if sep = 44 then parse_members (skip_ws cs6) (dict_setitem d k v)
               else None))))))"
  by pat_completeness auto
termination
proof (relation "measure (\<lambda>(cs, d). length cs)", goal_cases)
  case (2 cs d q cs1 x k cs2 colon cs3 q' cs4 y v cs5 sep cs6)
  then have "length cs2 < length cs1" "length cs5 < length cs4"
    using parse_string_length by blast+
  moreover have "length (colon # cs3) \<le> length cs2" "length (q' # cs4) \<le> length cs3"
    "length (sep # cs6) \<le> length cs5" "length (skip_ws cs6) \<le> length cs6"
    using skip_ws_length [of cs2] skip_ws_length [of cs3] skip_ws_length [of cs5]
      skip_ws_length [of cs6] 2 by simp_all
  ultimately show ?case using 2 by simp
qed simp

declare parse_members.simps [simp del]

definition json_loads :: "bytes \<Rightarrow> (pystr, pystr) dict result" where
  "json_loads bs =
     (if \<not> (\<forall>b \<in> set bs. unat b < 128) then Inl JSONDecodeError
      else case skip_ws (decode_latin1 bs) of
          [] \<Rightarrow> Inl JSONDecodeError
        | c # cs \<Rightarrow>
            if c \<noteq> 123 then Inl JSONDecodeError
            else case (case skip_ws cs of
                         [] \<Rightarrow> None
                       | c' # cs' \<Rightarrow> if c' = 125 then Some ([], cs') else parse_members (c' # cs') []) of
                None \<Rightarrow> Inl JSONDecodeError
              | Some (d, rest) \<Rightarrow> if skip_ws rest = [] then Inr d else Inl JSONDecodeError)"

section \<open>The round trip\<close>

lemma json_unicode_u: "c < 256 \<Longrightarrow> json_unicode (drop 2 (json_u c) @ r) = Some (c, r)"
  by (simp add: json_u_def json_unicode_def)

lemma parse_string_escape:
  assumes "c < 256"
  shows "parse_string (json_escape c @ r) = map_option (\<lambda>(s, r). (c # s, r)) (parse_string r)"
proof -
  consider (short) "json_escape c = [c]" "c \<noteq> 34" "c \<noteq> 92" "32 \<le> c"
    | (simple) e where "json_escape c = [92, e]" "e \<noteq> 117" "json_unescape e = Some c"
    | (unicode) "json_escape c = json_u c"
  proof -
    consider "c \<in> {34, 92, 10, 13, 9, 12, 8}"
      | "c \<notin> {34, 92, 10, 13, 9, 12, 8}" "32 \<le> c \<and> c \<le> 126"
      | "c \<notin> {34, 92, 10, 13, 9, 12, 8}" "\<not> (32 \<le> c \<and> c \<le> 126)" by blast
    then show thesis
    proof cases
      case 1
      then have "json_escape c = [92, json_escape c ! 1] \<and> json_escape c ! 1 \<noteq> 117 \<and>
          json_unescape (json_escape c ! 1) = Some c"
        by (elim insertE emptyE) (simp_all add: json_escape_def json_unescape_def)
      then show thesis using simple by blast
    next
      case 2
      then show thesis by (intro short) (simp_all add: json_escape_def)
    next
      case 3
      then show thesis using assms by (intro unicode) (auto simp: json_escape_def)
    qed
  qed
  then show ?thesis
  proof cases
    case short
    then show ?thesis by (subst parse_string.simps) simp
  next
    case simple
    then show ?thesis by (subst parse_string.simps) simp
  next
    case unicode
    then show ?thesis
      using json_unicode_u [OF assms, of r] by (subst parse_string.simps) (simp add: json_u_def)
  qed
qed

lemma parse_json_string:
  "latin1 s \<Longrightarrow> parse_string (concat (map json_escape s) @ 34 # r) = Some (s, r)"
proof (induction s)
  case Nil
  then show ?case by (subst parse_string.simps) simp
next
  case (Cons c s)
  then show ?case by (simp add: parse_string_escape latin1_def)
qed

lemma skip_ws_simps [simp]:
  "skip_ws [] = []"
  "skip_ws (32 # cs) = skip_ws cs"
  "c \<notin> {32, 9, 10, 13} \<Longrightarrow> skip_ws (c # cs) = c # cs"
  by (simp_all add: skip_ws_def)

lemma parse_member:
  assumes "latin1 k" and "latin1 v" and "sep \<in> {44, 125}"
  shows "parse_members (json_member (k, v) @ sep # r) d =
    (if sep = 125 then Some (dict_setitem d k v, r)
     else parse_members (skip_ws r) (dict_setitem d k v))"
  using assms parse_json_string [OF assms(1)] parse_json_string [OF assms(2)]
  by (subst parse_members.simps) (auto simp: json_member_def json_string_def)

lemma parse_json_members:
  "ps \<noteq> [] \<Longrightarrow> \<forall>(k, v) \<in> set ps. latin1 k \<and> latin1 v \<Longrightarrow>
   parse_members (json_members ps @ 125 # r) d =
     Some (foldl (\<lambda>d p. dict_setitem d (fst p) (snd p)) d ps, r)"
proof (induction ps arbitrary: d rule: json_members.induct)
  case (2 p)
  then show ?case by (cases p) (simp add: parse_member)
next
  case (3 p q ps)
  have "skip_ws (json_members (q # ps) @ 125 # r) = json_members (q # ps) @ 125 # r" for r
    by (cases ps) (simp_all add: json_member_def json_string_def)
  with 3 show ?case by (cases p) (simp add: parse_member)
qed simp

lemma foldl_setitem_distinct:
  "distinct (map fst (d @ ps)) \<Longrightarrow> foldl (\<lambda>d p. dict_setitem d (fst p) (snd p)) d ps = d @ ps"
proof (induction ps arbitrary: d)
  case (Cons p ps)
  then have "\<not> dict_contains d (fst p)" by (auto simp: dict_contains_def)
  with Cons show ?case by (simp add: setitem_new)
qed simp

lemma json_ascii: "\<forall>c \<in> set (json_escape c). c < 128"
  by (auto simp: json_escape_def json_u_def intro!: hex_digit_less)

lemma json_dumps_ascii: "\<forall>c \<in> set (json_dumps d). c < 128"
proof -
  have s: "\<forall>c \<in> set (json_string s). c < 128" for s
    using json_ascii by (auto simp: json_string_def)
  have "\<forall>c \<in> set (json_members ps). c < 128" for ps
    by (induction ps rule: json_members.induct) (use s in \<open>auto simp: json_member_def\<close>)
  then show ?thesis by (auto simp: json_dumps_def)
qed

lemma json_round_trip:
  assumes "dict_ok d" and "\<forall>(k, v) \<in> set d. latin1 k \<and> latin1 v"
  shows "\<exists>bs. encode_latin1 (json_dumps d) = Inr bs \<and> bs \<noteq> [] \<and> json_loads bs = Inr d"
proof -
  have "latin1 (json_dumps d)" using json_dumps_ascii [of d] by (force simp: latin1_def)
  then obtain bs where bs: "encode_latin1 (json_dumps d) = Inr bs" "decode_latin1 bs = json_dumps d"
    using latin1_encode_ex by blast
  have ascii: "\<forall>b \<in> set bs. unat b < 128"
    using json_dumps_ascii [of d] unfolding bs(2) [symmetric] decode_latin1_def by simp
  have "json_loads bs = Inr d"
  proof (cases d)
    case Nil
    then show ?thesis using ascii bs(2) by (simp add: json_loads_def json_dumps_def)
  next
    case (Cons p ps)
    obtain r where r: "json_members d = 34 # r"
      using Cons by (cases ps) (auto simp: json_member_def json_string_def)
    have "parse_members (34 # r @ [125]) [] = Some (d, [])"
      using parse_json_members [of d "[]" "[]"] assms Cons foldl_setitem_distinct [of "[]" d] r
      by (simp add: dict_ok_def)
    then show ?thesis using ascii bs(2) r by (simp add: json_loads_def json_dumps_def)
  qed
  moreover have "bs \<noteq> []" using bs(2) by (auto simp: json_dumps_def decode_latin1_def)
  ultimately show ?thesis using bs(1) by blast
qed

end
