(* ===== verification/Handler.thy ===== *)
theory Handler
  imports ServerApi PyLib
begin

text \<open>
  \<^verbatim>\<open>Server.handle_client\<close>: one definition per branch of the opcode dispatch, the checks
  around it and the clean-up after the loop. \<open>sock\<close> is the connection the coroutine was
  started with, \<open>u\<close> its session's UUID, \<open>cr\<close> the cryptography, \<open>rnd\<close> the random bytes of a
  \<open>uuid4()\<close> call. An operation returns \<open>Next\<close> when the loop continues and \<open>Stop clean\<close> when it
  breaks.
\<close>

datatype ctl = Next | Stop bool

definition compressor_level :: nat where
  "compressor_level = 9"

text \<open>The recurring block: build the packet with the session's cipher and counter, send it,
  increment the counter.\<close>

definition send_reply :: "crypto \<Rightarrow> sock \<Rightarrow> pystr \<Rightarrow> bytes \<Rightarrow> unit action" where
  "send_reply cr sock u data =
     and_then (get_session u) (\<lambda>c.
     and_then (lift (construct_packet cr data (cl_cipher c) (cl_tx_nonce c) compressor_level)) (\<lambda>p.
     and_then (emit (SendAll sock p)) (\<lambda>_.
       put_session u (c\<lparr>cl_tx_nonce := cl_tx_nonce c + 1\<rparr>))))"

definition reply_next :: "crypto \<Rightarrow> sock \<Rightarrow> pystr \<Rightarrow> bytes \<Rightarrow> ctl action" where
  "reply_next cr sock u data = and_then (send_reply cr sock u data) (\<lambda>_. ret Next)"

definition error_next :: "crypto \<Rightarrow> sock \<Rightarrow> pystr \<Rightarrow> nat \<Rightarrow> ctl action" where
  "error_next cr sock u n = and_then (lift (ERR_DISPATCH n)) (reply_next cr sock u)"

section \<open>Server requests\<close>

definition op_set :: "crypto \<Rightarrow> sock \<Rightarrow> pystr \<Rightarrow> bytes \<Rightarrow> ctl action" where
  "op_set cr sock u value =
     with_db_lock (and_then (lift (unpack_Is 2 (take 8 value))) (\<lambda>lens.
       let key_length = lens ! 0; value_length = lens ! 1; offset = 8;
           key = slice value offset (offset + key_length);
           offset = offset + key_length;
           v = slice value offset (offset + value_length)
       in and_then (modify (\<lambda>s. s\<lparr>sv_db := dict_setitem (sv_db s) key v\<rparr>)) (\<lambda>_.
            reply_next cr sock u ACK)))"

definition op_get :: "crypto \<Rightarrow> sock \<Rightarrow> pystr \<Rightarrow> bytes \<Rightarrow> ctl action" where
  "op_get cr sock u command =
     with_db_lock (and_then (gets sv_db) (\<lambda>db.
       if dict_contains db command
       then and_then (lift (dict_getitem db command)) (reply_next cr sock u)
       else error_next cr sock u 5))"

definition op_delete :: "crypto \<Rightarrow> sock \<Rightarrow> pystr \<Rightarrow> bytes \<Rightarrow> ctl action" where
  "op_delete cr sock u command =
     with_db_lock (and_then (gets sv_db) (\<lambda>db.
       if dict_contains db command
       then and_then (lift (dict_delitem db command)) (\<lambda>db'.
              and_then (modify (\<lambda>s. s\<lparr>sv_db := db'\<rparr>)) (\<lambda>_. reply_next cr sock u ACK))
       else error_next cr sock u 5))"

definition db_listing :: "(bytes, bytes) dict \<Rightarrow> (pystr, pystr) dict" where
  "db_listing db = map (\<lambda>(key, v). (decode_latin1 key, decode_latin1 v)) db"

definition op_list :: "crypto \<Rightarrow> sock \<Rightarrow> pystr \<Rightarrow> ctl action" where
  "op_list cr sock u =
     with_db_lock (and_then (gets sv_db) (\<lambda>db.
       and_then (lift (encode_latin1 (json_dumps (db_listing db)))) (reply_next cr sock u)))"

definition op_register :: "crypto \<Rightarrow> sock \<Rightarrow> pystr \<Rightarrow> bytes \<Rightarrow> ctl action" where
  "op_register cr sock u value =
     (let key = decode_latin1 value in
      and_then (gets (\<lambda>s. dict_contains (sv_address_book s) key)) (\<lambda>known.
        if known then error_next cr sock u 5
        else and_then (get_session u) (\<lambda>c.
             and_then (put_session u (c\<lparr>cl_addresses_owned := cl_addresses_owned c @ [key]\<rparr>)) (\<lambda>_.
             and_then (set_book key u) (\<lambda>_. reply_next cr sock u ACK)))))"

definition op_unregister :: "crypto \<Rightarrow> sock \<Rightarrow> pystr \<Rightarrow> bytes \<Rightarrow> ctl action" where
  "op_unregister cr sock u value =
     (let key = decode_latin1 value in
      and_then (get_session u) (\<lambda>c.
        if key \<notin> set (cl_addresses_owned c) then error_next cr sock u 5
        else and_then (put_session u (c\<lparr>cl_addresses_owned := remove1 key (cl_addresses_owned c)\<rparr>)) (\<lambda>_.
             and_then (del_book key) (\<lambda>_. reply_next cr sock u ACK))))"

definition op_whoami :: "crypto \<Rightarrow> sock \<Rightarrow> pystr \<Rightarrow> ctl action" where
  "op_whoami cr sock u = and_then (lift (encode_latin1 u)) (reply_next cr sock u)"

section \<open>Client requests\<close>

definition op_whohas :: "crypto \<Rightarrow> sock \<Rightarrow> pystr \<Rightarrow> bytes \<Rightarrow> ctl action" where
  "op_whohas cr sock u command =
     and_then (gets sv_address_book) (\<lambda>b.
       if dict_contains b (decode_latin1 command)
       then and_then (lift (dict_getitem b (decode_latin1 command))) (\<lambda>owner.
            and_then (lift (encode_latin1 owner)) (reply_next cr sock u))
       else error_next cr sock u 5)"

definition op_put_inbox :: "crypto \<Rightarrow> bytes \<Rightarrow> sock \<Rightarrow> pystr \<Rightarrow> bytes \<Rightarrow> ctl action" where
  "op_put_inbox cr rnd sock u value =
     and_then (lift (unpack_Is 3 (take 12 value))) (\<lambda>lens.
       let target_length = lens ! 0; req_length = lens ! 1; key_length = lens ! 2;
           offset = 12;
           target = slice value offset (offset + target_length);
           offset = offset + target_length;
           request = slice value offset (offset + req_length);
           offset = offset + req_length;
           key = slice value offset (offset + key_length);
           operation_id = uuid4_bytes rnd;
           t = decode_latin1 target
       in and_then (get_session t) (\<lambda>tc.
          and_then (lift (encode_latin1 u)) (\<lambda>return_uuid.
          and_then (put_session t (tc\<lparr>cl_inbox := cl_inbox tc @
             [\<lparr>rq_return_uuid = return_uuid, rq_key = key, rq_request = request,
               rq_request_uuid = operation_id\<rparr>]\<rparr>)) (\<lambda>_.
          reply_next cr sock u operation_id))))"

definition op_get_inbox :: "crypto \<Rightarrow> sock \<Rightarrow> pystr \<Rightarrow> ctl action" where
  "op_get_inbox cr sock u =
     and_then (get_session u) (\<lambda>c.
       case cl_inbox c of [] \<Rightarrow> block
       | r # inbox' \<Rightarrow>
           and_then (put_session u (c\<lparr>cl_inbox := inbox'\<rparr>)) (\<lambda>_.
           and_then (lift (pack_Is [length (rq_return_uuid r), length (rq_request r),
                                    length (rq_key r), length (rq_request_uuid r)])) (\<lambda>lens.
           reply_next cr sock u
             (lens @ rq_return_uuid r @ rq_request r @ rq_key r @ rq_request_uuid r))))"

definition op_put_outbox :: "crypto \<Rightarrow> sock \<Rightarrow> pystr \<Rightarrow> bytes \<Rightarrow> ctl action" where
  "op_put_outbox cr sock u value =
     and_then (lift (unpack_Is 4 (take 16 value))) (\<lambda>lens.
       let target_length = lens ! 0; res_length = lens ! 1; key_length = lens ! 2;
           req_uuid_length = lens ! 3; offset = 16;
           target = slice value offset (offset + target_length);
           offset = offset + target_length;
           res = slice value offset (offset + res_length);
           offset = offset + res_length;
           key = slice value offset (offset + key_length);
           offset = offset + key_length;
           req_uuid = slice value offset (offset + req_uuid_length);
           t = decode_latin1 target
       in and_then (get_session t) (\<lambda>tc.
          and_then (put_session t (tc\<lparr>cl_outbox := dict_setitem (cl_outbox tc) req_uuid
             \<lparr>rs_key = key, rs_response = res, rs_response_uuid = req_uuid\<rparr>\<rparr>)) (\<lambda>_.
          reply_next cr sock u ACK)))"

definition op_get_outbox :: "crypto \<Rightarrow> sock \<Rightarrow> pystr \<Rightarrow> bytes \<Rightarrow> ctl action" where
  "op_get_outbox cr sock u req_uuid =
     and_then (get_session u) (\<lambda>c.
       if \<not> dict_contains (cl_outbox c) req_uuid then error_next cr sock u 7
       else and_then (lift (dict_getitem (cl_outbox c) req_uuid)) (\<lambda>response.
            and_then (put_session u (c\<lparr>cl_outbox := AList.delete req_uuid (cl_outbox c)\<rparr>)) (\<lambda>_.
            and_then (lift (pack_Is [length (rs_key response), length (rs_response response)])) (\<lambda>lens.
            reply_next cr sock u (lens @ rs_key response @ rs_response response)))))"

section \<open>Dispatch\<close>

definition server_request :: "crypto \<Rightarrow> sock \<Rightarrow> pystr \<Rightarrow> byte \<Rightarrow> bytes \<Rightarrow> ctl action" where
  "server_request cr sock u opcode value =
     (if opcode = 1 then op_set cr sock u value
      else if opcode = 2 then op_get cr sock u value
      else if opcode = 3 then op_delete cr sock u value
      else if opcode = 4 then op_list cr sock u
      else if opcode = 5 then op_register cr sock u value
      else if opcode = 6 then op_unregister cr sock u value
      else if opcode = 7 then op_whoami cr sock u
      else if opcode = 8 then ret (Stop True)
      else error_next cr sock u 4)"

definition client_request :: "crypto \<Rightarrow> bytes \<Rightarrow> sock \<Rightarrow> pystr \<Rightarrow> byte \<Rightarrow> bytes \<Rightarrow> ctl action" where
  "client_request cr rnd sock u opcode value =
     (if opcode = 1 then op_whohas cr sock u value
      else if opcode = 2 then op_put_inbox cr rnd sock u value
      else if opcode = 3 then op_get_inbox cr sock u
      else if opcode = 4 then op_put_outbox cr sock u value
      else if opcode = 5 then op_get_outbox cr sock u value
      else error_next cr sock u 4)"

definition dispatch :: "crypto \<Rightarrow> bytes \<Rightarrow> sock \<Rightarrow> pystr \<Rightarrow> bytes \<Rightarrow> ctl action" where
  "dispatch cr rnd sock u data =
     (case data of [] \<Rightarrow> throw IndexError
      | type_ # value \<Rightarrow>
          if type_ AND 0x80 \<noteq> 0 then server_request cr sock u (type_ AND 0xF) value
          else client_request cr rnd sock u (type_ AND 0xF) value)"

section \<open>The loop\<close>

text \<open>
  From a frame to the data to dispatch: verification under the session's receive counter,
  which is incremented in any case; an error code is answered and closes the connection
  (\<open>None\<close>). Without a frame (\<open>None\<close>, after a framing error or the end of the stream) the code
  still calls \<open>verify_packet\<close>, whose \<open>len(packet)\<close> raises \<open>TypeError\<close>.
\<close>

definition handle_frame :: "crypto \<Rightarrow> sock \<Rightarrow> pystr \<Rightarrow> bytes option \<Rightarrow> bytes option action" where
  "handle_frame cr sock u frame =
     and_then (get_session u) (\<lambda>c.
       case frame of
         None \<Rightarrow> and_then (lift (to_bytes_little 12 (cl_rx_nonce c))) (\<lambda>_. throw TypeError)
       | Some packet \<Rightarrow>
           and_then (lift (verify_packet cr packet (cl_cipher c) (cl_rx_nonce c))) (\<lambda>(data, remainder).
           and_then (put_session u (c\<lparr>cl_rx_nonce := cl_rx_nonce c + 1\<rparr>)) (\<lambda>_.
             case data of
               Inl code \<Rightarrow>
                 and_then (error_next cr sock u code) (\<lambda>_.
                 and_then (emit (CloseSock sock)) (\<lambda>_. ret None))
             | Inr payload \<Rightarrow> ret (Some payload))))"

definition handle_packet :: "crypto \<Rightarrow> bytes \<Rightarrow> sock \<Rightarrow> pystr \<Rightarrow> bytes option \<Rightarrow> ctl action" where
  "handle_packet cr rnd sock u frame =
     and_then (handle_frame cr sock u frame) (\<lambda>data.
       case data of None \<Rightarrow> ret (Stop False) | Some payload \<Rightarrow> dispatch cr rnd sock u payload)"

text \<open>After the loop: unless dead sessions are kept, the first address-book entry of the session
  is removed (the loop over the entries breaks after it), then the session, and the
  connection is closed.\<close>

definition first_key_of :: "pystr \<Rightarrow> (pystr, pystr) dict \<Rightarrow> pystr option" where
  "first_key_of u book = map_option fst (find (\<lambda>(key, client_uuid). client_uuid = u) book)"

definition cleanup :: "sock \<Rightarrow> pystr \<Rightarrow> unit action" where
  "cleanup sock u =
     and_then (gets sv_keep_dead_sessions) (\<lambda>keep.
       if keep then ret ()
       else and_then (gets (\<lambda>s. first_key_of u (sv_address_book s))) (\<lambda>k.
            and_then (case k of None \<Rightarrow> ret () | Some key \<Rightarrow> del_book key) (\<lambda>_.
            and_then (modify (\<lambda>s. s\<lparr>sv_client_db := AList.delete u (sv_client_db s)\<rparr>)) (\<lambda>_.
              emit (CloseSock sock)))))"

text \<open>One pass of the outer loop, on what the inner loop read.\<close>

definition handle_read :: "crypto \<Rightarrow> bytes \<Rightarrow> sock \<Rightarrow> pystr \<Rightarrow> read_result \<Rightarrow> ctl action" where
  "handle_read cr rnd sock u r =
     (case r of
        Frame frame buffer chunks \<Rightarrow> handle_packet cr rnd sock u (Some frame)
      | FrameError e \<Rightarrow>
          and_then (lift (ERR_DISPATCH e)) (\<lambda>raw.
          and_then (emit (SendAll sock raw)) (\<lambda>_.
          and_then (emit (CloseSock sock)) (\<lambda>_. handle_packet cr rnd sock u None)))
      | Eof \<Rightarrow> handle_packet cr rnd sock u None)"

end
