(* ===== verification/Client.thy ===== *)
theory Client
  imports PyLib Packet
begin

text \<open>
  \<^verbatim>\<open>pipebomb/client.py\<close>.

  The first part is \<open>Client\<close>: each method builds a request, hands it to the connection and
  interprets the reply, so a method is a request builder and a reply reader. The second part
  is the connection, \<open>RawClient\<close>: its counters, its two queues, and the steps of its send and
  receive loops.
\<close>

section \<open>Requests and replies\<close>

definition convert_to_length_format :: "bytes list \<Rightarrow> bytes result" where
  "convert_to_length_format args = pack_Is (map length args)"

definition keyed_request :: "byte \<Rightarrow> Primitives \<Rightarrow> bytes result" where
  "keyed_request opcode key = py_bind (primitive key) (\<lambda>k. Inr (opcode # k))"

definition set_request :: "Primitives \<Rightarrow> Primitives \<Rightarrow> bytes result" where
  "set_request key v =
     py_bind (primitive key) (\<lambda>k. py_bind (primitive v) (\<lambda>x.
     py_bind (convert_to_length_format [k, x]) (\<lambda>lens. Inr ([0x81] @ lens @ k @ x))))"

definition get_request :: "Primitives \<Rightarrow> bytes result" where
  "get_request = keyed_request 0x82"

definition delete_request :: "Primitives \<Rightarrow> bytes result" where
  "delete_request = keyed_request 0x83"

definition list_request :: bytes where
  "list_request = [0x84]"

definition register_request :: "Primitives \<Rightarrow> bytes result" where
  "register_request = keyed_request 0x85"

definition unregister_request :: "Primitives \<Rightarrow> bytes result" where
  "unregister_request = keyed_request 0x86"

definition whoami_request :: bytes where
  "whoami_request = [0x87]"

definition bye_request :: bytes where
  "bye_request = [0x88]"

definition find_request :: "Primitives \<Rightarrow> bytes result" where
  "find_request = keyed_request 0x1"

definition request_request :: "bytes \<Rightarrow> Primitives \<Rightarrow> Primitives \<Rightarrow> bytes result" where
  "request_request uuid request key =
     py_bind (primitive request) (\<lambda>p_request. py_bind (primitive key) (\<lambda>p_key.
     py_bind (convert_to_length_format [uuid, p_request, p_key]) (\<lambda>lens.
       Inr ([0x2] @ lens @ uuid @ p_request @ p_key))))"

definition read_inbox_request :: bytes where
  "read_inbox_request = [0x3]"

definition respond_request :: "bytes \<Rightarrow> Primitives \<Rightarrow> Primitives \<Rightarrow> bytes \<Rightarrow> bytes result" where
  "respond_request target_uuid response key request_uuid =
     py_bind (primitive response) (\<lambda>r. py_bind (primitive key) (\<lambda>k.
     py_bind (convert_to_length_format [target_uuid, r, k, request_uuid]) (\<lambda>lens.
       Inr ([0x4] @ lens @ target_uuid @ r @ k @ request_uuid))))"

definition read_outbox_request :: "bytes \<Rightarrow> bytes" where
  "read_outbox_request request_uuid = [0x5] @ request_uuid"

text \<open>\<open>set\<close>, \<open>delete\<close>, \<open>register\<close>, \<open>unregister\<close> and \<open>respond\<close> return whether the reply is the
  acknowledgement; \<open>get\<close>, \<open>whoami\<close>, \<open>find\<close> and \<open>request\<close> return the reply as it is.\<close>

definition is_ack :: "bytes \<Rightarrow> bool" where
  "is_ack res \<longleftrightarrow> res = ACK"

definition list_reply :: "bytes \<Rightarrow> (pystr, pystr) dict result" where
  "list_reply res = json_loads res"

definition read_inbox_reply :: "bytes \<Rightarrow> Request result" where
  "read_inbox_reply res =
     py_bind (unpack_Is 4 (take 16 res)) (\<lambda>lens.
       let uuid_length = lens ! 0; req_length = lens ! 1; key_length = lens ! 2;
           req_uuid_length = lens ! 3; offset = 16;
           uuid = slice res offset (offset + uuid_length);
           offset = offset + uuid_length;
           req = slice res offset (offset + req_length);
           offset = offset + req_length;
           key = slice res offset (offset + key_length);
           offset = offset + key_length;
           req_uuid = slice res offset (offset + req_uuid_length)
       in Inr \<lparr>rq_return_uuid = uuid, rq_key = key, rq_request = req, rq_request_uuid = req_uuid\<rparr>)"

definition read_outbox_reply :: "bytes \<Rightarrow> bytes \<Rightarrow> Response result" where
  "read_outbox_reply request_uuid res =
     (if length res < 9 then Inl RuntimeError
      else py_bind (unpack_Is 2 (take 8 res)) (\<lambda>lens.
        let key_length = lens ! 0; res_length = lens ! 1; offset = 8;
            key = slice res offset (offset + key_length);
            offset = offset + key_length;
            response = slice res offset (offset + res_length)
        in Inr \<lparr>rs_key = key, rs_response = response, rs_response_uuid = request_uuid\<rparr>))"

section \<open>The connection\<close>

text \<open>
  The state of \<open>RawClient\<close>: the cipher, the two counters, the queue \<open>tasks\<close> of packets that
  \<open>send_loop\<close> has yet to send, the queue \<open>input_packets\<close>, and whether the socket is open.
  \<open>rc_alive\<close> tells whether the task of \<open>handle_connection\<close> still runs.
\<close>

record RawClient =
  rc_cipher :: "bytes option"
  rc_tx_nonce :: nat
  rc_rx_nonce :: nat
  rc_tasks :: "bytes list"
  rc_input_packets :: "bytes list"
  rc_open :: bool
  rc_alive :: bool

definition raw_client :: RawClient where
  "raw_client = \<lparr>rc_cipher = None, rc_tx_nonce = 0, rc_rx_nonce = 0, rc_tasks = [],
     rc_input_packets = [], rc_open = True, rc_alive = False\<rparr>"

definition client_level :: nat where
  "client_level = 9"

text \<open>\<open>send\<close>: the packet is built with the counter of this moment and queued.\<close>

definition rc_send :: "crypto \<Rightarrow> bytes \<Rightarrow> RawClient \<Rightarrow> RawClient result" where
  "rc_send cr data c =
     py_bind (construct_packet cr data (rc_cipher c) (rc_tx_nonce c) client_level) (\<lambda>packet.
       Inr (c\<lparr>rc_tasks := rc_tasks c @ [packet]\<rparr>))"

text \<open>One turn of \<open>send_loop\<close>: the oldest packet goes out and the counter moves; \<open>None\<close> when
  the queue is empty and the loop waits.\<close>

definition rc_send_step :: "RawClient \<Rightarrow> (bytes \<times> RawClient) option" where
  "rc_send_step c =
     (case rc_tasks c of [] \<Rightarrow> None
      | packet # tasks \<Rightarrow> Some (packet, c\<lparr>rc_tasks := tasks, rc_tx_nonce := rc_tx_nonce c + 1\<rparr>))"

text \<open>The prefix test of \<open>recv_loop\<close>: \<open>ERR_PREFIX\<close> is \<open>b"ERR"\<close>, \<open>OLD_ACK\<close> is \<open>b"ERR\x00"\<close>.\<close>

definition ERR_PREFIX :: bytes where "ERR_PREFIX = [69, 82, 82]"

definition OLD_ACK :: bytes where "OLD_ACK = [69, 82, 82, 0]"

text \<open>
  One turn of \<open>recv_loop\<close> on a frame: whether the loop goes on, and the state. Any exception is
  re-raised as \<open>RuntimeError\<close>, ends \<open>handle_connection\<close> and closes the socket (\<open>rc_fail\<close>). The
  counter moves before the prefix test. (\<open>task_done\<close> on the tasks queue only counts finished
  items and is left out.)
\<close>

definition rc_fail :: "RawClient \<Rightarrow> RawClient" where
  "rc_fail c = c\<lparr>rc_open := False, rc_alive := False\<rparr>"

definition rc_receive_frame :: "crypto \<Rightarrow> bytes \<Rightarrow> RawClient \<Rightarrow> bool \<times> RawClient" where
  "rc_receive_frame cr frame c =
     (case verify_packet cr frame (rc_cipher c) (rc_rx_nonce c) of
        Inr (Inr packet, remainder) \<Rightarrow>
          let c' = c\<lparr>rc_rx_nonce := rc_rx_nonce c + 1\<rparr>
          in if take 3 packet = ERR_PREFIX \<and> packet \<noteq> OLD_ACK then (False, rc_fail c')
             else (True, c'\<lparr>rc_input_packets := rc_input_packets c' @ [packet]\<rparr>)
      | _ \<Rightarrow> (False, rc_fail c))"

text \<open>\<open>receive\<close>: the oldest queued packet; an empty queue for five seconds is a timeout,
  raised as \<open>RuntimeError\<close>.\<close>

definition rc_receive :: "RawClient \<Rightarrow> (bytes \<times> RawClient) result" where
  "rc_receive c =
     (case rc_input_packets c of [] \<Rightarrow> Inl RuntimeError
      | packet # packets \<Rightarrow> Inr (packet, c\<lparr>rc_input_packets := packets\<rparr>))"

text \<open>\<open>close\<close>: the BYE packet goes out at once, past the queue.\<close>

definition rc_close :: "crypto \<Rightarrow> RawClient \<Rightarrow> (bytes \<times> RawClient) result" where
  "rc_close cr c =
     (case rc_cipher c of None \<Rightarrow> Inl RuntimeError
      | Some key \<Rightarrow>
          py_bind (construct_packet cr bye_request (Some key) (rc_tx_nonce c) client_level) (\<lambda>packet.
            Inr (packet, c\<lparr>rc_tx_nonce := 0, rc_rx_nonce := 0, rc_cipher := None, rc_open := False\<rparr>)))"

end
