(* ===== verification/Accept.thy ===== *)
theory Accept
  imports Handler Client
begin

text \<open>
  The handshake. The first part is \<^verbatim>\<open>Server.accept_clients\<close>: one pass of its loop is three
  phases, one per message the server waits for (public key, password, login), composed by
  \<open>accept_one\<close> over the stream of the accepted connection; \<open>accept_client\<close> adds the
  \<open>except Exception\<close> around them. The second part is \<^verbatim>\<open>RawClient.connect\<close> in the same way.

  \<open>priv\<close> is the private key a side generates, \<open>rnd\<close> the random bytes of \<open>uuid4()\<close>.
\<close>

definition HKDF_INFO :: bytes where
  "HKDF_INFO = pyb ''pipebomb''"

definition LOGIN :: byte where "LOGIN = 0xC5"

definition RELOGIN :: byte where "RELOGIN = 0xC4"

section \<open>Server\<close>

text \<open>The address of an accepted connection, as the session records it: a string.\<close>

definition accepted_address :: "FactorySocket \<Rightarrow> SocketAddress \<Rightarrow> SocketAddress" where
  "accepted_address listener client_address =
     (let client_address = (if client_address = AddrStr []
        then AddrStr (factory_address listener @ py '' (Assumed)'') else client_address)
      in AddrStr (parse_address client_address))"

text \<open>\<open>None\<close> in the next three is the \<open>continue\<close> of a rejected connection.\<close>

definition accept_key :: "crypto \<Rightarrow> sock \<Rightarrow> bytes \<Rightarrow> bytes \<Rightarrow> bytes option action" where
  "accept_key cr sock priv client_public_key_bytes =
     (if length client_public_key_bytes \<noteq> 32
      then and_then (emit (CloseSock sock)) (\<lambda>_. ret None)
      else and_then (emit (SendAll sock (x25519_public cr priv))) (\<lambda>_.
           case x25519_exchange cr priv client_public_key_bytes of
             None \<Rightarrow> throw ValueError
           | Some shared_secret \<Rightarrow> ret (Some (hkdf_derive cr HKDF_INFO shared_secret))))"

definition accept_password :: "crypto \<Rightarrow> sock \<Rightarrow> bytes \<Rightarrow> bytes \<Rightarrow> unit option action" where
  "accept_password cr sock key frame =
     and_then (lift (verify_packet cr frame (Some key) 0)) (\<lambda>(password, _).
     and_then (gets sv_password) (\<lambda>expected.
       case password of
         Inl code \<Rightarrow>
           if code = 3 \<or> code = 2 then and_then (emit (CloseSock sock)) (\<lambda>_. ret None)
           else throw TypeError
       | Inr p \<Rightarrow>
           if p \<noteq> 0 # expected then and_then (emit (CloseSock sock)) (\<lambda>_. ret None)
           else and_then (lift (construct_packet cr ACK (Some key) 0 compressor_level)) (\<lambda>ack.
                and_then (emit (SendAll sock ack)) (\<lambda>_. ret (Some ())))))"

definition new_session :: "sock \<Rightarrow> SocketAddress \<Rightarrow> pystr \<Rightarrow> bytes \<Rightarrow> nat \<Rightarrow> nat \<Rightarrow> client" where
  "new_session sock address u key tx_nonce rx_nonce =
     \<lparr>cl_socket = sock, cl_address = address, cl_addresses_owned = [], cl_inbox = [],
      cl_outbox = [], cl_uuid = u, cl_cipher = Some key, cl_rx_nonce = rx_nonce,
      cl_tx_nonce = tx_nonce, cl_active = True\<rparr>"

text \<open>The three answers to a login message. \<open>handshake_send\<close> sends under the counter 1.\<close>

definition handshake_send :: "crypto \<Rightarrow> sock \<Rightarrow> bytes \<Rightarrow> bytes \<Rightarrow> unit action" where
  "handshake_send cr sock key data =
     and_then (lift (construct_packet cr data (Some key) 1 compressor_level)) (\<lambda>p. emit (SendAll sock p))"

definition relogin_unknown :: "crypto \<Rightarrow> bytes \<Rightarrow> sock \<Rightarrow> SocketAddress \<Rightarrow> bytes \<Rightarrow> pystr action" where
  "relogin_unknown cr rnd sock address key =
     and_then (lift (ERR_DISPATCH 7)) (\<lambda>err.
     and_then (handshake_send cr sock key err) (\<lambda>_.
       let u = uuid_str (uuid4_bytes rnd)
       in and_then (put_session u (new_session sock address u key 2 2)) (\<lambda>_. ret u)))"

definition relogin_found :: "crypto \<Rightarrow> sock \<Rightarrow> SocketAddress \<Rightarrow> bytes \<Rightarrow> pystr \<Rightarrow> pystr action" where
  "relogin_found cr sock address key u =
     and_then (get_session u) (\<lambda>c.
     and_then (put_session u (c\<lparr>cl_address := address, cl_socket := sock, cl_cipher := Some key\<rparr>)) (\<lambda>_.
     and_then (handshake_send cr sock key ACK) (\<lambda>_. ret u)))"

definition login_new :: "crypto \<Rightarrow> bytes \<Rightarrow> sock \<Rightarrow> SocketAddress \<Rightarrow> bytes \<Rightarrow> pystr action" where
  "login_new cr rnd sock address key =
     (let u = uuid_str (uuid4_bytes rnd)
      in and_then (put_session u (new_session sock address u key 1 2)) (\<lambda>_.
         and_then (handshake_send cr sock key ACK) (\<lambda>_. ret u)))"

text \<open>After any of them: the session's counters, and the handler task.\<close>

definition start_session :: "sock \<Rightarrow> pystr \<Rightarrow> pystr option action" where
  "start_session sock u =
     and_then (get_session u) (\<lambda>c.
     and_then (put_session u (c\<lparr>cl_tx_nonce := 2, cl_rx_nonce := 2\<rparr>)) (\<lambda>_.
     and_then (modify (\<lambda>s. s\<lparr>sv_tasks := sv_tasks s @ [HandlerTask sock u]\<rparr>)) (\<lambda>_. ret (Some u))))"

definition accept_login ::
  "crypto \<Rightarrow> bytes \<Rightarrow> sock \<Rightarrow> SocketAddress \<Rightarrow> bytes \<Rightarrow> bytes \<Rightarrow> pystr option action" where
  "accept_login cr rnd sock address key frame =
     and_then (lift (verify_packet cr frame (Some key) 1)) (\<lambda>(client_response, _).
       case client_response of
         Inl code \<Rightarrow> ret None
       | Inr response \<Rightarrow>
           (case response of
              [] \<Rightarrow> throw IndexError
            | kind # rest \<Rightarrow>
                if kind = RELOGIN then
                  (let u = decode_latin1 rest in
                   and_then (gets (\<lambda>s. dict_contains (sv_client_db s) u)) (\<lambda>known.
                   and_then (if known then relogin_found cr sock address key u
                             else relogin_unknown cr rnd sock address key) (start_session sock)))
                else if kind = LOGIN then
                  and_then (login_new cr rnd sock address key) (start_session sock)
                else and_then (emit (CloseSock sock)) (\<lambda>_. ret None)))"

text \<open>One pass of the loop after \<open>sock_accept\<close>: the session's UUID and what is left of the
  stream for its handler.\<close>

definition accept_one ::
  "crypto \<Rightarrow> bytes \<Rightarrow> bytes \<Rightarrow> sock \<Rightarrow> SocketAddress \<Rightarrow> bytes list \<Rightarrow> (pystr \<times> bytes list) option action" where
  "accept_one cr rnd priv sock address chunks =
     (case read_exact 32 [] chunks of (client_public_key_bytes, chunks) \<Rightarrow>
      and_then (accept_key cr sock priv client_public_key_bytes) (\<lambda>r. case r of None \<Rightarrow> ret None
      | Some key \<Rightarrow>
      and_then (lift (read_packet_frame chunks)) (\<lambda>(frame, chunks).
      and_then (accept_password cr sock key frame) (\<lambda>r. case r of None \<Rightarrow> ret None
      | Some _ \<Rightarrow>
      and_then (lift (read_packet_frame chunks)) (\<lambda>(frame, chunks).
      and_then (accept_login cr rnd sock address key frame) (\<lambda>r.
        ret (map_option (\<lambda>u. (u, chunks)) r)))))))"

definition accept_client ::
  "crypto \<Rightarrow> FactorySocket \<Rightarrow> bytes \<Rightarrow> bytes \<Rightarrow> sock \<Rightarrow> SocketAddress \<Rightarrow> bytes list \<Rightarrow>
     (pystr \<times> bytes list) option action" where
  "accept_client cr listener rnd priv sock client_address chunks = (\<lambda>s.
     case accept_one cr rnd priv sock (accepted_address listener client_address) chunks s of
       (Raise e, es, s') \<Rightarrow> (Return None, es, s')
     | other \<Rightarrow> other)"

text \<open>\<open>accept_clients\<close> on a sequence of incoming connections: no connection ends the loop. A
  connection is the random bytes, the private key, the socket, its address and its stream.\<close>

type_synonym incoming = "bytes \<times> bytes \<times> sock \<times> SocketAddress \<times> bytes list"

definition accept_clients :: "crypto \<Rightarrow> FactorySocket \<Rightarrow> incoming list \<Rightarrow> unit action" where
  "accept_clients cr listener =
     for_each (\<lambda>(rnd, priv, sock, client_address, chunks).
       and_then (accept_client cr listener rnd priv sock client_address chunks) (\<lambda>_. ret ()))"

section \<open>Client\<close>

text \<open>
  \<open>connect\<close> between its reads. Each part takes the client object and returns the outcome and
  the object, which keeps what was assigned before an exception. The first component of the
  outcome is what \<open>sock_sendall\<close> sends.
\<close>

definition connect_hello :: "crypto \<Rightarrow> bytes \<Rightarrow> bytes" where
  "connect_hello cr priv = x25519_public cr priv"

definition connect_send :: "crypto \<Rightarrow> bytes \<Rightarrow> RawClient \<Rightarrow> bytes result \<times> RawClient" where
  "connect_send cr data c =
     (case construct_packet cr data (rc_cipher c) (rc_tx_nonce c) client_level of
        Inl e \<Rightarrow> (Inl e, c)
      | Inr p \<Rightarrow> (Inr p, c\<lparr>rc_tx_nonce := rc_tx_nonce c + 1\<rparr>))"

definition connect_key ::
  "crypto \<Rightarrow> bytes \<Rightarrow> bytes \<Rightarrow> bytes \<Rightarrow> RawClient \<Rightarrow> bytes result \<times> RawClient" where
  "connect_key cr priv password server_public_key_bytes c =
     (if length server_public_key_bytes \<noteq> 32 then (Inl RuntimeError, c)
      else case x25519_exchange cr priv server_public_key_bytes of
             None \<Rightarrow> (Inl ValueError, c)
           | Some shared_secret \<Rightarrow>
               connect_send cr (0 # password)
                 (c\<lparr>rc_cipher := Some (hkdf_derive cr HKDF_INFO shared_secret)\<rparr>))"

definition connect_ack ::
  "crypto \<Rightarrow> bytes option \<Rightarrow> bytes \<Rightarrow> RawClient \<Rightarrow> bytes result \<times> RawClient" where
  "connect_ack cr relog_uuid encrypted_ack c =
     (if encrypted_ack = [] then (Inl RuntimeError, c)
      else case verify_packet cr encrypted_ack (rc_cipher c) (rc_rx_nonce c) of
        Inl e \<Rightarrow> (Inl e, c)
      | Inr (ack, _) \<Rightarrow>
          let c' = c\<lparr>rc_rx_nonce := rc_rx_nonce c + 1\<rparr> in
          if ack \<noteq> Inr ACK then (Inl RuntimeError, c')
          else connect_send cr (case relog_uuid of Some u \<Rightarrow> RELOGIN # u | None \<Rightarrow> [LOGIN]) c')"

text \<open>The answer to the login: whether it was the acknowledgement. Another answer is only
  warned about (\<open>InvalidRelogUUID\<close>). Then \<open>handle_connection\<close> is started.\<close>

definition connect_login :: "crypto \<Rightarrow> bytes \<Rightarrow> RawClient \<Rightarrow> bool result \<times> RawClient" where
  "connect_login cr frame c =
     (case verify_packet cr frame (rc_cipher c) (rc_rx_nonce c) of
        Inl e \<Rightarrow> (Inl e, c)
      | Inr (ack, _) \<Rightarrow> (Inr (ack = Inr ACK), c\<lparr>rc_rx_nonce := rc_rx_nonce c + 1, rc_alive := True\<rparr>))"

text \<open>All of \<open>connect\<close> on the stream the server sends: the outcome with the rest of the stream,
  the messages sent, and the client object.\<close>

definition connect ::
  "crypto \<Rightarrow> bytes \<Rightarrow> bytes \<Rightarrow> bytes option \<Rightarrow> bytes list \<Rightarrow> RawClient \<Rightarrow>
     (bool \<times> bytes list) result \<times> bytes list \<times> RawClient" where
  "connect cr priv password relog_uuid chunks c =
     (let hello = connect_hello cr priv;
          (server_public_key_bytes, chunks) = read_exact 32 [] chunks
      in case connect_key cr priv password server_public_key_bytes c of
           (Inl e, c) \<Rightarrow> (Inl e, [hello], c)
         | (Inr p1, c) \<Rightarrow>
      (case read_packet_frame chunks of
           Inl e \<Rightarrow> (Inl e, [hello, p1], c)
         | Inr (encrypted_ack, chunks) \<Rightarrow>
      (case connect_ack cr relog_uuid encrypted_ack c of
           (Inl e, c) \<Rightarrow> (Inl e, [hello, p1], c)
         | (Inr p2, c) \<Rightarrow>
      (case read_packet_frame chunks of
           Inl e \<Rightarrow> (Inl e, [hello, p1, p2], c)
         | Inr (frame, chunks) \<Rightarrow>
      (case connect_login cr frame c of
           (Inl e, c) \<Rightarrow> (Inl e, [hello, p1, p2], c)
         | (Inr ok, c) \<Rightarrow> (Inr (ok, chunks), [hello, p1, p2], c))))))"

end
