(* ===== verification/Office.thy ===== *)
theory Office
  imports Handler Client
begin

text \<open>
  What the server promises its clients, without wire format, counters or encryption: the post
  office. An \<open>office\<close> holds the database, the address book and one mailbox per session;
  \<open>office_step\<close> says how a command of one session is answered and what it changes, or \<open>None\<close>
  where the server gives no answer (an empty inbox, or a command its handler dies on).

  \<open>office_of\<close> maps a server to its office. The lemmas show that a request, laid out as the
  client lays it out, makes \<^verbatim>\<open>handle_client\<close> send exactly one packet, which decrypts under
  the session's cipher and counter to the office's answer, and leaves the server in a state
  whose office is the office's next state.
\<close>

section \<open>The abstract service\<close>

record mailbox =
  mb_owned :: "pystr list"
  mb_inbox :: "Request list"
  mb_outbox :: "bytes \<Rightarrow> Response option"

record office =
  of_db :: "bytes \<Rightarrow> bytes option"
  of_book :: "pystr \<Rightarrow> pystr option"
  of_boxes :: "pystr \<Rightarrow> mailbox option"

datatype command =
    CSet bytes bytes
  | CGet bytes
  | CDelete bytes
  | CRegister bytes
  | CUnregister bytes
  | CWhoami
  | CFind bytes
  | CRequest bytes bytes bytes
  | CReadInbox
  | CRespond bytes bytes bytes bytes
  | CReadOutbox bytes

datatype answer = Ack | Err nat | Value bytes

definition err_answer :: "nat \<Rightarrow> bytes" where
  "err_answer n = [0, 69, 82, 82, of_nat n]"

fun answer_bytes :: "answer \<Rightarrow> bytes" where
  "answer_bytes Ack = ACK"
| "answer_bytes (Err n) = err_answer n"
| "answer_bytes (Value v) = v"

definition latin1_bytes :: "pystr \<Rightarrow> bytes" where
  "latin1_bytes s = map of_nat s"

definition u32_fields :: "bytes list \<Rightarrow> bytes" where
  "u32_fields bs = concat (map (be_bytes 4) (map length bs))"

definition inbox_message :: "Request \<Rightarrow> bytes" where
  "inbox_message r =
     u32_fields [rq_return_uuid r, rq_request r, rq_key r, rq_request_uuid r] @
     rq_return_uuid r @ rq_request r @ rq_key r @ rq_request_uuid r"

definition outbox_message :: "Response \<Rightarrow> bytes" where
  "outbox_message r = u32_fields [rs_key r, rs_response r] @ rs_key r @ rs_response r"

fun office_step :: "bytes \<Rightarrow> pystr \<Rightarrow> command \<Rightarrow> office \<Rightarrow> (answer \<times> office) option" where
  "office_step rnd u (CSet k v) w = Some (Ack, w\<lparr>of_db := (of_db w)(k \<mapsto> v)\<rparr>)"
| "office_step rnd u (CGet k) w =
     (case of_db w k of None \<Rightarrow> Some (Err 5, w)
      | Some v \<Rightarrow> if v = [] then None else Some (Value v, w))"
| "office_step rnd u (CDelete k) w =
     (case of_db w k of None \<Rightarrow> Some (Err 5, w)
      | Some v \<Rightarrow> Some (Ack, w\<lparr>of_db := (of_db w)(k := None)\<rparr>))"
| "office_step rnd u (CRegister b) w =
     (let k = decode_latin1 b in
      case of_book w k of Some v \<Rightarrow> Some (Err 5, w)
      | None \<Rightarrow> (case of_boxes w u of None \<Rightarrow> None
        | Some m \<Rightarrow> Some (Ack, w\<lparr>of_book := (of_book w)(k \<mapsto> u),
             of_boxes := (of_boxes w)(u \<mapsto> m\<lparr>mb_owned := mb_owned m @ [k]\<rparr>)\<rparr>)))"
| "office_step rnd u (CUnregister b) w =
     (let k = decode_latin1 b in
      case of_boxes w u of None \<Rightarrow> None
      | Some m \<Rightarrow>
          if k \<notin> set (mb_owned m) then Some (Err 5, w)
          else if of_book w k = None then None
          else Some (Ack, w\<lparr>of_book := (of_book w)(k := None),
                 of_boxes := (of_boxes w)(u \<mapsto> m\<lparr>mb_owned := remove1 k (mb_owned m)\<rparr>)\<rparr>))"
| "office_step rnd u CWhoami w =
     (if latin1 u \<and> u \<noteq> [] then Some (Value (latin1_bytes u), w) else None)"
| "office_step rnd u (CFind b) w =
     (case of_book w (decode_latin1 b) of None \<Rightarrow> Some (Err 5, w)
      | Some v \<Rightarrow> if latin1 v \<and> v \<noteq> [] then Some (Value (latin1_bytes v), w) else None)"
| "office_step rnd u (CRequest target request key) w =
     (let t = decode_latin1 target in
      case of_boxes w t of None \<Rightarrow> None
      | Some m \<Rightarrow>
          if latin1 u
          then Some (Value (uuid4_bytes rnd),
             w\<lparr>of_boxes := (of_boxes w)(t \<mapsto> m\<lparr>mb_inbox := mb_inbox m @
               [\<lparr>rq_return_uuid = latin1_bytes u, rq_key = key, rq_request = request,
                 rq_request_uuid = uuid4_bytes rnd\<rparr>]\<rparr>)\<rparr>)
          else None)"
| "office_step rnd u CReadInbox w =
     (case of_boxes w u of None \<Rightarrow> None
      | Some m \<Rightarrow>
          (case mb_inbox m of [] \<Rightarrow> None
           | r # rs \<Rightarrow> Some (Value (inbox_message r),
               w\<lparr>of_boxes := (of_boxes w)(u \<mapsto> m\<lparr>mb_inbox := rs\<rparr>)\<rparr>)))"
| "office_step rnd u (CRespond target response key ident) w =
     (let t = decode_latin1 target in
      case of_boxes w t of None \<Rightarrow> None
      | Some m \<Rightarrow> Some (Ack, w\<lparr>of_boxes := (of_boxes w)(t \<mapsto> m\<lparr>mb_outbox := (mb_outbox m)(ident \<mapsto>
           \<lparr>rs_key = key, rs_response = response, rs_response_uuid = ident\<rparr>)\<rparr>)\<rparr>))"
| "office_step rnd u (CReadOutbox ident) w =
     (case of_boxes w u of None \<Rightarrow> None
      | Some m \<Rightarrow>
          (case mb_outbox m ident of None \<Rightarrow> Some (Err 7, w)
           | Some r \<Rightarrow> Some (Value (outbox_message r),
               w\<lparr>of_boxes := (of_boxes w)(u \<mapsto> m\<lparr>mb_outbox := (mb_outbox m)(ident := None)\<rparr>)\<rparr>)))"

section \<open>The layout of a command\<close>

fun command_bytes :: "command \<Rightarrow> bytes" where
  "command_bytes (CSet k v) = 0x81 # u32_fields [k, v] @ k @ v"
| "command_bytes (CGet k) = 0x82 # k"
| "command_bytes (CDelete k) = 0x83 # k"
| "command_bytes (CRegister k) = 0x85 # k"
| "command_bytes (CUnregister k) = 0x86 # k"
| "command_bytes CWhoami = [0x87]"
| "command_bytes (CFind k) = 0x1 # k"
| "command_bytes (CRequest t r k) = 0x2 # u32_fields [t, r, k] @ t @ r @ k"
| "command_bytes CReadInbox = [0x3]"
| "command_bytes (CRespond t r k i) = 0x4 # u32_fields [t, r, k, i] @ t @ r @ k @ i"
| "command_bytes (CReadOutbox i) = 0x5 # i"

fun command_fields :: "command \<Rightarrow> bytes list" where
  "command_fields (CSet k v) = [k, v]"
| "command_fields (CRequest t r k) = [t, r, k]"
| "command_fields (CRespond t r k i) = [t, r, k, i]"
| "command_fields _ = []"

definition command_ok :: "command \<Rightarrow> bool" where
  "command_ok cmd \<longleftrightarrow> (\<forall>b \<in> set (command_fields cmd). length b < 2 ^ 32)"

section \<open>From the server to the office\<close>

definition mailbox_of :: "client \<Rightarrow> mailbox" where
  "mailbox_of c = \<lparr>mb_owned = cl_addresses_owned c, mb_inbox = cl_inbox c,
     mb_outbox = map_of (cl_outbox c)\<rparr>"

definition office_of :: "server \<Rightarrow> office" where
  "office_of s = \<lparr>of_db = map_of (sv_db s), of_book = map_of (sv_address_book s),
     of_boxes = (\<lambda>u. map_option mailbox_of (map_of (sv_client_db s) u))\<rparr>"

definition session_cipher :: "server \<Rightarrow> pystr \<Rightarrow> bytes option" where
  "session_cipher s u = Option.bind (map_of (sv_client_db s) u) cl_cipher"

definition session_tx :: "server \<Rightarrow> pystr \<Rightarrow> nat" where
  "session_tx s u = (case map_of (sv_client_db s) u of None \<Rightarrow> 0 | Some c \<Rightarrow> cl_tx_nonce c)"

definition session_rx :: "server \<Rightarrow> pystr \<Rightarrow> nat" where
  "session_rx s u = (case map_of (sv_client_db s) u of None \<Rightarrow> 0 | Some c \<Rightarrow> cl_rx_nonce c)"

text \<open>The session can be answered: it has a cipher with a 32-byte key and its counter fits.\<close>

definition session_ready :: "server \<Rightarrow> pystr \<Rightarrow> bool" where
  "session_ready s u \<longleftrightarrow>
     (\<exists>key. session_cipher s u = Some key \<and> length key = 32) \<and> session_tx s u < 2 ^ 96"

definition sendable :: "bytes \<Rightarrow> bool" where
  "sendable data \<longleftrightarrow> data \<noteq> [] \<and> length data < 2 ^ 31 - 7"

text \<open>The result of an action that answered \<open>data\<close> to session \<open>u\<close> and left the office \<open>w'\<close>: one
  packet, which verifies under the session's cipher and counter; only that counter moved.\<close>

definition served ::
  "crypto \<Rightarrow> sock \<Rightarrow> pystr \<Rightarrow> bytes \<Rightarrow> server \<Rightarrow> office \<Rightarrow>
     ctl outcome \<times> effect list \<times> server \<Rightarrow> bool" where
  "served cr sock u data s w' res \<longleftrightarrow>
     (\<exists>p s'. res = (Return Next, [SendAll sock p], s') \<and>
        verify_packet cr p (session_cipher s u) (session_tx s u) = Inr (Inr data, None) \<and>
        office_of s' = w' \<and>
        session_cipher s' = session_cipher s \<and>
        session_tx s' = (session_tx s)(u := Suc (session_tx s u)) \<and>
        session_rx s' = session_rx s \<and>
        sv_db_locked s' = sv_db_locked s)"

end
