(* ===== verification/OfficeRefine.thy ===== *)
theory OfficeRefine
  imports Office
begin

text \<open>
  The handler implements the post office: one lemma per operation, then the dispatcher. The
  shared part is the answer itself (\<open>reply_served\<close>): building, sending and counting.
\<close>

named_theorems office_simps \<open>the office of an updated server\<close>

section \<open>Updates seen from the office\<close>

lemma office_db [office_simps]:
  "office_of (s\<lparr>sv_db := d\<rparr>) = (office_of s)\<lparr>of_db := map_of d\<rparr>"
  by (simp add: office_of_def)

lemma office_book [office_simps]:
  "office_of (s\<lparr>sv_address_book := d\<rparr>) = (office_of s)\<lparr>of_book := map_of d\<rparr>"
  by (simp add: office_of_def)

lemma office_lock [office_simps]: "office_of (s\<lparr>sv_db_locked := b\<rparr>) = office_of s"
  by (simp add: office_of_def)

lemma office_session [office_simps]:
  "office_of (s\<lparr>sv_client_db := dict_setitem (sv_client_db s) u c\<rparr>) =
     (office_of s)\<lparr>of_boxes := (of_boxes (office_of s))(u \<mapsto> mailbox_of c)\<rparr>"
  by (auto simp: office_of_def map_of_setitem fun_eq_iff)

lemma office_fields [office_simps]:
  "of_db (office_of s) = map_of (sv_db s)"
  "of_book (office_of s) = map_of (sv_address_book s)"
  "of_boxes (office_of s) u = map_option mailbox_of (map_of (sv_client_db s) u)"
  by (simp_all add: office_of_def)

lemma mailbox_counters [office_simps]:
  "mailbox_of (c\<lparr>cl_tx_nonce := n\<rparr>) = mailbox_of c"
  "mailbox_of (c\<lparr>cl_rx_nonce := n\<rparr>) = mailbox_of c"
  by (simp_all add: mailbox_of_def)

lemma mailbox_fields [office_simps]:
  "mb_owned (mailbox_of c) = cl_addresses_owned c"
  "mb_inbox (mailbox_of c) = cl_inbox c"
  "mb_outbox (mailbox_of c) = map_of (cl_outbox c)"
  "mailbox_of (c\<lparr>cl_addresses_owned := a\<rparr>) = (mailbox_of c)\<lparr>mb_owned := a\<rparr>"
  "mailbox_of (c\<lparr>cl_inbox := i\<rparr>) = (mailbox_of c)\<lparr>mb_inbox := i\<rparr>"
  "mailbox_of (c\<lparr>cl_outbox := out\<rparr>) = (mailbox_of c)\<lparr>mb_outbox := map_of out\<rparr>"
  by (simp_all add: mailbox_of_def)

lemma office_counters:
  "map_of (sv_client_db s) u = Some c \<Longrightarrow> mailbox_of c' = mailbox_of c \<Longrightarrow>
   office_of (s\<lparr>sv_client_db := dict_setitem (sv_client_db s) u c'\<rparr>) = office_of s"
  by (auto simp: office_of_def map_of_setitem fun_eq_iff)

lemma session_of_put:
  "session_cipher (s\<lparr>sv_client_db := dict_setitem (sv_client_db s) t c\<rparr>) =
     (session_cipher s)(t := cl_cipher c)"
  "session_tx (s\<lparr>sv_client_db := dict_setitem (sv_client_db s) t c\<rparr>) =
     (session_tx s)(t := cl_tx_nonce c)"
  "session_rx (s\<lparr>sv_client_db := dict_setitem (sv_client_db s) t c\<rparr>) =
     (session_rx s)(t := cl_rx_nonce c)"
  by (auto simp: session_cipher_def session_tx_def session_rx_def map_of_setitem fun_eq_iff)

lemma session_of_other [simp]:
  "session_cipher (s\<lparr>sv_db := d\<rparr>) = session_cipher s"
  "session_tx (s\<lparr>sv_db := d\<rparr>) = session_tx s"
  "session_rx (s\<lparr>sv_db := d\<rparr>) = session_rx s"
  "session_cipher (s\<lparr>sv_address_book := b\<rparr>) = session_cipher s"
  "session_tx (s\<lparr>sv_address_book := b\<rparr>) = session_tx s"
  "session_rx (s\<lparr>sv_address_book := b\<rparr>) = session_rx s"
  "session_cipher (s\<lparr>sv_db_locked := l\<rparr>) = session_cipher s"
  "session_tx (s\<lparr>sv_db_locked := l\<rparr>) = session_tx s"
  "session_rx (s\<lparr>sv_db_locked := l\<rparr>) = session_rx s"
  by (simp_all add: session_cipher_def session_tx_def session_rx_def fun_eq_iff)

lemma session_readyE:
  assumes "session_ready s u"
  obtains c key where "map_of (sv_client_db s) u = Some c" and "cl_cipher c = Some key"
    and "length key = 32" and "cl_tx_nonce c < 2 ^ 96"
    and "session_cipher s u = Some key" and "session_tx s u = cl_tx_nonce c"
    and "session_rx s u = cl_rx_nonce c"
  using assms
  by (auto simp: session_ready_def session_cipher_def session_tx_def session_rx_def
      split: bind_splits)

text \<open>An action changed the server from \<open>s\<close> to \<open>s1\<close> without touching a cipher, a counter or the
  lock.\<close>

definition same_session :: "server \<Rightarrow> server \<Rightarrow> bool" where
  "same_session s s1 \<longleftrightarrow>
     session_cipher s1 = session_cipher s \<and> session_tx s1 = session_tx s \<and>
     session_rx s1 = session_rx s \<and> sv_db_locked s1 = sv_db_locked s"

lemma same_session_refl [intro, simp]: "same_session s s"
  by (simp add: same_session_def)

lemma same_session_tables [intro, simp]:
  "same_session s (s\<lparr>sv_db := d\<rparr>)"
  "same_session s (s\<lparr>sv_address_book := b\<rparr>)"
  by (simp_all add: same_session_def)

lemma session_fields:
  "map_of (sv_client_db s) t = Some c \<Longrightarrow> session_cipher s t = cl_cipher c"
  "map_of (sv_client_db s) t = Some c \<Longrightarrow> session_tx s t = cl_tx_nonce c"
  "map_of (sv_client_db s) t = Some c \<Longrightarrow> session_rx s t = cl_rx_nonce c"
  by (simp_all add: session_cipher_def session_tx_def session_rx_def)

lemma same_session_put:
  "map_of (sv_client_db s) t = Some c \<Longrightarrow> cl_cipher c' = cl_cipher c \<Longrightarrow>
   cl_tx_nonce c' = cl_tx_nonce c \<Longrightarrow> cl_rx_nonce c' = cl_rx_nonce c \<Longrightarrow>
   same_session s (s\<lparr>sv_client_db := dict_setitem (sv_client_db s) t c'\<rparr>)"
  by (simp add: same_session_def session_of_put session_fields fun_upd_idem)

lemma same_session_trans [trans]:
  "same_session s s1 \<Longrightarrow> same_session s1 s2 \<Longrightarrow> same_session s s2"
  by (simp add: same_session_def)

section \<open>Answers\<close>

lemma get_session_eval [act_simps]:
  "map_of (sv_client_db s) u = Some c \<Longrightarrow> and_then (get_session u) f s = f c s"
  "map_of (sv_client_db s) u = None \<Longrightarrow> and_then (get_session u) f s = (Raise KeyError, [], s)"
  by (simp_all add: get_session_def and_then_def dict_getitem_def lift_def ret_def throw_def
      split: prod.split)

lemma put_session_eval [act_simps]:
  "put_session u c s = (Return (), [], s\<lparr>sv_client_db := dict_setitem (sv_client_db s) u c\<rparr>)"
  "and_then (put_session u c) f s = f () (s\<lparr>sv_client_db := dict_setitem (sv_client_db s) u c\<rparr>)"
  by (simp_all add: put_session_def act_simps)

lemma set_book_eval [act_simps]:
  "and_then (set_book k u) f s = f () (s\<lparr>sv_address_book := dict_setitem (sv_address_book s) k u\<rparr>)"
  by (simp add: set_book_def act_simps)

lemma del_book_eval [act_simps]:
  "dict_contains (sv_address_book s) k \<Longrightarrow>
   and_then (del_book k) f s = f () (s\<lparr>sv_address_book := AList.delete k (sv_address_book s)\<rparr>)"
  by (simp add: del_book_def and_then_def dict_delitem_def gets_def lift_def ret_def modify_def
      split: prod.split)

lemma reply_served:
  assumes "aead_ok cr" and "zstd_ok cr" and "session_ready s u" and "sendable data"
    and "same_session s s1" and "office_of s1 = w'"
  shows "served cr sock u data s w' (reply_next cr sock u data s1)"
proof -
  have "session_ready s1 u" using assms(3,5) by (simp add: session_ready_def same_session_def)
  then obtain c key where c: "map_of (sv_client_db s1) u = Some c" "cl_cipher c = Some key"
    "length key = 32" "cl_tx_nonce c < 2 ^ 96"
    and se: "session_cipher s1 u = Some key" "session_tx s1 u = cl_tx_nonce c"
      "session_rx s1 u = cl_rx_nonce c"
    by (rule session_readyE)
  obtain p where p: "construct_packet cr data (Some key) (cl_tx_nonce c) compressor_level = Inr p"
    "verify_packet cr p (Some key) (cl_tx_nonce c) = Inr (Inr data, None)"
    using construct_verify [OF assms(1,2) c(3,4), of data compressor_level] assms(4)
    by (auto simp: sendable_def)
  let ?c' = "c\<lparr>cl_tx_nonce := Suc (cl_tx_nonce c)\<rparr>"
  let ?s' = "s1\<lparr>sv_client_db := dict_setitem (sv_client_db s1) u ?c'\<rparr>"
  have "reply_next cr sock u data s1 = (Return Next, [SendAll sock p], ?s')"
    using c p(1) by (simp add: reply_next_def send_reply_def act_simps)
  moreover have "office_of ?s' = w'"
    using office_counters [OF c(1) mailbox_counters(1)] assms(6) by simp
  ultimately show ?thesis
    using assms(5) c(2) se p(2)
    by (auto simp: served_def session_of_put same_session_def fun_upd_idem)
qed

lemma sendable_fixed [simp]: "sendable ACK" "sendable (err_answer n)"
  by (simp_all add: sendable_def ACK_def err_answer_def)

lemma error_served:
  assumes "aead_ok cr" and "zstd_ok cr" and "session_ready s u"
    and "same_session s s1" and "office_of s1 = w'" and "n \<in> {2, 3, 4, 5, 6, 7}"
  shows "served cr sock u (err_answer n) s w' (error_next cr sock u n s1)"
proof -
  have "error_next cr sock u n = reply_next cr sock u (err_answer n)"
    using assms(6) by (simp add: error_next_def ERR_DISPATCH_def err_answer_def act_simps)
  then show ?thesis using reply_served [OF assms(1-3)] assms(4,5) by simp
qed

lemma served_with_lock:
  assumes "\<not> sv_db_locked s"
    and "served cr sock u data (s\<lparr>sv_db_locked := True\<rparr>) w' (m (s\<lparr>sv_db_locked := True\<rparr>))"
  shows "served cr sock u data s w' (with_db_lock m s)"
  using assms by (auto simp: served_def act_simps office_simps)

section \<open>Operations\<close>

lemma session_ready_locked [simp]: "session_ready (s\<lparr>sv_db_locked := b\<rparr>) u = session_ready s u"
  by (simp add: session_ready_def)

lemma length_u32_fields [simp]: "length (u32_fields bs) = 4 * length bs"
  unfolding u32_fields_def by (simp only: length_concat_u32 length_map)

lemma fields_slices:
  assumes "\<forall>b \<in> set bs. length b < 2 ^ 32" and "length bs = n"
  shows "unpack_Is n (take (4 * n) (u32_fields bs @ rest)) = Inr (map length bs)"
proof -
  have "take (4 * n) (u32_fields bs @ rest) = u32_fields bs" using assms(2) by simp
  then show ?thesis
    using unpack_pack_Is [of "map length bs" n] assms by (simp add: u32_fields_def del: map_map)
qed

lemma slice_after:
  "length pre = i \<Longrightarrow> slice (pre @ rest) (i + j) (i + k) = slice rest j k"
  by (simp add: slice_def)

lemma slice_head: "slice (x @ rest) 0 (length x) = x"
  by (simp add: slice_def)

lemma slice_skip: "slice (x @ rest) (length x + j) (length x + k) = slice rest j k"
  by (simp add: slice_def)

lemma set_served:
  assumes "aead_ok cr" "zstd_ok cr" "session_ready s u" "\<not> sv_db_locked s"
    and "command_ok (CSet k v)"
  shows "served cr sock u ACK s ((office_of s)\<lparr>of_db := (map_of (sv_db s))(k \<mapsto> v)\<rparr>)
    (op_set cr sock u (u32_fields [k, v] @ k @ v) s)"
proof -
  let ?val = "u32_fields [k, v] @ k @ v"
  have u: "unpack_Is 2 (take 8 ?val) = Inr [length k, length v]"
    using assms(5) fields_slices [of "[k, v]" 2] by (simp add: command_ok_def)
  have sl: "slice ?val 8 (8 + length k) = k"
    "slice ?val (8 + length k) (8 + length k + length v) = v"
    by (simp_all add: slice_def)
  let ?s = "s\<lparr>sv_db_locked := True\<rparr>"
  let ?s1 = "?s\<lparr>sv_db := dict_setitem (sv_db s) k v\<rparr>"
  have "served cr sock u ACK ?s ((office_of s)\<lparr>of_db := (map_of (sv_db s))(k \<mapsto> v)\<rparr>)
      (reply_next cr sock u ACK ?s1)"
    using assms by (intro reply_served) (simp_all add: office_simps map_of_setitem)
  then show ?thesis
    unfolding op_set_def using assms(4) u sl
    by (intro served_with_lock) (simp_all add: act_simps Let_def)
qed

lemma get_served:
  assumes "aead_ok cr" "zstd_ok cr" "session_ready s u" "\<not> sv_db_locked s"
    and "office_step rnd u (CGet k) (office_of s) = Some (a, w')" and "sendable (answer_bytes a)"
  shows "served cr sock u (answer_bytes a) s w' (op_get cr sock u k s)"
  unfolding op_get_def
  using assms(4-) reply_served [OF assms(1,2), of "s\<lparr>sv_db_locked := True\<rparr>" u]
    error_served [OF assms(1,2), of "s\<lparr>sv_db_locked := True\<rparr>" u] assms(3)
  by (intro served_with_lock)
    (auto simp: act_simps office_simps dict_contains_map_of dict_getitem_def
      split: option.splits if_splits)

lemma delete_served:
  assumes "aead_ok cr" "zstd_ok cr" "session_ready s u" "\<not> sv_db_locked s"
    and "office_step rnd u (CDelete k) (office_of s) = Some (a, w')"
  shows "served cr sock u (answer_bytes a) s w' (op_delete cr sock u k s)"
  unfolding op_delete_def
  using assms(4-) reply_served [OF assms(1,2), of "s\<lparr>sv_db_locked := True\<rparr>" u]
    error_served [OF assms(1,2), of "s\<lparr>sv_db_locked := True\<rparr>" u] assms(3)
  by (intro served_with_lock)
    (auto simp: act_simps office_simps dict_contains_map_of dict_delitem_def map_of_delete
      split: option.splits)

lemma register_served:
  assumes "aead_ok cr" "zstd_ok cr" "session_ready s u"
    and "office_step rnd u (CRegister b) (office_of s) = Some (a, w')"
  shows "served cr sock u (answer_bytes a) s w' (op_register cr sock u b s)"
proof -
  obtain c where c: "map_of (sv_client_db s) u = Some c"
    using assms(3) by (elim session_readyE)
  let ?k = "decode_latin1 b"
  show ?thesis
  proof (cases "map_of (sv_address_book s) ?k")
    case None
    let ?c = "c\<lparr>cl_addresses_owned := cl_addresses_owned c @ [?k]\<rparr>"
    let ?s1 = "s\<lparr>sv_client_db := dict_setitem (sv_client_db s) u ?c\<rparr>"
    let ?s2 = "?s1\<lparr>sv_address_book := dict_setitem (sv_address_book s) ?k u\<rparr>"
    have "same_session s ?s1" using c by (intro same_session_put) auto
    then have "same_session s ?s2" by (rule same_session_trans) (rule same_session_tables)
    moreover have "office_of ?s2 = w'" "a = Ack"
      using assms(4) None c by (auto simp: office_simps map_of_setitem Let_def)
    ultimately have "served cr sock u ACK s w' (reply_next cr sock u ACK ?s2)"
      using assms(1-3) by (intro reply_served) simp_all
    then show ?thesis
      using None c \<open>a = Ack\<close> by (simp add: op_register_def act_simps dict_contains_map_of Let_def)
  next
    case (Some v)
    then show ?thesis
      using assms error_served [OF assms(1-3), of s w' 5]
      by (auto simp: op_register_def act_simps dict_contains_map_of office_simps Let_def)
  qed
qed

lemma unregister_served:
  assumes "aead_ok cr" "zstd_ok cr" "session_ready s u"
    and "office_step rnd u (CUnregister b) (office_of s) = Some (a, w')"
  shows "served cr sock u (answer_bytes a) s w' (op_unregister cr sock u b s)"
proof -
  obtain c where c: "map_of (sv_client_db s) u = Some c"
    using assms(3) by (elim session_readyE)
  let ?k = "decode_latin1 b"
  show ?thesis
  proof (cases "?k \<in> set (cl_addresses_owned c)")
    case True
    let ?c = "c\<lparr>cl_addresses_owned := remove1 ?k (cl_addresses_owned c)\<rparr>"
    let ?s1 = "s\<lparr>sv_client_db := dict_setitem (sv_client_db s) u ?c\<rparr>"
    let ?s2 = "?s1\<lparr>sv_address_book := AList.delete ?k (sv_address_book s)\<rparr>"
    have "same_session s ?s1" using c by (intro same_session_put) auto
    then have "same_session s ?s2" by (rule same_session_trans) (rule same_session_tables)
    moreover have "office_of ?s2 = w'" "a = Ack" and known: "map_of (sv_address_book s) ?k \<noteq> None"
      using assms(4) True c by (auto simp: office_simps map_of_delete Let_def split: if_splits)
    ultimately have "served cr sock u ACK s w' (reply_next cr sock u ACK ?s2)"
      using assms(1-3) by (intro reply_served) simp_all
    then show ?thesis
      using True c known \<open>a = Ack\<close> by (simp add: op_unregister_def act_simps dict_contains_map_of Let_def)
  next
    case False
    then show ?thesis
      using assms c error_served [OF assms(1-3), of s w' 5]
      by (auto simp: op_unregister_def act_simps office_simps Let_def)
  qed
qed

lemma latin1_encode: "latin1 s \<Longrightarrow> encode_latin1 s = Inr (latin1_bytes s)"
  by (simp add: encode_latin1_Inr latin1_bytes_def)

lemma whoami_served:
  assumes "aead_ok cr" "zstd_ok cr" "session_ready s u"
    and "office_step rnd u CWhoami (office_of s) = Some (a, w')" and "sendable (answer_bytes a)"
  shows "served cr sock u (answer_bytes a) s w' (op_whoami cr sock u s)"
  using assms(4,5) reply_served [OF assms(1-3)]
  by (auto simp: op_whoami_def act_simps latin1_encode split: if_splits)

lemma find_served:
  assumes "aead_ok cr" "zstd_ok cr" "session_ready s u"
    and "office_step rnd u (CFind b) (office_of s) = Some (a, w')" and "sendable (answer_bytes a)"
  shows "served cr sock u (answer_bytes a) s w' (op_whohas cr sock u b s)"
  using assms(4,5) reply_served [OF assms(1-3)] error_served [OF assms(1-3), of s w' 5]
  by (auto simp: op_whohas_def act_simps latin1_encode dict_contains_map_of dict_getitem_def
      office_simps split: if_splits option.splits)

lemma request_served:
  assumes "aead_ok cr" "zstd_ok cr" "session_ready s u" "command_ok (CRequest t r k)"
    and "office_step rnd u (CRequest t r k) (office_of s) = Some (a, w')"
    and "sendable (answer_bytes a)"
  shows "served cr sock u (answer_bytes a) s w'
    (op_put_inbox cr rnd sock u (u32_fields [t, r, k] @ t @ r @ k) s)"
proof -
  let ?val = "u32_fields [t, r, k] @ t @ r @ k"
  let ?t = "decode_latin1 t"
  have u: "unpack_Is 3 (take 12 ?val) = Inr [length t, length r, length k]"
    using assms(4) fields_slices [of "[t, r, k]" 3] by (simp add: command_ok_def)
  have sl: "slice ?val 12 (12 + length t) = t"
    "slice ?val (12 + length t) (12 + length t + length r) = r"
    "slice ?val (12 + length t + length r) (12 + length t + length r + length k) = k"
    by (simp_all add: slice_def)
  obtain c where c: "map_of (sv_client_db s) ?t = Some c" and l: "latin1 u"
    and a: "a = Value (uuid4_bytes rnd)"
    using assms(5) by (auto simp: office_simps Let_def split: option.splits if_splits)
  let ?c = "c\<lparr>cl_inbox := cl_inbox c @ [\<lparr>rq_return_uuid = latin1_bytes u, rq_key = k,
     rq_request = r, rq_request_uuid = uuid4_bytes rnd\<rparr>]\<rparr>"
  let ?s1 = "s\<lparr>sv_client_db := dict_setitem (sv_client_db s) ?t ?c\<rparr>"
  have "same_session s ?s1" using c by (intro same_session_put) auto
  moreover have "office_of ?s1 = w'"
    using assms(5) c l by (auto simp: office_simps Let_def)
  ultimately have "served cr sock u (uuid4_bytes rnd) s w' (reply_next cr sock u (uuid4_bytes rnd) ?s1)"
    using assms(1-3,6) a by (intro reply_served) simp_all
  then show ?thesis
    using u sl c a l by (simp add: op_put_inbox_def act_simps Let_def latin1_encode)
qed

lemma pack_fields:
  assumes "\<forall>b \<in> set bs. length b < 2 ^ 32"
  shows "pack_Is (map length bs) = Inr (u32_fields bs)"
  unfolding u32_fields_def by (rule pack_Is_ok) (use assms in simp)

lemma sendable_fields:
  assumes "sendable (u32_fields bs @ concat bs)"
  shows "\<forall>b \<in> set bs. length b < 2 ^ 32"
proof
  fix b assume "b \<in> set bs"
  then have "length b \<le> length (concat bs)"
    by (induction bs) (auto simp: le_supI2 trans_le_add2)
  with assms show "length b < 2 ^ 32" by (simp add: sendable_def)
qed

lemma read_inbox_served:
  assumes "aead_ok cr" "zstd_ok cr" "session_ready s u"
    and "office_step rnd u CReadInbox (office_of s) = Some (a, w')"
    and "sendable (answer_bytes a)"
  shows "served cr sock u (answer_bytes a) s w' (op_get_inbox cr sock u s)"
proof -
  obtain c r rs where c: "map_of (sv_client_db s) u = Some c" "cl_inbox c = r # rs"
    and a: "a = Value (inbox_message r)"
    using assms(4) by (auto simp: office_simps split: option.splits list.splits)
  let ?fs = "[rq_return_uuid r, rq_request r, rq_key r, rq_request_uuid r]"
  have "\<forall>b \<in> set ?fs. length b < 2 ^ 32"
    using assms(5) a by (intro sendable_fields) (simp add: inbox_message_def)
  then have "pack_Is (map length ?fs) = Inr (u32_fields ?fs)" by (rule pack_fields)
  then have pk: "pack_Is [length (rq_return_uuid r), length (rq_request r), length (rq_key r),
      length (rq_request_uuid r)] = Inr (u32_fields ?fs)" by simp
  let ?s1 = "s\<lparr>sv_client_db := dict_setitem (sv_client_db s) u (c\<lparr>cl_inbox := rs\<rparr>)\<rparr>"
  have "same_session s ?s1" using c by (intro same_session_put) auto
  moreover have "office_of ?s1 = w'" using assms(4) c by (auto simp: office_simps)
  ultimately have "served cr sock u (inbox_message r) s w' (reply_next cr sock u (inbox_message r) ?s1)"
    using assms(1-3,5) a by (intro reply_served) simp_all
  then show ?thesis
    using c a pk by (simp add: op_get_inbox_def act_simps inbox_message_def del: pack_Is.simps)
qed

lemma respond_served:
  assumes "aead_ok cr" "zstd_ok cr" "session_ready s u" "command_ok (CRespond t r k i)"
    and "office_step rnd u (CRespond t r k i) (office_of s) = Some (a, w')"
  shows "served cr sock u (answer_bytes a) s w'
    (op_put_outbox cr sock u (u32_fields [t, r, k, i] @ t @ r @ k @ i) s)"
proof -
  let ?val = "u32_fields [t, r, k, i] @ t @ r @ k @ i"
  let ?t = "decode_latin1 t"
  have u: "unpack_Is 4 (take 16 ?val) = Inr [length t, length r, length k, length i]"
    using assms(4) fields_slices [of "[t, r, k, i]" 4] by (simp add: command_ok_def)
  have sl: "slice ?val 16 (16 + length t) = t"
    "slice ?val (16 + length t) (16 + length t + length r) = r"
    "slice ?val (16 + length t + length r) (16 + length t + length r + length k) = k"
    "slice ?val (16 + length t + length r + length k)
       (16 + length t + length r + length k + length i) = i"
    by (simp_all add: slice_def)
  obtain c where c: "map_of (sv_client_db s) ?t = Some c" and a: "a = Ack"
    using assms(5) by (auto simp: office_simps Let_def split: option.splits)
  let ?c = "c\<lparr>cl_outbox := dict_setitem (cl_outbox c) i
     \<lparr>rs_key = k, rs_response = r, rs_response_uuid = i\<rparr>\<rparr>"
  let ?s1 = "s\<lparr>sv_client_db := dict_setitem (sv_client_db s) ?t ?c\<rparr>"
  have "same_session s ?s1" using c by (intro same_session_put) auto
  moreover have "office_of ?s1 = w'"
    using assms(5) c by (auto simp: office_simps Let_def map_of_setitem)
  ultimately have "served cr sock u ACK s w' (reply_next cr sock u ACK ?s1)"
    using assms(1-3) by (intro reply_served) simp_all
  then show ?thesis
    using u sl c a by (simp add: op_put_outbox_def act_simps Let_def)
qed

lemma read_outbox_served:
  assumes "aead_ok cr" "zstd_ok cr" "session_ready s u"
    and "office_step rnd u (CReadOutbox i) (office_of s) = Some (a, w')"
    and "sendable (answer_bytes a)"
  shows "served cr sock u (answer_bytes a) s w' (op_get_outbox cr sock u i s)"
proof -
  obtain c where c: "map_of (sv_client_db s) u = Some c"
    using assms(3) by (elim session_readyE)
  show ?thesis
  proof (cases "map_of (cl_outbox c) i")
    case None
    then show ?thesis
      using assms c error_served [OF assms(1-3), of s w' 7]
      by (auto simp: op_get_outbox_def act_simps office_simps dict_contains_map_of)
  next
    case (Some r)
    then have a: "a = Value (outbox_message r)"
      using assms(4) c by (auto simp: office_simps)
    have "\<forall>b \<in> set [rs_key r, rs_response r]. length b < 2 ^ 32"
      using assms(5) a by (intro sendable_fields) (simp add: outbox_message_def)
    then have "pack_Is (map length [rs_key r, rs_response r]) = Inr (u32_fields [rs_key r, rs_response r])"
      by (rule pack_fields)
    then have pk: "pack_Is [length (rs_key r), length (rs_response r)] =
        Inr (u32_fields [rs_key r, rs_response r])" by simp
    let ?c = "c\<lparr>cl_outbox := AList.delete i (cl_outbox c)\<rparr>"
    let ?s1 = "s\<lparr>sv_client_db := dict_setitem (sv_client_db s) u ?c\<rparr>"
    have "same_session s ?s1" using c by (intro same_session_put) auto
    moreover have "office_of ?s1 = w'"
      using assms(4) c Some by (auto simp: office_simps map_of_delete)
    ultimately have "served cr sock u (outbox_message r) s w' (reply_next cr sock u (outbox_message r) ?s1)"
      using assms(1-3,5) a by (intro reply_served) simp_all
    then show ?thesis
      using c Some a pk
      by (simp add: op_get_outbox_def act_simps dict_contains_map_of dict_getitem_def
          outbox_message_def del: pack_Is.simps)
  qed
qed

section \<open>The dispatcher\<close>

lemma dispatch_server:
  "ty AND 0x80 \<noteq> 0 \<Longrightarrow> dispatch cr rnd sock u (ty # value) =
     server_request cr sock u (ty AND 0xF) value"
  "ty AND 0x80 = 0 \<Longrightarrow> dispatch cr rnd sock u (ty # value) =
     client_request cr rnd sock u (ty AND 0xF) value"
  by (simp_all add: dispatch_def)

lemma dispatch_office:
  assumes "aead_ok cr" "zstd_ok cr" "session_ready s u" "\<not> sv_db_locked s" "command_ok cmd"
    and "office_step rnd u cmd (office_of s) = Some (a, w')"
    and "sendable (answer_bytes a)"
  shows "served cr sock u (answer_bytes a) s w' (dispatch cr rnd sock u (command_bytes cmd) s)"
proof (cases cmd)
  case (CSet k v)
  then show ?thesis
    using assms set_served [OF assms(1-4), of k v]
    by (auto simp: dispatch_server server_request_def office_simps)
next
  case (CGet k)
  then show ?thesis
    using assms get_served [OF assms(1-4)] by (simp add: dispatch_server server_request_def)
next
  case (CDelete k)
  then show ?thesis
    using assms delete_served [OF assms(1-4)] by (simp add: dispatch_server server_request_def)
next
  case (CRegister k)
  then show ?thesis
    using assms register_served [OF assms(1-3)] by (simp add: dispatch_server server_request_def)
next
  case (CUnregister k)
  then show ?thesis
    using assms unregister_served [OF assms(1-3)] by (simp add: dispatch_server server_request_def)
next
  case CWhoami
  then show ?thesis
    using assms whoami_served [OF assms(1-3)] by (simp add: dispatch_server server_request_def)
next
  case (CFind k)
  then show ?thesis
    using assms find_served [OF assms(1-3)] by (simp add: dispatch_server client_request_def)
next
  case (CRequest t r k)
  then show ?thesis
    using assms request_served [OF assms(1-3)] by (simp add: dispatch_server client_request_def)
next
  case CReadInbox
  then show ?thesis
    using assms read_inbox_served [OF assms(1-3)] by (simp add: dispatch_server client_request_def)
next
  case (CRespond t r k i)
  then show ?thesis
    using assms respond_served [OF assms(1-3)] by (simp add: dispatch_server client_request_def)
next
  case (CReadOutbox i)
  then show ?thesis
    using assms read_outbox_served [OF assms(1-3)] by (simp add: dispatch_server client_request_def)
qed

end
