(* ===== verification/Exchange.thy ===== *)
theory Exchange
  imports OfficeRefine
begin

text \<open>
  Client and server together. \<open>call\<close> is one method call of \<^verbatim>\<open>Client\<close>: the request goes through
  the client's send queue, one pass of the server's handler and the client's receive loop,
  and \<open>receive\<close> returns the reply. \<open>run_calls\<close> is any interleaving of the calls of any number
  of connected clients. The lemmas show that such a run returns the answers of the post
  office and keeps both ends of every connection in step.
\<close>

section \<open>The client's requests and replies\<close>

lemma requests_are_commands:
  "primitive key = Inr k \<Longrightarrow> get_request key = Inr (command_bytes (CGet k))"
  "primitive key = Inr k \<Longrightarrow> delete_request key = Inr (command_bytes (CDelete k))"
  "primitive key = Inr k \<Longrightarrow> register_request key = Inr (command_bytes (CRegister k))"
  "primitive key = Inr k \<Longrightarrow> unregister_request key = Inr (command_bytes (CUnregister k))"
  "primitive key = Inr k \<Longrightarrow> find_request key = Inr (command_bytes (CFind k))"
  "whoami_request = command_bytes CWhoami"
  "read_inbox_request = command_bytes CReadInbox"
  "read_outbox_request i = command_bytes (CReadOutbox i)"
  by (simp_all add: get_request_def delete_request_def register_request_def unregister_request_def
      find_request_def keyed_request_def whoami_request_def read_inbox_request_def
      read_outbox_request_def)

lemma convert_ok:
  "\<forall>b \<in> set bs. length b < 2 ^ 32 \<Longrightarrow> convert_to_length_format bs = Inr (u32_fields bs)"
  unfolding convert_to_length_format_def by (rule pack_fields)

lemma set_request_command:
  "primitive key = Inr k \<Longrightarrow> primitive v = Inr x \<Longrightarrow> command_ok (CSet k x) \<Longrightarrow>
   set_request key v = Inr (command_bytes (CSet k x))"
  by (simp add: set_request_def command_ok_def convert_ok)

lemma request_request_command:
  "primitive request = Inr r \<Longrightarrow> primitive key = Inr k \<Longrightarrow> command_ok (CRequest t r k) \<Longrightarrow>
   request_request t request key = Inr (command_bytes (CRequest t r k))"
  by (simp add: request_request_def command_ok_def convert_ok)

lemma respond_request_command:
  "primitive response = Inr r \<Longrightarrow> primitive key = Inr k \<Longrightarrow> command_ok (CRespond t r k i) \<Longrightarrow>
   respond_request t response key i = Inr (command_bytes (CRespond t r k i))"
  by (simp add: respond_request_def command_ok_def convert_ok)

lemma read_inbox_reply_message:
  assumes "\<forall>b \<in> set [rq_return_uuid r, rq_request r, rq_key r, rq_request_uuid r]. length b < 2 ^ 32"
  shows "read_inbox_reply (inbox_message r) = Inr r"
proof -
  have u: "unpack_Is 4 (take 16 (inbox_message r)) =
      Inr [length (rq_return_uuid r), length (rq_request r), length (rq_key r), length (rq_request_uuid r)]"
    using fields_slices [OF assms, of 4] by (simp add: inbox_message_def)
  show ?thesis
    unfolding read_inbox_reply_def u by (simp add: Let_def inbox_message_def slice_def)
qed

lemma read_outbox_reply_message:
  assumes "\<forall>b \<in> set [rs_key r, rs_response r]. length b < 2 ^ 32"
    and "rs_key r \<noteq> [] \<or> rs_response r \<noteq> []"
  shows "read_outbox_reply (rs_response_uuid r) (outbox_message r) = Inr r"
proof -
  have u: "unpack_Is 2 (take 8 (outbox_message r)) = Inr [length (rs_key r), length (rs_response r)]"
    using fields_slices [OF assms(1), of 2] by (simp add: outbox_message_def)
  have "\<not> length (outbox_message r) < 9"
    using assms(2) by (auto simp: outbox_message_def not_less neq_Nil_conv)
  then show ?thesis
    unfolding read_outbox_reply_def u by (simp add: Let_def outbox_message_def slice_def)
qed

section \<open>One call\<close>

definition call ::
  "crypto \<Rightarrow> bytes \<Rightarrow> sock \<Rightarrow> pystr \<Rightarrow> bytes \<Rightarrow> RawClient \<Rightarrow> server \<Rightarrow>
     (bytes \<times> RawClient \<times> server) option" where
  "call cr rnd sock u request c s =
     (case rc_send cr request c of Inl e \<Rightarrow> None
      | Inr c1 \<Rightarrow>
     (case rc_send_step c1 of None \<Rightarrow> None
      | Some (packet, c2) \<Rightarrow>
     (case handle_packet cr rnd sock u (Some packet) s of
        (Return Next, [SendAll _ reply], s') \<Rightarrow>
          (case rc_receive_frame cr reply c2 of (True, c3) \<Rightarrow>
             (case rc_receive c3 of Inl e \<Rightarrow> None | Inr (data, c4) \<Rightarrow> Some (data, c4, s'))
           | _ \<Rightarrow> None)
      | _ \<Rightarrow> None)))"

text \<open>Both ends agree: same 32-byte key, each side's send counter is the other's receive
  counter, and nothing is queued.\<close>

definition in_sync :: "RawClient \<Rightarrow> server \<Rightarrow> pystr \<Rightarrow> bool" where
  "in_sync c s u \<longleftrightarrow>
     (\<exists>key. rc_cipher c = Some key \<and> length key = 32 \<and> session_cipher s u = Some key) \<and>
     rc_tx_nonce c = session_rx s u \<and> rc_rx_nonce c = session_tx s u \<and>
     rc_tasks c = [] \<and> rc_input_packets c = []"

text \<open>The client's receive loop queues this payload.\<close>

definition client_accepts :: "bytes \<Rightarrow> bool" where
  "client_accepts data \<longleftrightarrow> \<not> (take 3 data = ERR_PREFIX \<and> data \<noteq> OLD_ACK)"

lemma handle_packet_verified:
  assumes "map_of (sv_client_db s) u = Some c"
    and "verify_packet cr p (cl_cipher c) (cl_rx_nonce c) = Inr (Inr data, r)"
  shows "handle_packet cr rnd sock u (Some p) s =
    dispatch cr rnd sock u data
      (s\<lparr>sv_client_db := dict_setitem (sv_client_db s) u (c\<lparr>cl_rx_nonce := cl_rx_nonce c + 1\<rparr>)\<rparr>)"
  using assms by (simp add: handle_packet_def handle_frame_def act_simps)

lemma served_handle_packet:
  assumes cr: "aead_ok cr" "zstd_ok cr" and sync: "in_sync c s u"
    and bounds: "rc_tx_nonce c < 2 ^ 96" "rc_rx_nonce c < 2 ^ 96"
    and "\<not> sv_db_locked s" "command_ok cmd" "sendable (command_bytes cmd)"
    and "office_step rnd u cmd (office_of s) = Some (a, w')" "sendable (answer_bytes a)"
    and "construct_packet cr (command_bytes cmd) (rc_cipher c) (rc_tx_nonce c) client_level = Inr p"
  shows "\<exists>q s'. handle_packet cr rnd sock u (Some p) s = (Return Next, [SendAll sock q], s') \<and>
     verify_packet cr q (rc_cipher c) (rc_rx_nonce c) = Inr (Inr (answer_bytes a), None) \<and>
     office_of s' = w' \<and> session_cipher s' = session_cipher s \<and>
     session_tx s' = (session_tx s)(u := Suc (session_tx s u)) \<and>
     session_rx s' = (session_rx s)(u := Suc (session_rx s u)) \<and> \<not> sv_db_locked s'"
proof -
  obtain key k where key: "rc_cipher c = Some key" "length key = 32" "session_cipher s u = Some key"
    and k: "map_of (sv_client_db s) u = Some k"
    using sync by (auto simp: in_sync_def session_cipher_def split: bind_splits)
  let ?k = "k\<lparr>cl_rx_nonce := cl_rx_nonce k + 1\<rparr>"
  let ?s = "s\<lparr>sv_client_db := dict_setitem (sv_client_db s) u ?k\<rparr>"
  note sess = session_fields [OF k]
  have s1: "session_cipher ?s = session_cipher s" "session_tx ?s = session_tx s"
    "session_rx ?s = (session_rx s)(u := Suc (session_rx s u))"
    using sess by (simp_all add: session_of_put fun_upd_idem)
  have "verify_packet cr p (Some key) (rc_tx_nonce c) = Inr (Inr (command_bytes cmd), None)"
    using construct_verify [OF cr key(2) bounds(1), of "command_bytes cmd" client_level] assms(8,11) key(1)
    by (auto simp: sendable_def)
  then have hp: "handle_packet cr rnd sock u (Some p) s = dispatch cr rnd sock u (command_bytes cmd) ?s"
    using handle_packet_verified [OF k] sync key sess by (simp add: in_sync_def)
  have "served cr sock u (answer_bytes a) ?s w' (dispatch cr rnd sock u (command_bytes cmd) ?s)"
  proof (rule dispatch_office [OF cr])
    show "session_ready ?s u"
      using s1 key sync bounds by (simp add: session_ready_def in_sync_def)
    show "office_step rnd u cmd (office_of ?s) = Some (a, w')"
      using office_counters [OF k mailbox_counters(2)] assms(9) by simp
  qed (use assms in simp_all)
  then show ?thesis
    using hp s1 sync key assms(6) by (auto simp: served_def in_sync_def)
qed

lemma call_served:
  assumes "aead_ok cr" "zstd_ok cr" and sync: "in_sync c s u"
    and bounds: "rc_tx_nonce c < 2 ^ 96" "rc_rx_nonce c < 2 ^ 96"
    and "\<not> sv_db_locked s" "command_ok cmd" "sendable (command_bytes cmd)"
    and "office_step rnd u cmd (office_of s) = Some (a, w')" "sendable (answer_bytes a)"
    and "client_accepts (answer_bytes a)"
  shows "\<exists>c' s'. call cr rnd sock u (command_bytes cmd) c s = Some (answer_bytes a, c', s') \<and>
     office_of s' = w' \<and> in_sync c' s' u \<and> \<not> sv_db_locked s' \<and>
     rc_tx_nonce c' = Suc (rc_tx_nonce c) \<and> rc_rx_nonce c' = Suc (rc_rx_nonce c) \<and>
     (\<forall>d v. v \<noteq> u \<longrightarrow> in_sync d s v \<longrightarrow> in_sync d s' v)"
proof -
  obtain key where key: "rc_cipher c = Some key" "length key = 32" "session_cipher s u = Some key"
    using sync by (auto simp: in_sync_def)
  obtain p where p: "construct_packet cr (command_bytes cmd) (rc_cipher c) (rc_tx_nonce c) client_level = Inr p"
    using construct_verify [OF assms(1,2) key(2) bounds(1), of "command_bytes cmd" client_level]
      assms(8) key(1) by (auto simp: sendable_def)
  from served_handle_packet [OF assms(1-10) p, of sock] obtain q s' where
    q: "handle_packet cr rnd sock u (Some p) s = (Return Next, [SendAll sock q], s')"
      "verify_packet cr q (rc_cipher c) (rc_rx_nonce c) = Inr (Inr (answer_bytes a), None)"
    and s': "office_of s' = w'" "session_cipher s' = session_cipher s"
      "session_tx s' = (session_tx s)(u := Suc (session_tx s u))"
      "session_rx s' = (session_rx s)(u := Suc (session_rx s u))" "\<not> sv_db_locked s'"
    by blast
  let ?c = "c\<lparr>rc_tx_nonce := Suc (rc_tx_nonce c), rc_rx_nonce := Suc (rc_rx_nonce c)\<rparr>"
  have "call cr rnd sock u (command_bytes cmd) c s = Some (answer_bytes a, ?c, s')"
    using sync assms(11) p q
    by (simp add: call_def rc_send_def rc_send_step_def rc_receive_frame_def rc_receive_def
        client_accepts_def in_sync_def Let_def)
  moreover have "in_sync ?c s' u" using sync s' by (auto simp: in_sync_def)
  moreover have "in_sync d s' v" if "v \<noteq> u" "in_sync d s v" for d v
    using that s' by (simp add: in_sync_def)
  ultimately show ?thesis using s'(1,5) by auto
qed

text \<open>A frame that does not verify: it is answered with its error code, both counters of the
  session move, and the connection is closed.\<close>

lemma bad_frame_closes:
  assumes "aead_ok cr" "zstd_ok cr" and "map_of (sv_client_db s) u = Some k" "cl_cipher k = Some key"
    and "length key = 32" "cl_tx_nonce k < 2 ^ 96"
    and "verify_packet cr p (Some key) (cl_rx_nonce k) = Inr (Inl code, r)"
  obtains q s' where "handle_packet cr rnd sock u (Some p) s =
      (Return (Stop False), [SendAll sock q, CloseSock sock], s')"
    and "session_rx s' u = Suc (session_rx s u)" and "session_tx s' u = Suc (session_tx s u)"
proof -
  have code: "code \<in> {2, 3}" using verify_packet_codes [OF assms(7)] by simp
  let ?k = "k\<lparr>cl_rx_nonce := cl_rx_nonce k + 1\<rparr>"
  let ?s = "s\<lparr>sv_client_db := dict_setitem (sv_client_db s) u ?k\<rparr>"
  have "session_ready ?s u"
    using assms(3-6) by (simp add: session_ready_def session_of_put)
  then have "served cr sock u (err_answer code) ?s (office_of ?s) (error_next cr sock u code ?s)"
    using code by (intro error_served [OF assms(1,2)]) auto
  then obtain q s' where q: "error_next cr sock u code ?s = (Return Next, [SendAll sock q], s')"
    "session_tx s' = (session_tx ?s)(u := Suc (session_tx ?s u))" "session_rx s' = session_rx ?s"
    by (auto simp: served_def)
  have "handle_packet cr rnd sock u (Some p) s = (Return (Stop False), [SendAll sock q, CloseSock sock], s')"
    using assms(3,4,7)
    by (simp add: handle_packet_def handle_frame_def act_simps
        and_then_return [of "error_next cr sock u code" ?s, OF q(1), simplified])
  moreover have "session_rx s' u = Suc (session_rx s u)" "session_tx s' u = Suc (session_tx s u)"
    using q(2,3) assms(3) by (simp_all add: session_of_put session_fields)
  ultimately show ?thesis by (rule that)
qed

section \<open>Runs of many clients\<close>

type_synonym request_event = "bytes \<times> pystr \<times> command"
  \<comment> \<open>the random bytes a \<open>uuid4()\<close> would draw, the calling session, the command\<close>

fun run_calls ::
  "crypto \<Rightarrow> (pystr \<Rightarrow> sock) \<Rightarrow> request_event list \<Rightarrow> (pystr \<Rightarrow> RawClient) \<Rightarrow> server \<Rightarrow>
     (bytes list \<times> (pystr \<Rightarrow> RawClient) \<times> server) option" where
  "run_calls cr socks [] cs s = Some ([], cs, s)"
| "run_calls cr socks ((rnd, u, cmd) # evs) cs s =
     (case call cr rnd (socks u) u (command_bytes cmd) (cs u) s of None \<Rightarrow> None
      | Some (data, c', s') \<Rightarrow>
          (case run_calls cr socks evs (cs(u := c')) s' of None \<Rightarrow> None
           | Some (ds, cs'', s'') \<Rightarrow> Some (data # ds, cs'', s'')))"

fun office_run :: "request_event list \<Rightarrow> office \<Rightarrow> (answer list \<times> office) option" where
  "office_run [] w = Some ([], w)"
| "office_run ((rnd, u, cmd) # evs) w =
     (case office_step rnd u cmd w of None \<Rightarrow> None
      | Some (a, w') \<Rightarrow>
          (case office_run evs w' of None \<Rightarrow> None | Some (as, w'') \<Rightarrow> Some (a # as, w'')))"

definition event_ok :: "request_event \<Rightarrow> bool" where
  "event_ok ev \<longleftrightarrow> (case ev of (rnd, u, cmd) \<Rightarrow> command_ok cmd \<and> sendable (command_bytes cmd))"

definition answer_ok :: "answer \<Rightarrow> bool" where
  "answer_ok a \<longleftrightarrow> sendable (answer_bytes a) \<and> client_accepts (answer_bytes a)"

definition connected :: "pystr set \<Rightarrow> nat \<Rightarrow> (pystr \<Rightarrow> RawClient) \<Rightarrow> server \<Rightarrow> bool" where
  "connected us n cs s \<longleftrightarrow>
     (\<forall>u \<in> us. in_sync (cs u) s u \<and> rc_tx_nonce (cs u) + n \<le> 2 ^ 96 \<and> rc_rx_nonce (cs u) + n \<le> 2 ^ 96)"

lemma run_calls_office:
  "aead_ok cr \<Longrightarrow> zstd_ok cr \<Longrightarrow> connected us (length evs + k) cs s \<Longrightarrow> \<not> sv_db_locked s \<Longrightarrow>
   \<forall>ev \<in> set evs. event_ok ev \<and> fst (snd ev) \<in> us \<Longrightarrow>
   office_run evs (office_of s) = Some (as, w') \<Longrightarrow> \<forall>a \<in> set as. answer_ok a \<Longrightarrow>
   \<exists>cs' s'. run_calls cr socks evs cs s = Some (map answer_bytes as, cs', s') \<and>
     office_of s' = w' \<and> connected us k cs' s' \<and> \<not> sv_db_locked s'"
proof (induction evs arbitrary: cs s as)
  case Nil
  then show ?case by simp
next
  case (Cons ev evs)
  obtain rnd u cmd where ev: "ev = (rnd, u, cmd)" by (cases ev)
  from Cons.prems(6) ev obtain a w1 as' where a: "office_step rnd u cmd (office_of s) = Some (a, w1)"
    "office_run evs w1 = Some (as', w')" "as = a # as'"
    by (auto split: option.splits)
  have u: "u \<in> us" "command_ok cmd" "sendable (command_bytes cmd)"
    using Cons.prems(5) ev by (auto simp: event_ok_def)
  have sync: "in_sync (cs u) s u" and b: "rc_tx_nonce (cs u) < 2 ^ 96" "rc_rx_nonce (cs u) < 2 ^ 96"
    using Cons.prems(3) u(1) by (auto simp: connected_def)
  have ok: "sendable (answer_bytes a)" "client_accepts (answer_bytes a)"
    using Cons.prems(7) a(3) by (simp_all add: answer_ok_def)
  obtain c' s1 where c1: "call cr rnd (socks u) u (command_bytes cmd) (cs u) s = Some (answer_bytes a, c', s1)"
    and s1: "office_of s1 = w1" "in_sync c' s1 u" "\<not> sv_db_locked s1"
      "rc_tx_nonce c' = Suc (rc_tx_nonce (cs u))" "rc_rx_nonce c' = Suc (rc_rx_nonce (cs u))"
      "\<forall>d v. v \<noteq> u \<longrightarrow> in_sync d s v \<longrightarrow> in_sync d s1 v"
    using call_served [OF Cons.prems(1,2) sync b Cons.prems(4) u(2,3) a(1) ok] by blast
  have con: "connected us (length evs + k) (cs(u := c')) s1"
    using Cons.prems(3) s1 by (auto simp: connected_def)
  have "\<forall>ev \<in> set evs. event_ok ev \<and> fst (snd ev) \<in> us" "\<forall>a \<in> set as'. answer_ok a"
    "office_run evs (office_of s1) = Some (as', w')"
    using Cons.prems(5,7) a(2,3) s1(1) by simp_all
  then obtain cs' s' where "run_calls cr socks evs (cs(u := c')) s1 = Some (map answer_bytes as', cs', s')"
    "office_of s' = w'" "connected us k cs' s'" "\<not> sv_db_locked s'"
    using Cons.IH [OF Cons.prems(1,2) con s1(3)] by blast
  then show ?case using ev c1 a(3) by auto
qed

end
