(* ===== verification/Handshake.thy ===== *)
theory Handshake
  imports Accept Exchange
begin

text \<open>
  The two sides of the handshake meet: with honest keys and the right password the client and
  the session the server files for it hold the same key and the same counters, so that
  \<open>in_sync\<close> holds and calls can start. The lemmas go phase by phase, then over any way the
  messages are cut into chunks.
\<close>

section \<open>Packets of the handshake\<close>

text \<open>\<open>packet_for cr key n data p\<close>: \<open>p\<close> is a frame that carries \<open>data\<close> under the counter \<open>n\<close>.\<close>

definition packet_for :: "crypto \<Rightarrow> bytes \<Rightarrow> nat \<Rightarrow> bytes \<Rightarrow> bytes \<Rightarrow> bool" where
  "packet_for cr key n data p \<longleftrightarrow>
     frame_ok p \<and> verify_packet cr p (Some key) n = Inr (Inr data, None)"

lemma packet_for_ne: "packet_for cr key n data p \<Longrightarrow> p \<noteq> []"
  by (auto simp: packet_for_def frame_ok_def)

lemma packet_for_verify: "packet_for cr key n data p \<Longrightarrow> verify_packet cr p (Some key) n = Inr (Inr data, None)"
  by (simp add: packet_for_def)

lemma construct_packet_for:
  assumes "aead_ok cr" "zstd_ok cr" "length key = 32" "n < 2 ^ 96" "sendable data"
  obtains p where "construct_packet cr data (Some key) n level = Inr p" and "packet_for cr key n data p"
proof -
  obtain p where "construct_packet cr data (Some key) n level = Inr p"
    "verify_packet cr p (Some key) n = Inr (Inr data, None)"
    using construct_verify [OF assms(1-4), of data level] assms(5) by (auto simp: sendable_def)
  then show ?thesis using that construct_frame_ok by (simp add: packet_for_def)
qed

definition handshake_key :: "crypto \<Rightarrow> bytes \<Rightarrow> bytes \<Rightarrow> bytes" where
  "handshake_key cr a b =
     (case x25519_exchange cr a (x25519_public cr b) of
        Some shared_secret \<Rightarrow> hkdf_derive cr HKDF_INFO shared_secret | None \<Rightarrow> [])"

lemma handshake_key_sides:
  assumes "x25519_ok cr"
  shows "x25519_exchange cr a (x25519_public cr b) \<noteq> None"
    and "handshake_key cr a b = handshake_key cr b a" and "length (handshake_key cr a b) = 32"
proof -
  obtain s where s: "x25519_exchange cr a (x25519_public cr b) = Some s"
    "x25519_exchange cr b (x25519_public cr a) = Some s"
    using assms unfolding x25519_ok_def by blast
  then show "x25519_exchange cr a (x25519_public cr b) \<noteq> None"
    and "handshake_key cr a b = handshake_key cr b a" and "length (handshake_key cr a b) = 32"
    using assms by (simp_all add: handshake_key_def x25519_ok_def)
qed

lemma length_public: "x25519_ok cr \<Longrightarrow> length (x25519_public cr a) = 32"
  by (simp add: x25519_ok_def)

section \<open>The server's phases\<close>

lemma accept_key_ok:
  assumes "x25519_ok cr"
  shows "accept_key cr sock b (x25519_public cr a) s =
     (Return (Some (handshake_key cr b a)), [SendAll sock (x25519_public cr b)], s)"
  using handshake_key_sides(1) [OF assms, of b a] length_public [OF assms]
  by (auto simp: accept_key_def act_simps handshake_key_def)

lemma accept_password_ok:
  assumes "aead_ok cr" "zstd_ok cr" "length key = 32" "packet_for cr key 0 (0 # sv_password s) p"
  obtains q where "accept_password cr sock key p s = (Return (Some ()), [SendAll sock q], s)"
    and "packet_for cr key 0 ACK q"
proof -
  obtain q where q: "construct_packet cr ACK (Some key) 0 compressor_level = Inr q" "packet_for cr key 0 ACK q"
    using construct_packet_for [OF assms(1-3), of 0 ACK compressor_level] by auto
  then have "accept_password cr sock key p s = (Return (Some ()), [SendAll sock q], s)"
    using packet_for_verify [OF assms(4)] by (simp add: accept_password_def act_simps)
  then show ?thesis using q(2) by (rule that)
qed

lemma accept_password_wrong:
  "verify_packet cr p (Some key) 0 = Inr (v, r) \<Longrightarrow> v \<noteq> Inr (0 # sv_password s) \<Longrightarrow>
   accept_password cr sock key p s = (Return None, [CloseSock sock], s)"
  using verify_packet_codes [of cr p "Some key" 0 _ r]
  by (cases v) (auto simp: accept_password_def act_simps)

text \<open>The server after a login: the session is filed and its handler task recorded.\<close>

definition session_started :: "sock \<Rightarrow> pystr \<Rightarrow> client \<Rightarrow> server \<Rightarrow> server" where
  "session_started sock u c s =
     s\<lparr>sv_client_db := dict_setitem (sv_client_db s) u c, sv_tasks := sv_tasks s @ [HandlerTask sock u]\<rparr>"

lemma handshake_send_eval:
  "construct_packet cr data (Some key) 1 compressor_level = Inr q \<Longrightarrow>
   and_then (handshake_send cr sock key data) f s =
     (case f () s of (r, es, s') \<Rightarrow> (r, SendAll sock q # es, s'))"
  by (simp add: handshake_send_def lift_def and_then_def ret_def emit_def split: prod.split)

lemma relogin_unknown_eval:
  assumes "construct_packet cr (err_answer 7) (Some key) 1 compressor_level = Inr q"
    and "u = uuid_str (uuid4_bytes rnd)"
  shows "and_then (relogin_unknown cr rnd sock address key) f s =
     (case f u (s\<lparr>sv_client_db := dict_setitem (sv_client_db s) u (new_session sock address u key 2 2)\<rparr>)
      of (r, es, s') \<Rightarrow> (r, SendAll sock q # es, s'))"
proof -
  have "relogin_unknown cr rnd sock address key =
      and_then (handshake_send cr sock key (err_answer 7))
        (\<lambda>_. and_then (put_session u (new_session sock address u key 2 2)) (\<lambda>_. ret u))"
    by (simp add: relogin_unknown_def ERR_DISPATCH_def err_answer_def assms(2) Let_def lift_def
        and_then_eval(1))
  then show ?thesis
    by (simp add: and_then_assoc handshake_send_eval [OF assms(1)] put_session_eval(2) and_then_eval(1))
qed

lemma start_session_filed:
  "start_session sock u (s\<lparr>sv_client_db := dict_setitem (sv_client_db s) u c\<rparr>) =
     (Return (Some u), [], session_started sock u (c\<lparr>cl_tx_nonce := 2, cl_rx_nonce := 2\<rparr>) s)"
  by (simp add: start_session_def act_simps map_of_setitem session_started_def)

text \<open>What the session is, by the kind of login: \<open>None\<close> is a first login, \<open>Some r\<close> a login with
  the UUID \<open>r\<close> of an earlier session.\<close>

definition login_bytes :: "bytes option \<Rightarrow> bytes" where
  "login_bytes relog = (case relog of Some r \<Rightarrow> RELOGIN # r | None \<Rightarrow> [LOGIN])"

definition login_known :: "bytes option \<Rightarrow> server \<Rightarrow> bool" where
  "login_known relog s \<longleftrightarrow>
     (case relog of Some r \<Rightarrow> dict_contains (sv_client_db s) (decode_latin1 r) | None \<Rightarrow> False)"

definition login_uuid :: "bytes \<Rightarrow> bytes option \<Rightarrow> server \<Rightarrow> pystr" where
  "login_uuid rnd relog s =
     (if login_known relog s then decode_latin1 (the relog) else uuid_str (uuid4_bytes rnd))"

definition login_session ::
  "bytes \<Rightarrow> bytes option \<Rightarrow> sock \<Rightarrow> SocketAddress \<Rightarrow> bytes \<Rightarrow> server \<Rightarrow> client" where
  "login_session rnd relog sock address key s =
     (if login_known relog s
      then (the (map_of (sv_client_db s) (login_uuid rnd relog s)))
        \<lparr>cl_address := address, cl_socket := sock, cl_cipher := Some key, cl_tx_nonce := 2, cl_rx_nonce := 2\<rparr>
      else new_session sock address (login_uuid rnd relog s) key 2 2)"

definition login_answer :: "bytes option \<Rightarrow> server \<Rightarrow> bytes" where
  "login_answer relog s = (if relog = None \<or> login_known relog s then ACK else err_answer 7)"

lemma RELOGIN_not_LOGIN [simp]: "RELOGIN \<noteq> LOGIN" "LOGIN \<noteq> RELOGIN"
  by (simp_all add: RELOGIN_def LOGIN_def)

lemma accept_login_ok:
  assumes "aead_ok cr" "zstd_ok cr" "length key = 32" "packet_for cr key 1 (login_bytes relog) p"
  obtains q where "accept_login cr rnd sock address key p s =
      (Return (Some (login_uuid rnd relog s)), [SendAll sock q],
       session_started sock (login_uuid rnd relog s) (login_session rnd relog sock address key s) s)"
    and "packet_for cr key 1 (login_answer relog s) q"
proof -
  have "sendable (login_answer relog s)" by (simp add: login_answer_def)
  then obtain q where q: "construct_packet cr (login_answer relog s) (Some key) 1 compressor_level = Inr q"
    "packet_for cr key 1 (login_answer relog s) q"
    using construct_packet_for [OF assms(1-3), of 1 _ compressor_level] by auto
  let ?u = "uuid_str (uuid4_bytes rnd)"
  note v = packet_for_verify [OF assms(4)]
  have "accept_login cr rnd sock address key p s =
      (Return (Some (login_uuid rnd relog s)), [SendAll sock q],
       session_started sock (login_uuid rnd relog s) (login_session rnd relog sock address key s) s)"
  proof (cases relog)
    case None
    then show ?thesis
      using v q(1)
      by (simp add: accept_login_def login_bytes_def login_new_def login_answer_def login_known_def
          handshake_send_eval login_uuid_def login_session_def act_simps Let_def start_session_filed)
        (simp add: new_session_def)
  next
    case (Some r)
    show ?thesis
    proof (cases "dict_contains (sv_client_db s) (decode_latin1 r)")
      case True
      then obtain c where "map_of (sv_client_db s) (decode_latin1 r) = Some c"
        by (auto simp: dict_contains_map_of)
      with True Some show ?thesis
        using v q(1)
        by (simp add: accept_login_def login_bytes_def relogin_found_def login_answer_def login_known_def
            handshake_send_eval login_uuid_def login_session_def act_simps Let_def start_session_filed)
    next
      case False
      with Some show ?thesis
        using v q(1)
        by (simp add: accept_login_def login_bytes_def relogin_unknown_eval login_answer_def login_known_def
            login_uuid_def login_session_def act_simps Let_def start_session_filed)
          (simp add: new_session_def)
    qed
  qed
  then show ?thesis using q(2) by (rule that)
qed

section \<open>The client's phases\<close>

lemma connect_send_ok:
  assumes "aead_ok cr" "zstd_ok cr" "rc_cipher c = Some key" "length key = 32"
    and "rc_tx_nonce c < 2 ^ 96" "sendable data"
  obtains p where "connect_send cr data c = (Inr p, c\<lparr>rc_tx_nonce := rc_tx_nonce c + 1\<rparr>)"
    and "packet_for cr key (rc_tx_nonce c) data p"
proof -
  obtain p where "construct_packet cr data (Some key) (rc_tx_nonce c) client_level = Inr p"
    "packet_for cr key (rc_tx_nonce c) data p"
    using construct_packet_for [OF assms(1,2,4-6), of client_level] by blast
  then show ?thesis using assms(3) by (intro that) (simp_all add: connect_send_def)
qed

text \<open>A client object on which \<open>connect\<close> has not been called.\<close>

definition fresh_client :: "RawClient \<Rightarrow> bool" where
  "fresh_client c \<longleftrightarrow> rc_tx_nonce c = 0 \<and> rc_rx_nonce c = 0 \<and> rc_tasks c = [] \<and> rc_input_packets c = []"

definition keyed_client :: "bytes \<Rightarrow> nat \<Rightarrow> nat \<Rightarrow> RawClient \<Rightarrow> RawClient" where
  "keyed_client key tx rx c = c\<lparr>rc_cipher := Some key, rc_tx_nonce := tx, rc_rx_nonce := rx\<rparr>"

lemma connect_key_ok:
  assumes "crypto_ok cr" "rc_tx_nonce c = 0" "rc_rx_nonce c = 0" "sendable (0 # password)"
  obtains p where "connect_key cr a password (x25519_public cr b) c =
      (Inr p, keyed_client (handshake_key cr a b) 1 0 c)"
    and "packet_for cr (handshake_key cr a b) 0 (0 # password) p"
proof -
  let ?k = "handshake_key cr a b"
  have cr: "aead_ok cr" "zstd_ok cr" "x25519_ok cr" using assms(1) by (simp_all add: crypto_ok_def)
  obtain p where p: "connect_send cr (0 # password) (c\<lparr>rc_cipher := Some ?k\<rparr>) =
      (Inr p, c\<lparr>rc_cipher := Some ?k, rc_tx_nonce := 1\<rparr>)" "packet_for cr ?k 0 (0 # password) p"
    using connect_send_ok [OF cr(1,2), of "c\<lparr>rc_cipher := Some ?k\<rparr>" ?k "0 # password"]
      handshake_key_sides(3) [OF cr(3)] assms(2,4) by auto
  have "connect_key cr a password (x25519_public cr b) c =
      connect_send cr (0 # password) (c\<lparr>rc_cipher := Some ?k\<rparr>)"
    using handshake_key_sides(1) [OF cr(3), of a b] length_public [OF cr(3), of b]
    by (auto simp: connect_key_def handshake_key_def)
  then show ?thesis
    using p assms(3) by (intro that) (simp_all add: keyed_client_def)
qed

lemma connect_ack_ok:
  assumes "aead_ok cr" "zstd_ok cr" "length key = 32" "packet_for cr key 0 ACK q"
    and "sendable (login_bytes relog)"
  obtains p where "connect_ack cr relog q (keyed_client key 1 0 c) = (Inr p, keyed_client key 2 1 c)"
    and "packet_for cr key 1 (login_bytes relog) p"
proof -
  let ?c = "keyed_client key 1 1 c"
  obtain p where p: "connect_send cr (login_bytes relog) ?c = (Inr p, ?c\<lparr>rc_tx_nonce := 2\<rparr>)"
    "packet_for cr key 1 (login_bytes relog) p"
  proof (rule connect_send_ok [OF assms(1,2) _ assms(3) _ assms(5)])
    show "rc_cipher ?c = Some key" "rc_tx_nonce ?c < 2 ^ 96" by (simp_all add: keyed_client_def)
  next
    fix p
    assume "connect_send cr (login_bytes relog) ?c = (Inr p, ?c\<lparr>rc_tx_nonce := rc_tx_nonce ?c + 1\<rparr>)"
      "packet_for cr key (rc_tx_nonce ?c) (login_bytes relog) p"
    then show thesis by (intro that) (simp_all add: keyed_client_def numeral_2_eq_2)
  qed
  then have "connect_ack cr relog q (keyed_client key 1 0 c) = (Inr p, keyed_client key 2 1 c)"
    using packet_for_verify [OF assms(4)] packet_for_ne [OF assms(4)]
    by (simp add: connect_ack_def keyed_client_def login_bytes_def)
  then show ?thesis using p(2) by (rule that)
qed

lemma connect_login_ok:
  "packet_for cr key 1 answer q \<Longrightarrow>
   connect_login cr q (keyed_client key 2 1 c) =
     (Inr (answer = ACK), (keyed_client key 2 2 c)\<lparr>rc_alive := True\<rparr>)"
  using packet_for_verify [of cr key 1 answer q]
  by (simp add: connect_login_def keyed_client_def numeral_2_eq_2)

section \<open>The handshake\<close>

text \<open>The messages passed from one side to the other, until both have finished: whether the
  login was acknowledged, the client, the session's UUID and the server.\<close>

definition handshake ::
  "crypto \<Rightarrow> bytes \<Rightarrow> bytes \<Rightarrow> bytes \<Rightarrow> sock \<Rightarrow> SocketAddress \<Rightarrow> bytes \<Rightarrow> bytes option \<Rightarrow> RawClient \<Rightarrow>
     server \<Rightarrow> (bool \<times> RawClient \<times> pystr \<times> server) option" where
  "handshake cr rnd a b sock address password relog c s =
     (case accept_key cr sock b (connect_hello cr a) s of
        (Return (Some key), [SendAll _ m1], s1) \<Rightarrow>
     (case connect_key cr a password m1 c of
        (Inr p1, c1) \<Rightarrow>
     (case accept_password cr sock key p1 s1 of
        (Return (Some _), [SendAll _ m2], s2) \<Rightarrow>
     (case connect_ack cr relog m2 c1 of
        (Inr p2, c2) \<Rightarrow>
     (case accept_login cr rnd sock address key p2 s2 of
        (Return (Some u), [SendAll _ m3], s3) \<Rightarrow>
     (case connect_login cr m3 c2 of
        (Inr ok, c3) \<Rightarrow> Some (ok, c3, u, s3)
      | _ \<Rightarrow> None) | _ \<Rightarrow> None) | _ \<Rightarrow> None) | _ \<Rightarrow> None) | _ \<Rightarrow> None) | _ \<Rightarrow> None)"

lemma handshake_ok:
  assumes cr: "crypto_ok cr" and c: "rc_tx_nonce c = 0" "rc_rx_nonce c = 0"
    and pw: "password = sv_password s" "sendable (0 # password)"
    and login: "sendable (login_bytes relog)"
  shows "handshake cr rnd a b sock address password relog c s =
    Some (login_answer relog s = ACK,
      (keyed_client (handshake_key cr a b) 2 2 c)\<lparr>rc_alive := True\<rparr>,
      login_uuid rnd relog s,
      session_started sock (login_uuid rnd relog s)
        (login_session rnd relog sock address (handshake_key cr a b) s) s)"
proof -
  let ?k = "handshake_key cr a b"
  have ok: "aead_ok cr" "zstd_ok cr" "x25519_ok cr" using cr by (simp_all add: crypto_ok_def)
  have k: "handshake_key cr b a = ?k" "length ?k = 32"
    using handshake_key_sides(2,3) [OF ok(3)] by auto
  obtain p1 where p1: "connect_key cr a password (x25519_public cr b) c = (Inr p1, keyed_client ?k 1 0 c)"
    "packet_for cr ?k 0 (0 # password) p1"
    using connect_key_ok [OF cr c pw(2)] by blast
  obtain q1 where q1: "accept_password cr sock ?k p1 s = (Return (Some ()), [SendAll sock q1], s)"
    "packet_for cr ?k 0 ACK q1"
    using accept_password_ok [OF ok(1,2) k(2), of s p1] p1(2) pw(1) by blast
  obtain p2 where p2: "connect_ack cr relog q1 (keyed_client ?k 1 0 c) = (Inr p2, keyed_client ?k 2 1 c)"
    "packet_for cr ?k 1 (login_bytes relog) p2"
    using connect_ack_ok [OF ok(1,2) k(2) q1(2) login] by blast
  obtain q2 where q2: "accept_login cr rnd sock address ?k p2 s =
      (Return (Some (login_uuid rnd relog s)), [SendAll sock q2],
       session_started sock (login_uuid rnd relog s) (login_session rnd relog sock address ?k s) s)"
    "packet_for cr ?k 1 (login_answer relog s) q2"
    using accept_login_ok [OF ok(1,2) k(2) p2(2)] by blast
  show ?thesis
    unfolding handshake_def connect_hello_def accept_key_ok [OF ok(3)] k(1)
    using p1(1) q1(1) p2(1) q2(1) connect_login_ok [OF q2(2)] by simp
qed

section \<open>The state after it\<close>

lemma session_started_fields [simp]:
  "session_cipher (session_started sock u c s) = (session_cipher s)(u := cl_cipher c)"
  "session_tx (session_started sock u c s) = (session_tx s)(u := cl_tx_nonce c)"
  "session_rx (session_started sock u c s) = (session_rx s)(u := cl_rx_nonce c)"
  "sv_db (session_started sock u c s) = sv_db s"
  "sv_address_book (session_started sock u c s) = sv_address_book s"
  "sv_db_locked (session_started sock u c s) = sv_db_locked s"
  by (auto simp: session_started_def session_cipher_def session_tx_def session_rx_def map_of_setitem
      fun_eq_iff split: if_splits)

lemma login_session_fields [simp]:
  "cl_cipher (login_session rnd relog sock address key s) = Some key"
  "cl_tx_nonce (login_session rnd relog sock address key s) = 2"
  "cl_rx_nonce (login_session rnd relog sock address key s) = 2"
  by (simp_all add: login_session_def new_session_def)

lemma handshake_in_sync:
  assumes "length key = 32" and "rc_tasks c = []" and "rc_input_packets c = []"
  shows "in_sync ((keyed_client key 2 2 c)\<lparr>rc_alive := True\<rparr>)
    (session_started sock (login_uuid rnd relog s) (login_session rnd relog sock address key s) s)
    (login_uuid rnd relog s)"
  using assms by (simp add: in_sync_def keyed_client_def)

lemma handshake_others:
  "v \<noteq> u \<Longrightarrow> in_sync d (session_started sock u c s) v \<longleftrightarrow> in_sync d s v"
  by (simp add: in_sync_def)

lemma login_session_mailbox:
  "mailbox_of (login_session rnd relog sock address key s) =
    (if login_known relog s
     then the (of_boxes (office_of s) (login_uuid rnd relog s))
     else \<lparr>mb_owned = [], mb_inbox = [], mb_outbox = Map.empty\<rparr>)"
proof (cases "login_known relog s")
  case True
  then obtain c where "map_of (sv_client_db s) (login_uuid rnd relog s) = Some c"
    by (auto simp: login_known_def login_uuid_def dict_contains_map_of split: option.splits)
  with True show ?thesis by (simp add: login_session_def mailbox_of_def office_of_def)
next
  case False
  then show ?thesis by (simp add: login_session_def new_session_def mailbox_of_def)
qed

lemma handshake_office:
  "office_of (session_started sock (login_uuid rnd relog s) (login_session rnd relog sock address key s) s) =
    (if login_known relog s then office_of s
     else (office_of s)\<lparr>of_boxes := (of_boxes (office_of s))
       (login_uuid rnd relog s \<mapsto> \<lparr>mb_owned = [], mb_inbox = [], mb_outbox = Map.empty\<rparr>)\<rparr>)"
proof -
  have *: "office_of (session_started sock u c s) =
      (office_of s)\<lparr>of_boxes := (of_boxes (office_of s))(u \<mapsto> mailbox_of c)\<rparr>" for u c
    by (auto simp: session_started_def office_of_def map_of_setitem fun_eq_iff)
  show ?thesis
  proof (cases "login_known relog s")
    case True
    then obtain c where "map_of (sv_client_db s) (login_uuid rnd relog s) = Some c"
      by (auto simp: login_known_def login_uuid_def dict_contains_map_of split: option.splits)
    with True show ?thesis
      unfolding * login_session_mailbox by (simp add: office_of_def fun_upd_idem)
  qed (simp add: * login_session_mailbox)
qed

section \<open>Streams\<close>

text \<open>A frame cut into chunks, none empty: \<open>read_packet_frame\<close> returns it and leaves what comes
  after it when the peer waits for an answer before it sends on.\<close>

lemma read_packet_frame_chunks:
  assumes "frame_ok f" and "concat cs = f" and "[] \<notin> set cs"
  shows "read_packet_frame (cs @ rest) = Inr (f, rest)"
proof -
  have "read_packet_frame_loop b (cs @ rest) = Inr (f, rest)"
    if "b @ concat cs = f" "[] \<notin> set cs" "cs \<noteq> [] \<or> b = f" for b cs
    using that
  proof (induction cs arbitrary: b)
    case Nil
    then show ?case
      using extract_whole [OF assms(1), of "[]"] by (subst read_packet_frame_loop.simps) simp
  next
    case (Cons x cs)
    then have "strict_prefix b f"
      by (metis append_self_conv concat.simps(2) append_is_Nil_conv list.set_intros(1) prefixI
          strict_prefix_def)
    then show ?case
      using Cons.IH [of "b @ x"] Cons.prems extract_partial [OF assms(1), of b]
      by (subst read_packet_frame_loop.simps) (cases cs, auto)
  qed
  from this [of "[]" cs] show ?thesis
    using assms by (auto simp: read_packet_frame_def frame_ok_def)
qed

lemma read_exact_chunks:
  assumes "length (concat cs) = n" and "[] \<notin> set cs" and "0 < n"
  shows "read_exact n [] (cs @ rest) = (concat cs, rest)"
proof -
  have "read_exact n b (cs @ rest) = (b @ concat cs, rest)"
    if "length (b @ concat cs) = n" "[] \<notin> set cs" "cs \<noteq> [] \<or> rest = [] \<or> length b = n" for b cs
    using that
  proof (induction cs arbitrary: b)
    case Nil
    then show ?case by (cases rest) simp_all
  next
    case (Cons x cs)
    have l: "length b < n" "length x \<le> n - length b" "x \<noteq> []" using Cons.prems by (cases x; auto)+
    then have "read_exact n b ((x # cs) @ rest) = read_exact n (b @ x) (cs @ rest)" by simp
    also have "\<dots> = ((b @ x) @ concat cs, rest)"
      using Cons.prems by (intro Cons.IH) auto
    finally show ?case by simp
  qed
  from this [of "[]" cs] show ?thesis using assms by (cases cs) auto
qed

text \<open>The server's side over a stream: each message may arrive in any number of pieces.\<close>

lemma accept_one_chunks:
  assumes cr: "crypto_ok cr" and c1: "concat cs1 = x25519_public cr a" "[] \<notin> set cs1"
    and p1: "packet_for cr (handshake_key cr a b) 0 (0 # sv_password s) p1"
    and c2: "concat cs2 = p1" "[] \<notin> set cs2"
    and p2: "packet_for cr (handshake_key cr a b) 1 (login_bytes relog) p2"
    and c3: "concat cs3 = p2" "[] \<notin> set cs3"
  shows "\<exists>q1 q2. accept_one cr rnd b sock address (cs1 @ cs2 @ cs3 @ rest) s =
      (Return (Some (login_uuid rnd relog s, rest)),
       [SendAll sock (x25519_public cr b), SendAll sock q1, SendAll sock q2],
       session_started sock (login_uuid rnd relog s)
         (login_session rnd relog sock address (handshake_key cr a b) s) s)"
proof -
  let ?k = "handshake_key cr a b"
  have ok: "aead_ok cr" "zstd_ok cr" "x25519_ok cr" using cr by (simp_all add: crypto_ok_def)
  have k: "handshake_key cr b a = ?k" "length ?k = 32"
    using handshake_key_sides(2,3) [OF ok(3)] by auto
  have r1: "read_exact 32 [] (cs1 @ cs2 @ cs3 @ rest) = (x25519_public cr a, cs2 @ cs3 @ rest)"
    using read_exact_chunks [of cs1 32] c1 length_public [OF ok(3), of a] by simp
  have r2: "read_packet_frame (cs2 @ cs3 @ rest) = Inr (p1, cs3 @ rest)"
    using read_packet_frame_chunks [OF _ c2] p1 by (simp add: packet_for_def)
  have r3: "read_packet_frame (cs3 @ rest) = Inr (p2, rest)"
    using read_packet_frame_chunks [OF _ c3] p2 by (simp add: packet_for_def)
  obtain q1 where q1: "accept_password cr sock ?k p1 s = (Return (Some ()), [SendAll sock q1], s)"
    using accept_password_ok [OF ok(1,2) k(2) p1] by blast
  obtain q2 where q2: "accept_login cr rnd sock address ?k p2 s =
      (Return (Some (login_uuid rnd relog s)), [SendAll sock q2],
       session_started sock (login_uuid rnd relog s) (login_session rnd relog sock address ?k s) s)"
    using accept_login_ok [OF ok(1,2) k(2) p2] by blast
  show ?thesis
    unfolding accept_one_def r1 prod.case
    using accept_key_ok [OF ok(3), of sock b a s] k(1) r2 r3 q1 q2
    by (simp add: and_then_def lift_def ret_def)
qed

end
