(* ===== verification/Loop.thy ===== *)
theory Loop
  imports Handshake
begin

text \<open>
  \<^verbatim>\<open>Server.handle_client\<close> as a whole: the loop over the stream of one connection and the
  clean-up after it. A run of the loop consumes at least the six header bytes of a frame per
  pass, which is why it ends on every finite stream.

  The lemmas show that a stream of requests, cut into chunks in any way and pipelined or not,
  is answered as the post office answers the same commands, and what happens at its end: after
  BYE the session is cleaned up; when the peer just closes the connection, the handler dies of
  a \<open>TypeError\<close> and the session stays.
\<close>

section \<open>The loop\<close>

lemma receive_frame_shorter:
  "receive_frame b cs = Frame f b' cs' \<Longrightarrow>
   length f + length b' + length (concat cs') \<le> length b + length (concat cs) \<and> 6 \<le> length f"
proof (induction b cs rule: receive_frame.induct)
  case (1 b cs)
  obtain f0 b0 e0 where x: "extract_packet_frame b = (f0, b0, e0)" by (cases "extract_packet_frame b")
  show ?case
  proof (cases "f0 = None \<and> e0 = None")
    case True
    then have "b0 = b" using x extract_none_buffer by simp
    moreover obtain p cs'' where "cs = p # cs''" "p \<noteq> []" "receive_frame (b0 @ p) cs'' = Frame f b' cs'"
      using "1.prems" x True by (subst (asm) receive_frame.simps) (auto split: list.splits if_splits)
    ultimately show ?thesis using "1.IH" x True by fastforce
  next
    case False
    with "1.prems" x have f: "f0 = Some f" "b' = b0" "cs' = cs"
      by (subst (asm) receive_frame.simps, auto split: option.splits)+
    then have "frame_ok f" "b = f @ b'" using x extract_frame_ok by blast+
    then show ?thesis using f by (simp add: frame_ok_def)
  qed
qed

text \<open>\<open>rnd n\<close> is what \<open>uuid4()\<close> draws for the \<open>n\<close>-th frame. The result is \<open>clean_exit\<close>. Without a
  frame \<open>handle_read\<close> always raises (\<open>handle_read_raises\<close>), so the loop has no other way on.\<close>

function handler_loop ::
  "crypto \<Rightarrow> (nat \<Rightarrow> bytes) \<Rightarrow> sock \<Rightarrow> pystr \<Rightarrow> nat \<Rightarrow> bytes \<Rightarrow> bytes list \<Rightarrow> bool action" where
  "handler_loop cr rnd sock u n receive_buffer chunks =
     (case receive_frame receive_buffer chunks of
        Frame frame buffer' chunks' \<Rightarrow>
          and_then (handle_read cr (rnd n) sock u (Frame frame buffer' chunks')) (\<lambda>c.
            case c of Stop clean_exit \<Rightarrow> ret clean_exit
            | Next \<Rightarrow> handler_loop cr rnd sock u (Suc n) buffer' chunks')
      | no_frame \<Rightarrow> and_then (handle_read cr (rnd n) sock u no_frame) (\<lambda>_. ret False))"
  by pat_completeness auto
termination
  by (relation "measure (\<lambda>(cr, rnd, sock, u, n, b, cs). length b + length (concat cs))")
    (auto dest: receive_frame_shorter)

declare handler_loop.simps [simp del]

definition handle_client :: "crypto \<Rightarrow> (nat \<Rightarrow> bytes) \<Rightarrow> sock \<Rightarrow> pystr \<Rightarrow> bytes list \<Rightarrow> unit action" where
  "handle_client cr rnd sock u chunks =
     and_then (get_session u) (\<lambda>c.
       if cl_cipher c = None then throw RuntimeError
       else and_then (handler_loop cr rnd sock u 0 [] chunks) (\<lambda>clean_exit. cleanup sock u))"

lemma handle_packet_none:
  "\<exists>e. handle_packet cr rnd sock u None s = (Raise e, [], s)"
  by (cases "map_of (sv_client_db s) u")
    (simp_all add: handle_packet_def handle_frame_def act_simps to_bytes_little_def)

lemma handle_read_raises:
  "\<nexists>f b cs. r = Frame f b cs \<Longrightarrow> \<exists>e es. handle_read cr rnd sock u r s = (Raise e, es, s)"
proof (cases r)
  case (FrameError e)
  then show ?thesis using handle_packet_none [of cr rnd sock u s]
    by (auto simp: handle_read_def act_simps ERR_DISPATCH_def)
next
  case Eof
  then show ?thesis using handle_packet_none [of cr rnd sock u s] by (auto simp: handle_read_def)
qed auto

section \<open>Requests on a stream\<close>

fun events :: "(nat \<Rightarrow> bytes) \<Rightarrow> pystr \<Rightarrow> nat \<Rightarrow> command list \<Rightarrow> request_event list" where
  "events rnd u n [] = []"
| "events rnd u n (cmd # cmds) = (rnd n, u, cmd) # events rnd u (Suc n) cmds"

text \<open>Packets that carry the given payloads under consecutive counters.\<close>

fun packets_for :: "crypto \<Rightarrow> bytes \<Rightarrow> nat \<Rightarrow> bytes list \<Rightarrow> bytes list \<Rightarrow> bool" where
  "packets_for cr key n [] ps \<longleftrightarrow> ps = []"
| "packets_for cr key n (d # ds) ps \<longleftrightarrow>
     (\<exists>p ps'. ps = p # ps' \<and> packet_for cr key n d p \<and> packets_for cr key (Suc n) ds ps')"

text \<open>A session with its key and counters, in a server whose database is free.\<close>

definition session_at :: "server \<Rightarrow> pystr \<Rightarrow> bytes \<Rightarrow> nat \<Rightarrow> nat \<Rightarrow> bool" where
  "session_at s u key tx rx \<longleftrightarrow>
     session_cipher s u = Some key \<and> session_tx s u = tx \<and> session_rx s u = rx \<and> \<not> sv_db_locked s"

lemma handle_packet_office:
  assumes cr: "aead_ok cr" "zstd_ok cr" and at: "session_at s u key tx rx"
    and "length key = 32" "tx < 2 ^ 96" "packet_for cr key rx (command_bytes cmd) p"
    and "command_ok cmd" "office_step rnd u cmd (office_of s) = Some (a, w')"
    and "sendable (answer_bytes a)"
  shows "\<exists>q s'. handle_packet cr rnd sock u (Some p) s = (Return Next, [SendAll sock q], s') \<and>
     verify_packet cr q (Some key) tx = Inr (Inr (answer_bytes a), None) \<and>
     office_of s' = w' \<and> session_at s' u key (Suc tx) (Suc rx)"
proof -
  obtain k where k: "map_of (sv_client_db s) u = Some k" "cl_cipher k = Some key"
    "cl_tx_nonce k = tx" "cl_rx_nonce k = rx"
    using at by (auto simp: session_at_def session_cipher_def session_fields split: bind_splits)
  let ?s = "s\<lparr>sv_client_db := dict_setitem (sv_client_db s) u (k\<lparr>cl_rx_nonce := cl_rx_nonce k + 1\<rparr>)\<rparr>"
  have hp: "handle_packet cr rnd sock u (Some p) s = dispatch cr rnd sock u (command_bytes cmd) ?s"
    using packet_for_verify [OF assms(6)] k by (intro handle_packet_verified [OF k(1)]) simp
  have s1: "session_cipher ?s u = Some key" "session_tx ?s u = tx" "session_rx ?s u = Suc rx"
    using k by (simp_all add: session_of_put)
  have "served cr sock u (answer_bytes a) ?s w' (dispatch cr rnd sock u (command_bytes cmd) ?s)"
  proof (rule dispatch_office [OF cr])
    show "session_ready ?s u" using s1 assms(4,5) by (simp add: session_ready_def)
    show "office_step rnd u cmd (office_of ?s) = Some (a, w')"
      using office_counters [OF k(1) mailbox_counters(2)] assms(8) by simp
  qed (use assms at in \<open>simp_all add: session_at_def\<close>)
  then show ?thesis
    using hp s1 at by (auto simp: served_def session_at_def)
qed

text \<open>The replies: one packet per answer, under consecutive counters.\<close>

fun replies_for :: "crypto \<Rightarrow> bytes \<Rightarrow> nat \<Rightarrow> bytes list \<Rightarrow> bytes list \<Rightarrow> bool" where
  "replies_for cr key n [] qs \<longleftrightarrow> qs = []"
| "replies_for cr key n (d # ds) qs \<longleftrightarrow>
     (\<exists>q qs'. qs = q # qs' \<and> verify_packet cr q (Some key) n = Inr (Inr d, None) \<and>
        replies_for cr key (Suc n) ds qs')"

lemma handler_loop_frame:
  assumes "frame_ok p" "b @ concat cs = p @ rest" "[] \<notin> set cs"
  obtains b' cs' where "b' @ concat cs' = rest" and "[] \<notin> set cs'"
    and "\<And>(rnd :: nat \<Rightarrow> bytes) n s s' es. handle_packet cr (rnd n) sock u (Some p) s = (Return Next, es, s') \<Longrightarrow>
      handler_loop cr rnd sock u n b cs s =
        (case handler_loop cr rnd sock u (Suc n) b' cs' s' of (r, es', s'') \<Rightarrow> (r, es @ es', s''))"
    and "\<And>(rnd :: nat \<Rightarrow> bytes) n s s' es clean. handle_packet cr (rnd n) sock u (Some p) s = (Return (Stop clean), es, s') \<Longrightarrow>
      handler_loop cr rnd sock u n b cs s = (Return clean, es, s')"
proof -
  obtain b' cs' where r: "receive_frame b cs = Frame p b' cs'" "b' @ concat cs' = rest" "[] \<notin> set cs'"
    using frames.read_one [OF assms] by blast
  show ?thesis
  proof (rule that [OF r(2,3)])
    fix rnd :: "nat \<Rightarrow> bytes" and n s s' es
    assume "handle_packet cr (rnd n) sock u (Some p) s = (Return Next, es, s')"
    then show "handler_loop cr rnd sock u n b cs s =
        (case handler_loop cr rnd sock u (Suc n) b' cs' s' of (r, es', s'') \<Rightarrow> (r, es @ es', s''))"
      by (subst handler_loop.simps) (simp add: r(1) handle_read_def and_then_def)
  next
    fix rnd :: "nat \<Rightarrow> bytes" and n s s' es clean
    assume "handle_packet cr (rnd n) sock u (Some p) s = (Return (Stop clean), es, s')"
    then show "handler_loop cr rnd sock u n b cs s = (Return clean, es, s')"
      by (subst handler_loop.simps) (simp add: r(1) handle_read_def and_then_def ret_def)
  qed
qed

lemma handler_loop_office:
  "aead_ok cr \<Longrightarrow> zstd_ok cr \<Longrightarrow> length key = 32 \<Longrightarrow> session_at s u key tx rx \<Longrightarrow>
   tx + length cmds \<le> 2 ^ 96 \<Longrightarrow> packets_for cr key rx (map command_bytes cmds) ps \<Longrightarrow>
   b @ concat cs = concat ps @ rest \<Longrightarrow> [] \<notin> set cs \<Longrightarrow> \<forall>cmd \<in> set cmds. command_ok cmd \<Longrightarrow>
   office_run (events rnd u n cmds) (office_of s) = Some (as, w') \<Longrightarrow>
   \<forall>a \<in> set as. sendable (answer_bytes a) \<Longrightarrow>
   \<exists>qs s' b' cs'. handler_loop cr rnd sock u n b cs s =
       (case handler_loop cr rnd sock u (n + length cmds) b' cs' s' of
          (r, es, s'') \<Rightarrow> (r, map (SendAll sock) qs @ es, s'')) \<and>
     b' @ concat cs' = rest \<and> [] \<notin> set cs' \<and> replies_for cr key tx (map answer_bytes as) qs \<and>
     office_of s' = w' \<and> session_at s' u key (tx + length cmds) (rx + length cmds)"
proof (induction cmds arbitrary: s tx rx ps b cs n as)
  case Nil
  then have "handler_loop cr rnd sock u n b cs s =
       (case handler_loop cr rnd sock u (n + length []) b cs s of
          (r, es, s'') \<Rightarrow> (r, map (SendAll sock) [] @ es, s''))" by (simp split: prod.split)
  moreover have "as = []" "office_of s = w'" "b @ concat cs = rest" using Nil.prems by simp_all
  ultimately show ?case
    using Nil.prems by (intro exI [of _ "[]"] exI [of _ s] exI [of _ b] exI [of _ cs]) simp
next
  case (Cons cmd cmds)
  obtain p ps' where p: "ps = p # ps'" "packet_for cr key rx (command_bytes cmd) p"
    "packets_for cr key (Suc rx) (map command_bytes cmds) ps'"
    using Cons.prems(6) by auto
  obtain a w1 as' where a: "office_step (rnd n) u cmd (office_of s) = Some (a, w1)"
    "office_run (events rnd u (Suc n) cmds) w1 = Some (as', w')" "as = a # as'"
    using Cons.prems(10) by (auto split: option.splits)
  have "\<exists>q s1. handle_packet cr (rnd n) sock u (Some p) s = (Return Next, [SendAll sock q], s1) \<and>
     verify_packet cr q (Some key) tx = Inr (Inr (answer_bytes a), None) \<and>
     office_of s1 = w1 \<and> session_at s1 u key (Suc tx) (Suc rx)"
    using Cons.prems a by (intro handle_packet_office [OF _ _ _ _ _ p(2)]) auto
  then obtain q s1 where q: "handle_packet cr (rnd n) sock u (Some p) s = (Return Next, [SendAll sock q], s1)"
    "verify_packet cr q (Some key) tx = Inr (Inr (answer_bytes a), None)"
    "office_of s1 = w1" "session_at s1 u key (Suc tx) (Suc rx)" by blast
  have "frame_ok p" "b @ concat cs = p @ concat ps' @ rest"
    using p Cons.prems(7) by (simp_all add: packet_for_def)
  then obtain b1 cs1 where b1: "b1 @ concat cs1 = concat ps' @ rest" "[] \<notin> set cs1"
    and step: "handler_loop cr rnd sock u n b cs s =
      (case handler_loop cr rnd sock u (Suc n) b1 cs1 s1 of (r, es', s'') \<Rightarrow> (r, [SendAll sock q] @ es', s''))"
    using handler_loop_frame [OF _ _ Cons.prems(8)] q(1) by metis
  have "\<forall>cmd \<in> set cmds. command_ok cmd" "\<forall>a \<in> set as'. sendable (answer_bytes a)"
    "Suc tx + length cmds \<le> 2 ^ 96" "office_run (events rnd u (Suc n) cmds) (office_of s1) = Some (as', w')"
    using Cons.prems a q(3) by auto
  with Cons.IH [OF Cons.prems(1-3) q(4) _ p(3) b1] obtain qs s' b' cs' where
    ih: "handler_loop cr rnd sock u (Suc n) b1 cs1 s1 =
       (case handler_loop cr rnd sock u (Suc n + length cmds) b' cs' s' of
          (r, es, s'') \<Rightarrow> (r, map (SendAll sock) qs @ es, s''))"
     "b' @ concat cs' = rest" "[] \<notin> set cs'" "replies_for cr key (Suc tx) (map answer_bytes as') qs"
     "office_of s' = w'" "session_at s' u key (Suc tx + length cmds) (Suc rx + length cmds)"
    by blast
  have "handler_loop cr rnd sock u n b cs s =
       (case handler_loop cr rnd sock u (n + length (cmd # cmds)) b' cs' s' of
          (r, es, s'') \<Rightarrow> (r, map (SendAll sock) (q # qs) @ es, s''))"
    unfolding step ih(1) by (simp split: prod.split)
  then show ?case
    using ih q(2) a(3)
    by (intro exI [of _ "q # qs"] exI [of _ s'] exI [of _ b'] exI [of _ cs']) simp
qed

section \<open>The end of the stream\<close>

lemma packets_for_append:
  "packets_for cr key n (ds @ es) ps \<longleftrightarrow>
     (\<exists>ps1 ps2. ps = ps1 @ ps2 \<and> packets_for cr key n ds ps1 \<and> packets_for cr key (n + length ds) es ps2)"
proof (induction ds arbitrary: n ps)
  case (Cons d ds)
  show ?case
  proof
    assume "packets_for cr key n ((d # ds) @ es) ps"
    then obtain p ps' where "ps = p # ps'" "packet_for cr key n d p" "packets_for cr key (Suc n) (ds @ es) ps'"
      by auto
    then show "\<exists>ps1 ps2. ps = ps1 @ ps2 \<and> packets_for cr key n (d # ds) ps1 \<and>
        packets_for cr key (n + length (d # ds)) es ps2"
      using Cons.IH [of "Suc n" ps'] by (auto simp: Cons_eq_append_conv)
  next
    assume "\<exists>ps1 ps2. ps = ps1 @ ps2 \<and> packets_for cr key n (d # ds) ps1 \<and>
        packets_for cr key (n + length (d # ds)) es ps2"
    then show "packets_for cr key n ((d # ds) @ es) ps"
      using Cons.IH [of "Suc n"] by auto blast
  qed
qed auto

lemma cleanup_eval:
  "cleanup sock u s =
     (if sv_keep_dead_sessions s then (Return (), [], s)
      else (Return (), [CloseSock sock],
        s\<lparr>sv_address_book := (case first_key_of u (sv_address_book s) of None \<Rightarrow> sv_address_book s
             | Some k \<Rightarrow> AList.delete k (sv_address_book s)),
          sv_client_db := AList.delete u (sv_client_db s)\<rparr>))"
proof (cases "first_key_of u (sv_address_book s)")
  case None
  then show ?thesis by (simp add: cleanup_def act_simps)
next
  case (Some k)
  then have "dict_contains (sv_address_book s) k"
    by (auto simp: first_key_of_def dict_contains_def find_Some_iff)
      (metis fst_conv imageI nth_mem)
  then show ?thesis using Some by (simp add: cleanup_def act_simps)
qed

lemma receive_frame_nil: "receive_frame [] [] = Eof"
  by (subst receive_frame.simps) (simp add: extract_packet_frame_def FRAME_HEADER_SIZE_def)

lemma handle_client_start:
  "session_at s u key tx rx \<Longrightarrow>
   handle_client cr rnd sock u chunks s =
     and_then (handler_loop cr rnd sock u 0 [] chunks) (\<lambda>clean_exit. cleanup sock u) s"
  by (auto simp: handle_client_def act_simps session_at_def session_cipher_def split: bind_splits)

text \<open>The peer closes the connection after its requests: all are answered, then the handler
  raises \<open>TypeError\<close> and the session stays.\<close>

lemma handle_client_eof:
  assumes "aead_ok cr" "zstd_ok cr" "length key = 32" "session_at s u key tx rx"
    and "tx + length cmds \<le> 2 ^ 96" "rx + length cmds < 2 ^ 96"
    and "packets_for cr key rx (map command_bytes cmds) ps"
    and "concat cs = concat ps" "[] \<notin> set cs" "\<forall>cmd \<in> set cmds. command_ok cmd"
    and "office_run (events rnd u 0 cmds) (office_of s) = Some (as, w')"
    and "\<forall>a \<in> set as. sendable (answer_bytes a)"
  shows "\<exists>qs s'. handle_client cr rnd sock u cs s = (Raise TypeError, map (SendAll sock) qs, s') \<and>
     replies_for cr key tx (map answer_bytes as) qs \<and> office_of s' = w' \<and>
     session_at s' u key (tx + length cmds) (rx + length cmds)"
proof -
  have "[] @ concat cs = concat ps @ []" using assms(8) by simp
  from handler_loop_office [OF assms(1-5,7) this assms(9-12)] obtain qs s' b' cs' where
    l: "handler_loop cr rnd sock u 0 [] cs s =
       (case handler_loop cr rnd sock u (0 + length cmds) b' cs' s' of
          (r, es, s'') \<Rightarrow> (r, map (SendAll sock) qs @ es, s''))"
     "b' @ concat cs' = []" "[] \<notin> set cs'" "replies_for cr key tx (map answer_bytes as) qs"
     "office_of s' = w'" "session_at s' u key (tx + length cmds) (rx + length cmds)" by blast
  have b': "b' = []" "cs' = []" using l(2,3) by (cases cs'; auto)+
  obtain c where c: "map_of (sv_client_db s') u = Some c" "cl_rx_nonce c = rx + length cmds"
    using l(6) by (auto simp: session_at_def session_cipher_def session_rx_def split: bind_splits)
  have "handler_loop cr rnd sock u (0 + length cmds) [] [] s' = (Raise TypeError, [], s')"
    using c assms(6)
    by (subst handler_loop.simps)
      (simp add: receive_frame_nil handle_read_def handle_packet_def handle_frame_def act_simps
        to_bytes_little_12)
  then have "handle_client cr rnd sock u cs s = (Raise TypeError, map (SendAll sock) qs, s')"
    unfolding handle_client_start [OF assms(4)] and_then_def l(1) b' by simp
  then show ?thesis using l(4-6) by blast
qed

text \<open>The requests end with BYE: the session is cleaned up, whatever the stream still holds.\<close>

lemma handle_packet_bye:
  assumes "session_at s u key tx rx" "packet_for cr key rx bye_request p"
  shows "\<exists>s'. handle_packet cr rnd sock u (Some p) s = (Return (Stop True), [], s') \<and>
    office_of s' = office_of s"
proof -
  obtain k where k: "map_of (sv_client_db s) u = Some k" "cl_cipher k = Some key" "cl_rx_nonce k = rx"
    using assms(1) by (auto simp: session_at_def session_cipher_def session_fields split: bind_splits)
  let ?s = "s\<lparr>sv_client_db := dict_setitem (sv_client_db s) u (k\<lparr>cl_rx_nonce := cl_rx_nonce k + 1\<rparr>)\<rparr>"
  have "handle_packet cr rnd sock u (Some p) s = dispatch cr rnd sock u bye_request ?s"
    using packet_for_verify [OF assms(2)] k by (intro handle_packet_verified [OF k(1)]) simp
  also have "\<dots> = (Return (Stop True), [], ?s)"
    by (simp add: bye_request_def dispatch_server server_request_def act_simps)
  finally show ?thesis using office_counters [OF k(1) mailbox_counters(2)] by simp
qed

lemma handle_client_bye:
  assumes "aead_ok cr" "zstd_ok cr" "length key = 32" "session_at s u key tx rx"
    and "tx + length cmds \<le> 2 ^ 96"
    and "packets_for cr key rx (map command_bytes cmds @ [bye_request]) ps"
    and "concat cs = concat ps @ rest" "[] \<notin> set cs" "\<forall>cmd \<in> set cmds. command_ok cmd"
    and "office_run (events rnd u 0 cmds) (office_of s) = Some (as, w')"
    and "\<forall>a \<in> set as. sendable (answer_bytes a)"
  shows "\<exists>qs s1 s' es. handle_client cr rnd sock u cs s = (Return (), map (SendAll sock) qs @ es, s') \<and>
     replies_for cr key tx (map answer_bytes as) qs \<and> office_of s1 = w' \<and>
     cleanup sock u s1 = (Return (), es, s')"
proof -
  obtain ps1 p where ps: "ps = ps1 @ [p]" "packets_for cr key rx (map command_bytes cmds) ps1"
    "packet_for cr key (rx + length cmds) bye_request p"
    using assms(6) by (auto simp: packets_for_append)
  have "[] @ concat cs = concat ps1 @ p @ rest" using assms(7) ps(1) by simp
  from handler_loop_office [OF assms(1-5) ps(2) this assms(8-11)] obtain qs s1 b' cs' where
    l: "handler_loop cr rnd sock u 0 [] cs s =
       (case handler_loop cr rnd sock u (0 + length cmds) b' cs' s1 of
          (r, es, s'') \<Rightarrow> (r, map (SendAll sock) qs @ es, s''))"
     "b' @ concat cs' = p @ rest" "[] \<notin> set cs'" "replies_for cr key tx (map answer_bytes as) qs"
     "office_of s1 = w'" "session_at s1 u key (tx + length cmds) (rx + length cmds)" by blast
  obtain s2 where s2: "handle_packet cr (rnd (0 + length cmds)) sock u (Some p) s1 = (Return (Stop True), [], s2)"
    "office_of s2 = w'"
    using handle_packet_bye [OF l(6) ps(3)] l(5) by metis
  have "handler_loop cr rnd sock u (0 + length cmds) b' cs' s1 = (Return True, [], s2)"
    using handler_loop_frame [OF _ l(2,3)] s2(1) ps(3) by (metis packet_for_def)
  then have "handle_client cr rnd sock u cs s =
      (case cleanup sock u s2 of (r, es, s') \<Rightarrow> (r, map (SendAll sock) qs @ es, s'))"
    unfolding handle_client_start [OF assms(4)] and_then_def l(1) by (simp split: prod.split)
  moreover obtain es s' where cl: "cleanup sock u s2 = (Return (), es, s')"
    using cleanup_eval [of sock u s2] by (cases "sv_keep_dead_sessions s2") simp_all
  ultimately have "handle_client cr rnd sock u cs s = (Return (), map (SendAll sock) qs @ es, s')" by simp
  then show ?thesis using l(4) s2(2) cl by blast
qed

end
