(* ===== verification/Serial.thy ===== *)
theory Serial
  imports ServerApi
begin

text \<open>
  \<^verbatim>\<open>serialize\<close> and \<^verbatim>\<open>deserialize\<close> of \<^verbatim>\<open>pipebomb/server.py\<close>: the checkpoint of a server's
  three tables as typed, length-prefixed fields. The three parallel tables the code appends
  to are one list of triples here (type, packed length, value).
\<close>

section \<open>serialize\<close>

type_synonym field = "byte \<times> bytes \<times> bytes"

definition add_field :: "byte \<Rightarrow> bytes \<Rightarrow> field list \<Rightarrow> field list result" where
  "add_field field_type v tables =
     py_bind (pack_I (length v)) (\<lambda>l. Inr (tables @ [(field_type, l, v)]))"

fun serialize_db :: "(bytes, bytes) dict \<Rightarrow> field list \<Rightarrow> field list result" where
  "serialize_db [] tables = Inr tables"
| "serialize_db ((key, v) # db) tables =
     py_bind (add_field 0x10 key tables) (\<lambda>tables.
     py_bind (add_field 0x11 v tables) (serialize_db db))"

fun serialize_book :: "(pystr, pystr) dict \<Rightarrow> field list \<Rightarrow> field list result" where
  "serialize_book [] tables = Inr tables"
| "serialize_book ((key, uuid) # book) tables =
     (if length uuid \<noteq> 36 then Inl ValueError
      else py_bind (pack_I (length key)) (\<lambda>l.
           py_bind (encode_latin1 key) (\<lambda>k.
           py_bind (add_field 0x20 (l @ k) tables) (\<lambda>tables.
           py_bind (encode_latin1 uuid) (\<lambda>u.
           py_bind (add_field 0x21 u tables) (serialize_book book))))))"

text \<open>A length-prefixed byte string, and the items of the three per-client lists.\<close>

definition prefixed :: "bytes \<Rightarrow> bytes result" where
  "prefixed b = py_bind (pack_I (length b)) (\<lambda>l. Inr (l @ b))"

definition address_item :: "pystr \<Rightarrow> bytes result" where
  "address_item address = py_bind (encode_latin1 address) prefixed"

definition inbox_item :: "Request \<Rightarrow> bytes result" where
  "inbox_item r =
     py_bind (map_result prefixed [rq_return_uuid r, rq_key r, rq_request r, rq_request_uuid r])
       (\<lambda>bs. Inr (concat bs))"

definition outbox_item :: "Response \<Rightarrow> bytes result" where
  "outbox_item r =
     py_bind (map_result prefixed [rs_key r, rs_response r, rs_response_uuid r])
       (\<lambda>bs. Inr (concat bs))"

text \<open>The loop over \<open>get_nowait\<close>: it takes the requests out of the queue, also the one whose
  packing raises.\<close>

fun drain_inbox :: "Request list \<Rightarrow> bytes list \<Rightarrow> bytes list result \<times> Request list" where
  "drain_inbox [] inbox_items = (Inr inbox_items, [])"
| "drain_inbox (r # rs) inbox_items =
     (case inbox_item r of Inl e \<Rightarrow> (Inl e, rs)
      | Inr b \<Rightarrow> drain_inbox rs (inbox_items @ [b]))"

text \<open>One client: the fields added and the client as it is left.\<close>

definition serialize_identity :: "client \<Rightarrow> field list \<Rightarrow> field list result" where
  "serialize_identity c tables =
     (if length (cl_uuid c) \<noteq> 36 then Inl ValueError
      else py_bind (encode_latin1 (cl_uuid c)) (\<lambda>u.
           py_bind (add_field 0x30 u tables) (\<lambda>tables.
           py_bind (map_result address_item (cl_addresses_owned c)) (\<lambda>addresses_owned.
             add_field 0x31 (u @ concat addresses_owned) tables))))"

definition serialize_queues :: "client \<Rightarrow> bytes list \<Rightarrow> field list \<Rightarrow> field list result" where
  "serialize_queues c inbox_items tables =
     py_bind (encode_latin1 (cl_uuid c)) (\<lambda>u.
     py_bind (add_field 0x32 (u @ concat inbox_items) tables) (\<lambda>tables.
     py_bind (map_result outbox_item (dict_values (cl_outbox c))) (\<lambda>outbox_items.
       add_field 0x33 (u @ concat outbox_items) tables)))"

definition serialize_client :: "client \<Rightarrow> field list \<Rightarrow> field list result \<times> client" where
  "serialize_client c tables =
     (case serialize_identity c tables of Inl e \<Rightarrow> (Inl e, c)
      | Inr tables \<Rightarrow>
          (case drain_inbox (cl_inbox c) [] of (items, rest) \<Rightarrow>
             (py_bind items (\<lambda>items. serialize_queues c items tables), c\<lparr>cl_inbox := rest\<rparr>)))"

fun serialize_clients :: "(pystr, client) dict \<Rightarrow> field list \<Rightarrow> field list result \<times> (pystr, client) dict"
where
  "serialize_clients [] tables = (Inr tables, [])"
| "serialize_clients ((u, c) # cdb) tables =
     (case serialize_client c tables of
        (Inl e, c') \<Rightarrow> (Inl e, (u, c') # cdb)
      | (Inr tables, c') \<Rightarrow>
          (case serialize_clients cdb tables of (r, cdb') \<Rightarrow> (r, (u, c') # cdb')))"

definition MAGIC :: nat where
  "MAGIC = 0x91938038"

definition checkpoint_level :: nat where
  "checkpoint_level = 22"

definition serialize_tables :: "crypto \<Rightarrow> field list \<Rightarrow> bytes result" where
  "serialize_tables cr tables =
     (let type_table = map fst tables;
          length_table = concat (map (fst \<circ> snd) tables);
          value_table = concat (map (snd \<circ> snd) tables)
      in py_bind (pack_Is [length type_table, length length_table, length value_table]) (\<lambda>hdr.
         py_bind (pack_I MAGIC) (\<lambda>magic.
           Inr (magic @ zstd_compress cr checkpoint_level
             (hdr @ type_table @ length_table @ value_table)))))"

definition serialize :: "crypto \<Rightarrow> bytes action" where
  "serialize cr =
     and_then (gets sv_db) (\<lambda>db.
     and_then (lift (serialize_db db [])) (\<lambda>tables.
     and_then (gets sv_address_book) (\<lambda>book.
     and_then (lift (serialize_book book tables)) (\<lambda>tables.
     and_then (gets sv_client_db) (\<lambda>cdb.
       case serialize_clients cdb tables of (r, cdb') \<Rightarrow>
         and_then (modify (\<lambda>s. s\<lparr>sv_client_db := cdb'\<rparr>)) (\<lambda>_.
         and_then (lift r) (\<lambda>tables. lift (serialize_tables cr tables))))))))"

section \<open>deserialize\<close>

record checkpoint =
  ck_db :: "(bytes, bytes) dict"
  ck_address_book :: "(pystr, pystr) dict"
  ck_client_db :: "(pystr, client) dict"
  ck_pending_db_key :: "bytes option"
  ck_pending_address :: "pystr option"

definition empty_checkpoint :: checkpoint where
  "empty_checkpoint = \<lparr>ck_db = dict_factory, ck_address_book = dict_factory,
     ck_client_db = dict_factory, ck_pending_db_key = None, ck_pending_address = None\<rparr>"

definition restored_client :: "pystr \<Rightarrow> client" where
  "restored_client u =
     \<lparr>cl_socket = Placeholder, cl_address = HostPort (py ''unknown'') 0, cl_addresses_owned = [],
      cl_inbox = [], cl_outbox = [], cl_uuid = u, cl_cipher = None, cl_rx_nonce = 0,
      cl_tx_nonce = 0, cl_active = False\<rparr>"

text \<open>A length at the cursor, then that many bytes: the bytes and the cursor after them.\<close>

definition read_prefixed :: "bytes \<Rightarrow> nat \<Rightarrow> (bytes \<times> nat) result" where
  "read_prefixed v cursor =
     py_bind (unpack_from_I v cursor) (\<lambda>l.
       let cursor = cursor + 4 in Inr (slice v cursor (cursor + l), cursor + l))"

definition read_address :: "bytes \<Rightarrow> nat \<Rightarrow> (pystr \<times> nat) result" where
  "read_address v cursor =
     py_bind (read_prefixed v cursor) (\<lambda>(b, cursor). Inr (decode_latin1 b, cursor))"

definition read_request :: "bytes \<Rightarrow> nat \<Rightarrow> (Request \<times> nat) result" where
  "read_request v cursor =
     py_bind (read_prefixed v cursor) (\<lambda>(return_uuid, cursor).
     py_bind (read_prefixed v cursor) (\<lambda>(key, cursor).
     py_bind (read_prefixed v cursor) (\<lambda>(request, cursor).
     py_bind (read_prefixed v cursor) (\<lambda>(request_uuid, cursor).
       Inr (\<lparr>rq_return_uuid = return_uuid, rq_key = key, rq_request = request,
             rq_request_uuid = request_uuid\<rparr>, cursor)))))"

definition read_response :: "bytes \<Rightarrow> nat \<Rightarrow> (Response \<times> nat) result" where
  "read_response v cursor =
     py_bind (read_prefixed v cursor) (\<lambda>(key, cursor).
     py_bind (read_prefixed v cursor) (\<lambda>(response, cursor).
     py_bind (read_prefixed v cursor) (\<lambda>(response_uuid, cursor).
       Inr (\<lparr>rs_key = key, rs_response = response, rs_response_uuid = response_uuid\<rparr>, cursor))))"

lemma read_prefixed_advances: "read_prefixed v cursor = Inr (b, cursor') \<Longrightarrow> cursor < cursor'"
  by (auto simp: read_prefixed_def Let_def)

lemma readers_advance:
  "read_address v cursor = Inr (a, cursor') \<Longrightarrow> cursor < cursor'"
  "read_request v cursor = Inr (q, cursor') \<Longrightarrow> cursor < cursor'"
  "read_response v cursor = Inr (r, cursor') \<Longrightarrow> cursor < cursor'"
  by (fastforce simp: read_address_def read_request_def read_response_def
      dest!: read_prefixed_advances)+

text \<open>What the three loops do to the client with each item.\<close>

definition add_address :: "pystr \<Rightarrow> client \<Rightarrow> client" where
  "add_address a c = c\<lparr>cl_addresses_owned := cl_addresses_owned c @ [a]\<rparr>"

definition add_request :: "Request \<Rightarrow> client \<Rightarrow> client" where
  "add_request r c = c\<lparr>cl_inbox := cl_inbox c @ [r]\<rparr>"

definition add_response :: "Response \<Rightarrow> client \<Rightarrow> client" where
  "add_response r c = c\<lparr>cl_outbox := dict_setitem (cl_outbox c) (rs_response_uuid r) r\<rparr>"

function load_addresses :: "bytes \<Rightarrow> nat \<Rightarrow> client \<Rightarrow> client result" where
  "load_addresses v cursor c =
     (if cursor < length v
      then py_bind (read_address v cursor) (\<lambda>(a, cursor'). load_addresses v cursor' (add_address a c))
      else Inr c)"
  by pat_completeness auto
termination
  by (relation "measure (\<lambda>(v, cursor, c). length v - cursor)") (auto dest: readers_advance)

function load_inbox :: "bytes \<Rightarrow> nat \<Rightarrow> client \<Rightarrow> client result" where
  "load_inbox v cursor c =
     (if cursor < length v
      then py_bind (read_request v cursor) (\<lambda>(r, cursor'). load_inbox v cursor' (add_request r c))
      else Inr c)"
  by pat_completeness auto
termination
  by (relation "measure (\<lambda>(v, cursor, c). length v - cursor)") (auto dest: readers_advance)

function load_outbox :: "bytes \<Rightarrow> nat \<Rightarrow> client \<Rightarrow> client result" where
  "load_outbox v cursor c =
     (if cursor < length v
      then py_bind (read_response v cursor) (\<lambda>(r, cursor'). load_outbox v cursor' (add_response r c))
      else Inr c)"
  by pat_completeness auto
termination
  by (relation "measure (\<lambda>(v, cursor, c). length v - cursor)") (auto dest: readers_advance)

declare load_addresses.simps [simp del] load_inbox.simps [simp del] load_outbox.simps [simp del]

text \<open>A per-client field: the client is looked up by the first 36 bytes; \<open>missing\<close> is the
  exception when there is none.\<close>

definition load_field ::
  "py_exc \<Rightarrow> (bytes \<Rightarrow> nat \<Rightarrow> client \<Rightarrow> client result) \<Rightarrow> bytes \<Rightarrow> checkpoint \<Rightarrow> checkpoint result" where
  "load_field missing load v ck =
     (let client_uuid = decode_latin1 (take 36 v) in
      case map_of (ck_client_db ck) client_uuid of None \<Rightarrow> Inl missing
      | Some c \<Rightarrow> py_bind (load v 36 c) (\<lambda>c'.
          Inr (ck\<lparr>ck_client_db := dict_setitem (ck_client_db ck) client_uuid c'\<rparr>)))"

definition deserialize_field :: "byte \<Rightarrow> bytes \<Rightarrow> checkpoint \<Rightarrow> checkpoint result" where
  "deserialize_field field_type v ck =
     (if field_type = 0x10 then Inr (ck\<lparr>ck_pending_db_key := Some v\<rparr>)
      else if field_type = 0x11 then
        (case ck_pending_db_key ck of None \<Rightarrow> Inl ValueError
         | Some key \<Rightarrow> Inr (ck\<lparr>ck_db := dict_setitem (ck_db ck) key v, ck_pending_db_key := None\<rparr>))
      else if field_type = 0x20 then
        py_bind (unpack_from_I v 0) (\<lambda>key_length.
          Inr (ck\<lparr>ck_pending_address := Some (decode_latin1 (slice v 4 (4 + key_length)))\<rparr>))
      else if field_type = 0x21 then
        (case ck_pending_address ck of None \<Rightarrow> Inl ValueError
         | Some address \<Rightarrow>
             Inr (ck\<lparr>ck_address_book := dict_setitem (ck_address_book ck) address (decode_latin1 v),
                     ck_pending_address := None\<rparr>))
      else if field_type = 0x30 then
        (let client_uuid = decode_latin1 v in
         Inr (ck\<lparr>ck_client_db := dict_setitem (ck_client_db ck) client_uuid (restored_client client_uuid)\<rparr>))
      else if field_type = 0x31 then load_field ValueError load_addresses v ck
      else if field_type = 0x32 then load_field KeyError load_inbox v ck
      else if field_type = 0x33 then load_field KeyError load_outbox v ck
      else Inr ck)"

text \<open>\<open>zip(table_of_t, table_of_v, strict=True)\<close>: the shorter table ends the loop with an
  exception.\<close>

fun deserialize_fields :: "bytes \<Rightarrow> bytes list \<Rightarrow> checkpoint \<Rightarrow> checkpoint result" where
  "deserialize_fields [] [] ck = Inr ck"
| "deserialize_fields (t # ts) (v # vs) ck =
     py_bind (deserialize_field t v ck) (deserialize_fields ts vs)"
| "deserialize_fields _ _ ck = Inl ValueError"

fun cut_values :: "bytes \<Rightarrow> nat \<Rightarrow> nat list \<Rightarrow> bytes list" where
  "cut_values table offset [] = []"
| "cut_values table offset (l # ls) = slice table offset (offset + l) # cut_values table (offset + l) ls"

definition deserialize_tables :: "crypto \<Rightarrow> bytes \<Rightarrow> checkpoint result" where
  "deserialize_tables cr data =
     py_bind (unpack_from_I data 0) (\<lambda>magic.
       if magic \<noteq> MAGIC then Inl ValueError
       else case zstd_decompress cr 0 (drop 4 data) of None \<Rightarrow> Inl ZstdError
       | Some serialized_data \<Rightarrow>
           if length serialized_data < 12 then Inl StructError
           else let lens = u32s 3 (take 12 serialized_data);
                    nt = lens ! 0; nl = lens ! 1; nv = lens ! 2;
                    offset = 12;
                    table_of_t = slice serialized_data offset (offset + nt);
                    offset = offset + nt;
                    table_of_l_data = slice serialized_data offset (offset + nl);
                    offset = offset + nl;
                    table_of_v_data = slice serialized_data offset (offset + nv)
                in py_bind (map_result (\<lambda>k. unpack_from_I table_of_l_data (4 * k)) [0..<(nl + 3) div 4])
                   (\<lambda>table_of_l.
                     deserialize_fields table_of_t (cut_values table_of_v_data 0 table_of_l)
                       empty_checkpoint))"

text \<open>Without a server the tables are returned; with one they are installed in it.\<close>

datatype deserialized =
    Tables "(bytes, bytes) dict" "(pystr, pystr) dict" "(pystr, client) dict"
  | Installed server

definition deserialize :: "crypto \<Rightarrow> bytes \<Rightarrow> server option \<Rightarrow> deserialized result" where
  "deserialize cr data target =
     py_bind (deserialize_tables cr data) (\<lambda>ck.
       case target of
         None \<Rightarrow> Inr (Tables (ck_db ck) (ck_address_book ck) (ck_client_db ck))
       | Some s \<Rightarrow>
           (case apply_state (ck_db ck) (ck_client_db ck) (ck_address_book ck) s of
              (_, _, s') \<Rightarrow> Inr (Installed s')))"

end
