(* ===== verification/SerialProofs.thy ===== *)
theory SerialProofs
  imports Serial PyLib
begin

text \<open>
  The round trip of the checkpoint. An item of the three per-client lists is written by an
  encoder and read back by a reader inside a loop; \<open>item_codec\<close> states what the loops need,
  and is interpreted for addresses, requests and responses. From there the lemmas go up:
  the fields of the database, of the address book and of a client, then the tables.
\<close>

section \<open>Items\<close>

lemma prefixed_Inr:
  "prefixed b = Inr x \<longleftrightarrow> length b < 2 ^ 32 \<and> x = be_bytes 4 (length b) @ b"
  by (auto simp: prefixed_def pack_I_Inr)

lemma prefixed_nonempty: "prefixed b = Inr x \<Longrightarrow> x \<noteq> []"
proof -
  assume "prefixed b = Inr x"
  then have "length x = 4 + length b" by (simp add: prefixed_Inr)
  then show "x \<noteq> []" by auto
qed

lemma read_prefixed_at:
  assumes "prefixed b = Inr x"
  shows "read_prefixed (pre @ x @ rest) (length pre) = Inr (b, length pre + length x)"
proof -
  from assms have b: "length b < 2 ^ 32" and x: "x = be_bytes 4 (length b) @ b"
    by (simp_all add: prefixed_Inr)
  have "unpack_from_I (pre @ x @ rest) (length pre) = Inr (length b)"
    using unpack_from_I_at [OF refl b, of pre "b @ rest"] x by simp
  then show ?thesis
    by (simp add: read_prefixed_def Let_def slice_def x)
qed

locale item_codec =
  fixes enc :: "'a \<Rightarrow> bytes result"
    and rd :: "bytes \<Rightarrow> nat \<Rightarrow> ('a \<times> nat) result"
    and load :: "bytes \<Rightarrow> nat \<Rightarrow> client \<Rightarrow> client result"
    and add :: "'a \<Rightarrow> client \<Rightarrow> client"
  assumes rd_enc: "enc x = Inr b \<Longrightarrow> rd (pre @ b @ rest) (length pre) = Inr (x, length pre + length b)"
    and enc_nonempty: "enc x = Inr b \<Longrightarrow> b \<noteq> []"
    and load_end: "length v \<le> i \<Longrightarrow> load v i c = Inr c"
    and load_step: "i < length v \<Longrightarrow> rd v i = Inr (x, j) \<Longrightarrow> load v i c = load v j (add x c)"
begin

lemma load_all:
  "map_result enc xs = Inr bs \<Longrightarrow> load (pre @ concat bs) (length pre) c = Inr (fold add xs c)"
proof (induction xs arbitrary: pre bs c)
  case Nil
  then show ?case by (simp add: load_end)
next
  case (Cons x xs)
  then obtain b bs' where b: "enc x = Inr b" "map_result enc xs = Inr bs'" "bs = b # bs'"
    by auto
  have "load (pre @ b @ concat bs') (length pre) c =
      load (pre @ b @ concat bs') (length (pre @ b)) (add x c)"
    using load_step [OF _ rd_enc [OF b(1), of pre "concat bs'"]] enc_nonempty [OF b(1)] by simp
  with Cons.IH [OF b(2), of "pre @ b"] b(3) show ?case by simp
qed

end

interpretation addresses: item_codec address_item read_address load_addresses add_address
proof unfold_locales
  fix x b pre rest
  assume "address_item x = Inr b"
  then obtain a where a: "encode_latin1 x = Inr a" "prefixed a = Inr b"
    by (auto simp: address_item_def)
  then show "read_address (pre @ b @ rest) (length pre) = Inr (x, length pre + length b)"
    using decode_encode_latin1 [OF a(1)] by (simp add: read_address_def read_prefixed_at)
next
  fix x b
  assume "address_item x = Inr b"
  then show "b \<noteq> []" by (auto simp: address_item_def dest: prefixed_nonempty)
qed (simp_all add: load_addresses.simps)

text \<open>An item of several prefixed fields, read one after the other.\<close>

lemma read_prefixed_next:
  assumes "prefixed b = Inr x"
  shows "read_prefixed (pre @ x @ rest) (length pre) = Inr (b, length (pre @ x))"
  using read_prefixed_at [OF assms] by simp

interpretation requests: item_codec inbox_item read_request load_inbox add_request
proof unfold_locales
  fix x b pre rest
  assume "inbox_item x = Inr b"
  then obtain a1 a2 a3 a4 where
    a: "prefixed (rq_return_uuid x) = Inr a1" "prefixed (rq_key x) = Inr a2"
      "prefixed (rq_request x) = Inr a3" "prefixed (rq_request_uuid x) = Inr a4"
    and b: "b = a1 @ a2 @ a3 @ a4"
    by (auto simp: inbox_item_def)
  show "read_request (pre @ b @ rest) (length pre) = Inr (x, length pre + length b)"
    using read_prefixed_next [OF a(1), of pre "a2 @ a3 @ a4 @ rest"]
      read_prefixed_next [OF a(2), of "pre @ a1" "a3 @ a4 @ rest"]
      read_prefixed_next [OF a(3), of "pre @ a1 @ a2" "a4 @ rest"]
      read_prefixed_next [OF a(4), of "pre @ a1 @ a2 @ a3" rest]
    by (simp add: read_request_def b add.assoc)
next
  fix x b
  assume "inbox_item x = Inr b"
  then show "b \<noteq> []" by (auto simp: inbox_item_def dest: prefixed_nonempty)
qed (simp_all add: load_inbox.simps)

interpretation responses: item_codec outbox_item read_response load_outbox add_response
proof unfold_locales
  fix x b pre rest
  assume "outbox_item x = Inr b"
  then obtain a1 a2 a3 where
    a: "prefixed (rs_key x) = Inr a1" "prefixed (rs_response x) = Inr a2"
      "prefixed (rs_response_uuid x) = Inr a3"
    and b: "b = a1 @ a2 @ a3"
    by (auto simp: outbox_item_def)
  show "read_response (pre @ b @ rest) (length pre) = Inr (x, length pre + length b)"
    using read_prefixed_next [OF a(1), of pre "a2 @ a3 @ rest"]
      read_prefixed_next [OF a(2), of "pre @ a1" "a3 @ rest"]
      read_prefixed_next [OF a(3), of "pre @ a1 @ a2" rest]
    by (simp add: read_response_def b add.assoc)
next
  fix x b
  assume "outbox_item x = Inr b"
  then show "b \<noteq> []" by (auto simp: outbox_item_def dest: prefixed_nonempty)
qed (simp_all add: load_outbox.simps)

lemma fold_add_address: "fold add_address xs c = c\<lparr>cl_addresses_owned := cl_addresses_owned c @ xs\<rparr>"
  by (induction xs arbitrary: c) (simp_all add: add_address_def)

lemma fold_add_request: "fold add_request xs c = c\<lparr>cl_inbox := cl_inbox c @ xs\<rparr>"
  by (induction xs arbitrary: c) (simp_all add: add_request_def)

lemma fold_add_response:
  "fold add_response xs c =
     c\<lparr>cl_outbox := foldl (\<lambda>d p. dict_setitem d (fst p) (snd p)) (cl_outbox c)
        (map (\<lambda>r. (rs_response_uuid r, r)) xs)\<rparr>"
  by (induction xs arbitrary: c) (simp_all add: add_response_def)

section \<open>Fields\<close>

definition run_fields :: "field list \<Rightarrow> checkpoint \<Rightarrow> checkpoint result" where
  "run_fields fs ck = deserialize_fields (map fst fs) (map (snd \<circ> snd) fs) ck"

definition fields_ok :: "field list \<Rightarrow> bool" where
  "fields_ok fs \<longleftrightarrow> (\<forall>(t, l, v) \<in> set fs. length v < 2 ^ 32 \<and> l = be_bytes 4 (length v))"

lemma fields_ok_append [simp]: "fields_ok (fs @ gs) \<longleftrightarrow> fields_ok fs \<and> fields_ok gs"
  by (simp add: fields_ok_def ball_Un)

lemma run_fields_simps [simp]:
  "run_fields [] ck = Inr ck"
  "run_fields ((t, l, v) # fs) ck = py_bind (deserialize_field t v ck) (run_fields fs)"
  by (simp_all add: run_fields_def fun_eq_iff) (simp add: run_fields_def [abs_def])

lemma run_fields_append: "run_fields (fs @ gs) ck = py_bind (run_fields fs ck) (run_fields gs)"
proof (induction fs arbitrary: ck)
  case (Cons f fs)
  then show ?case by (cases f) (auto simp: py_bind_def split: sum.split)
qed simp

lemma add_field_Inr:
  "add_field t v fs = Inr fs' \<longleftrightarrow> length v < 2 ^ 32 \<and> fs' = fs @ [(t, be_bytes 4 (length v), v)]"
  by (auto simp: add_field_def pack_I_Inr)

text \<open>A step of the writer appended fields that the reader turns into \<open>f ck\<close>.\<close>

definition wrote :: "field list \<Rightarrow> field list \<Rightarrow> checkpoint \<Rightarrow> checkpoint \<Rightarrow> bool" where
  "wrote fs fs' ck ck' \<longleftrightarrow> (\<exists>gs. fs' = fs @ gs \<and> fields_ok gs \<and> run_fields gs ck = Inr ck')"

lemma wrote_refl [simp]: "wrote fs fs ck ck"
  by (simp add: wrote_def fields_ok_def)

lemma wrote_trans [trans]: "wrote fs fs1 ck ck1 \<Longrightarrow> wrote fs1 fs2 ck1 ck2 \<Longrightarrow> wrote fs fs2 ck ck2"
  unfolding wrote_def by (metis append.assoc fields_ok_append run_fields_append py_bind_simps(2))

lemma wrote_field:
  "add_field t v fs = Inr fs' \<Longrightarrow> deserialize_field t v ck = Inr ck' \<Longrightarrow> wrote fs fs' ck ck'"
  by (auto simp: wrote_def add_field_Inr fields_ok_def)

abbreviation set_all :: "('k, 'v) dict \<Rightarrow> ('k, 'v) dict \<Rightarrow> ('k, 'v) dict" where
  "set_all d ps \<equiv> foldl (\<lambda>d p. dict_setitem d (fst p) (snd p)) d ps"

lemma serialize_db_wrote:
  "serialize_db db fs = Inr fs' \<Longrightarrow> ck_pending_db_key ck = None \<Longrightarrow>
   wrote fs fs' ck (ck\<lparr>ck_db := set_all (ck_db ck) db\<rparr>)"
proof (induction db arbitrary: fs ck)
  case (Cons p db)
  obtain k v where p: "p = (k, v)" by (cases p)
  from Cons.prems(1) p obtain f1 f2 where
    f: "add_field 0x10 k fs = Inr f1" "add_field 0x11 v f1 = Inr f2" "serialize_db db f2 = Inr fs'"
    by auto
  let ?ck1 = "ck\<lparr>ck_pending_db_key := Some k\<rparr>"
  let ?ck2 = "ck\<lparr>ck_db := dict_setitem (ck_db ck) k v\<rparr>"
  have "wrote fs f1 ck ?ck1" using f(1) by (rule wrote_field) (simp add: deserialize_field_def)
  also have "wrote f1 f2 ?ck1 ?ck2"
    using f(2) by (rule wrote_field) (simp add: deserialize_field_def Cons.prems(2))
  also have "wrote f2 fs' ?ck2 (?ck2\<lparr>ck_db := set_all (ck_db ?ck2) db\<rparr>)"
    by (rule Cons.IH [OF f(3)]) (simp add: Cons.prems(2))
  finally show ?case using p by simp
qed simp

lemma serialize_book_wrote:
  "serialize_book book fs = Inr fs' \<Longrightarrow> ck_pending_address ck = None \<Longrightarrow>
   wrote fs fs' ck (ck\<lparr>ck_address_book := set_all (ck_address_book ck) book\<rparr>)"
proof (induction book arbitrary: fs ck)
  case (Cons p book)
  obtain key uuid where p: "p = (key, uuid)" by (cases p)
  from Cons.prems(1) p obtain k u f1 f2 where
    f: "add_field 0x20 (be_bytes 4 (length key) @ k) fs = Inr f1" "add_field 0x21 u f1 = Inr f2"
      "serialize_book book f2 = Inr fs'"
    and l: "length key < 2 ^ 32" and k: "encode_latin1 key = Inr k" and u: "encode_latin1 uuid = Inr u"
    by (auto simp: pack_I_Inr split: if_splits)
  let ?ck1 = "ck\<lparr>ck_pending_address := Some key\<rparr>"
  let ?ck2 = "ck\<lparr>ck_address_book := dict_setitem (ck_address_book ck) key uuid\<rparr>"
  have "slice (be_bytes 4 (length key) @ k) 4 (4 + length key) = k"
    using length_encode_latin1 [OF k] by (simp add: slice_def)
  then have "wrote fs f1 ck ?ck1"
    using l decode_encode_latin1 [OF k]
    by (intro wrote_field [OF f(1)]) (simp add: deserialize_field_def unpack_from_I_0)
  also have "wrote f1 f2 ?ck1 ?ck2"
    using f(2) by (rule wrote_field)
      (simp add: deserialize_field_def Cons.prems(2) decode_encode_latin1 [OF u])
  also have "wrote f2 fs' ?ck2 (?ck2\<lparr>ck_address_book := set_all (ck_address_book ?ck2) book\<rparr>)"
    by (rule Cons.IH [OF f(3)]) (simp add: Cons.prems(2))
  finally show ?case using p by simp
qed simp

section \<open>Clients\<close>

text \<open>What a checkpoint keeps of a session: its UUID, keys, inbox and outbox.\<close>

definition persisted :: "client \<Rightarrow> client" where
  "persisted c = (restored_client (cl_uuid c))\<lparr>cl_addresses_owned := cl_addresses_owned c,
     cl_inbox := cl_inbox c, cl_outbox := cl_outbox c\<rparr>"

text \<open>The tables a checkpoint can hold: no duplicate keys, sessions and responses filed under
  their own identifiers.\<close>

definition outbox_ok :: "(bytes, Response) dict \<Rightarrow> bool" where
  "outbox_ok out \<longleftrightarrow> dict_ok out \<and> (\<forall>(k, r) \<in> set out. k = rs_response_uuid r)"

definition persistable :: "server \<Rightarrow> bool" where
  "persistable s \<longleftrightarrow> dict_ok (sv_db s) \<and> dict_ok (sv_address_book s) \<and> dict_ok (sv_client_db s) \<and>
     (\<forall>(u, c) \<in> set (sv_client_db s). cl_uuid c = u \<and> outbox_ok (cl_outbox c))"

lemma drain_inbox_all:
  "drain_inbox rs acc = (Inr items, rest) \<Longrightarrow>
   rest = [] \<and> (\<exists>bs. map_result inbox_item rs = Inr bs \<and> items = acc @ bs)"
proof (induction rs arbitrary: acc)
  case (Cons r rs)
  then obtain b where "inbox_item r = Inr b" "drain_inbox rs (acc @ [b]) = (Inr items, rest)"
    by (auto split: sum.splits)
  with Cons.IH [of "acc @ [b]"] show ?case by auto
qed simp

lemma dict_contains_append_new [simp]:
  "\<not> dict_contains d u \<Longrightarrow> dict_setitem (d @ [(u, c)]) u c' = d @ [(u, c')]"
  unfolding dict_contains_def dict_setitem_def by (induction d) auto

lemma map_of_append_new:
  "\<not> dict_contains d u \<Longrightarrow> map_of (d @ [(u, c)]) u = Some c"
  by (simp add: dict_contains_map_of map_add_def)

text \<open>One per-client field, on a checkpoint whose last session is that client.\<close>

lemma load_field_last:
  assumes "\<not> dict_contains (ck_client_db ck) (cl_uuid c)" and "encode_latin1 (cl_uuid c) = Inr u"
    and "length u = 36" and "load (u @ rest) 36 c0 = Inr c1"
  shows "load_field e load (u @ rest) (ck\<lparr>ck_client_db := ck_client_db ck @ [(cl_uuid c, c0)]\<rparr>) =
     Inr (ck\<lparr>ck_client_db := ck_client_db ck @ [(cl_uuid c, c1)]\<rparr>)"
  using assms decode_encode_latin1 [OF assms(2)]
  by (simp add: load_field_def Let_def map_of_append_new del: map_of_append)

lemma set_all_outbox:
  "outbox_ok out \<Longrightarrow> set_all [] (map (\<lambda>r. (rs_response_uuid r, r)) (dict_values out)) = out"
proof -
  assume ok: "outbox_ok out"
  then have "map (\<lambda>r. (rs_response_uuid r, r)) (dict_values out) = out"
    by (auto simp: dict_values_def outbox_ok_def intro!: map_idI)
  then show ?thesis
    using ok foldl_setitem_distinct [of "[]" out] by (simp add: outbox_ok_def dict_ok_def)
qed

lemma serialize_client_wrote:
  assumes ser: "serialize_client c fs = (Inr fs', c')"
    and new: "\<not> dict_contains (ck_client_db ck) (cl_uuid c)" and out: "outbox_ok (cl_outbox c)"
  shows "c' = c\<lparr>cl_inbox := []\<rparr> \<and>
    wrote fs fs' ck (ck\<lparr>ck_client_db := ck_client_db ck @ [(cl_uuid c, persisted c)]\<rparr>)"
proof -
  from ser obtain f1 items rest where f1: "serialize_identity c fs = Inr f1"
    and dr: "drain_inbox (cl_inbox c) [] = (Inr items, rest)"
    and q: "serialize_queues c items f1 = Inr fs'" and c': "c' = c\<lparr>cl_inbox := rest\<rparr>"
    by (auto simp: serialize_client_def split: sum.splits prod.splits)
  from drain_inbox_all [OF dr] have rest: "rest = []"
    and items: "map_result inbox_item (cl_inbox c) = Inr items" by auto
  from f1 obtain u g1 as where u: "encode_latin1 (cl_uuid c) = Inr u" and len: "length (cl_uuid c) = 36"
    and g1: "add_field 0x30 u fs = Inr g1" and as: "map_result address_item (cl_addresses_owned c) = Inr as"
    and g2: "add_field 0x31 (u @ concat as) g1 = Inr f1"
    by (auto simp: serialize_identity_def split: if_splits)
  from q u obtain f2 os where g3: "add_field 0x32 (u @ concat items) f1 = Inr f2"
    and os: "map_result outbox_item (dict_values (cl_outbox c)) = Inr os"
    and g4: "add_field 0x33 (u @ concat os) f2 = Inr fs'"
    by (auto simp: serialize_queues_def)
  have lu: "length u = 36" using length_encode_latin1 [OF u] len by simp
  let ?ck = "\<lambda>x. ck\<lparr>ck_client_db := ck_client_db ck @ [(cl_uuid c, x)]\<rparr>"
  let ?c0 = "restored_client (cl_uuid c)"
  let ?c1 = "?c0\<lparr>cl_addresses_owned := cl_addresses_owned c\<rparr>"
  let ?c2 = "?c1\<lparr>cl_inbox := cl_inbox c\<rparr>"
  have l1: "load_addresses (u @ concat as) 36 ?c0 = Inr ?c1"
    using addresses.load_all [OF as, of u ?c0] lu by (simp add: fold_add_address restored_client_def)
  have l2: "load_inbox (u @ concat items) 36 ?c1 = Inr ?c2"
    using requests.load_all [OF items, of u ?c1] lu by (simp add: fold_add_request restored_client_def)
  have l3: "load_outbox (u @ concat os) 36 ?c2 = Inr (persisted c)"
    using responses.load_all [OF os, of u ?c2] lu set_all_outbox [OF out]
    by (simp add: fold_add_response restored_client_def persisted_def)
  have "wrote fs g1 ck (?ck ?c0)"
    using g1 by (rule wrote_field)
      (simp add: deserialize_field_def decode_encode_latin1 [OF u] Let_def setitem_new [OF new])
  also have "wrote g1 f1 (?ck ?c0) (?ck ?c1)"
    using g2 by (rule wrote_field)
      (simp add: deserialize_field_def load_field_last [where load = load_addresses, OF new u lu l1])
  also have "wrote f1 f2 (?ck ?c1) (?ck ?c2)"
    using g3 by (rule wrote_field)
      (simp add: deserialize_field_def load_field_last [where load = load_inbox, OF new u lu l2])
  also have "wrote f2 fs' (?ck ?c2) (?ck (persisted c))"
    using g4 by (rule wrote_field)
      (simp add: deserialize_field_def load_field_last [where load = load_outbox, OF new u lu l3])
  finally show ?thesis using c' rest by simp
qed

definition drained :: "(pystr, client) dict \<Rightarrow> (pystr, client) dict" where
  "drained cdb = map (\<lambda>(u, c). (u, c\<lparr>cl_inbox := []\<rparr>)) cdb"

definition persisted_db :: "(pystr, client) dict \<Rightarrow> (pystr, client) dict" where
  "persisted_db cdb = map (\<lambda>(u, c). (u, persisted c)) cdb"

lemma serialize_clients_wrote:
  "serialize_clients cdb fs = (Inr fs', cdb') \<Longrightarrow>
   distinct (map fst (ck_client_db ck @ cdb)) \<Longrightarrow>
   \<forall>(u, c) \<in> set cdb. cl_uuid c = u \<and> outbox_ok (cl_outbox c) \<Longrightarrow>
   cdb' = drained cdb \<and>
   wrote fs fs' ck (ck\<lparr>ck_client_db := ck_client_db ck @ persisted_db cdb\<rparr>)"
proof (induction cdb arbitrary: fs ck cdb')
  case Nil
  then show ?case by (simp add: drained_def persisted_db_def)
next
  case (Cons p cdb)
  obtain u c where p: "p = (u, c)" by (cases p)
  from Cons.prems(1) p obtain f1 c1 cdb1 where f1: "serialize_client c fs = (Inr f1, c1)"
    and f2: "serialize_clients cdb f1 = (Inr fs', cdb1)" and cdb': "cdb' = (u, c1) # cdb1"
    by (auto split: prod.splits sum.splits)
  have u: "cl_uuid c = u" "outbox_ok (cl_outbox c)" using Cons.prems(3) p by auto
  have new: "\<not> dict_contains (ck_client_db ck) (cl_uuid c)"
    using Cons.prems(2) p u by (auto simp: dict_contains_def)
  let ?ck = "ck\<lparr>ck_client_db := ck_client_db ck @ [(u, persisted c)]\<rparr>"
  from serialize_client_wrote [OF f1 new u(2)] have c1: "c1 = c\<lparr>cl_inbox := []\<rparr>"
    and w1: "wrote fs f1 ck ?ck" using u by auto
  from Cons.IH [OF f2, of ?ck] Cons.prems(2,3) p have "cdb1 = drained cdb"
    and "wrote f1 fs' ?ck (ck\<lparr>ck_client_db := ck_client_db ck @ (u, persisted c) # persisted_db cdb\<rparr>)"
    by auto
  then show ?case
    using wrote_trans [OF w1] p c1 cdb' by (simp add: drained_def persisted_db_def)
qed

section \<open>Tables\<close>

lemma lengths_read:
  assumes "\<forall>n \<in> set ns. n < 2 ^ 32"
  shows "map_result (\<lambda>k. unpack_from_I (pre @ concat (map (be_bytes 4) ns)) (length pre + 4 * k))
     [0..<length ns] = Inr ns"
  using assms
proof (induction ns arbitrary: pre)
  case (Cons n ns)
  have "map_result (\<lambda>k. unpack_from_I (pre @ be_bytes 4 n @ concat (map (be_bytes 4) ns))
      (length pre + 4 * k)) (map Suc [0..<length ns]) =
    map_result (\<lambda>k. unpack_from_I ((pre @ be_bytes 4 n) @ concat (map (be_bytes 4) ns))
      (length (pre @ be_bytes 4 n) + 4 * k)) [0..<length ns]"
  proof -
    have "map_result f (map Suc xs) = map_result (\<lambda>k. f (Suc k)) xs" for f :: "nat \<Rightarrow> nat result" and xs
      by (induction xs) simp_all
    then show ?thesis by (simp add: algebra_simps)
  qed
  also have "\<dots> = Inr ns" using Cons.prems by (intro Cons.IH) simp
  finally show ?case
    using Cons.prems unpack_from_I_at [OF refl, of n pre "concat (map (be_bytes 4) ns)"]
    by (simp add: upt_conv_Cons map_Suc_upt del: upt_Suc)
qed simp

lemma cut_values_concat:
  "cut_values (pre @ concat vs) (length pre) (map length vs) = vs"
proof (induction vs arbitrary: pre)
  case (Cons v vs)
  then show ?case using Cons.IH [of "pre @ v"] by (simp add: slice_def)
qed simp

lemma fields_ok_tables:
  assumes "fields_ok fs"
  shows "concat (map (fst \<circ> snd) fs) = concat (map (be_bytes 4) (map (length \<circ> (snd \<circ> snd)) fs))"
    and "\<forall>n \<in> set (map (length \<circ> (snd \<circ> snd)) fs). n < 2 ^ 32"
  using assms by (induction fs) (auto simp: fields_ok_def)

lemma deserialize_serialized_tables:
  assumes "zstd_ok cr" and ok: "fields_ok fs" and "serialize_tables cr fs = Inr data"
  shows "deserialize_tables cr data = run_fields fs empty_checkpoint"
proof -
  let ?t = "map fst fs" and ?l = "concat (map (fst \<circ> snd) fs)" and ?v = "concat (map (snd \<circ> snd) fs)"
  let ?ns = "map (length \<circ> (snd \<circ> snd)) fs"
  note l = fields_ok_tables [OF ok]
  have ll: "length ?l = 4 * length fs" using l(1) length_concat_u32 [of ?ns] by simp
  from assms(3) obtain hdr where hdr: "pack_Is [length ?t, length ?l, length ?v] = Inr hdr"
    and data: "data = be_bytes 4 MAGIC @ zstd_compress cr checkpoint_level (hdr @ ?t @ ?l @ ?v)"
    by (auto simp: serialize_tables_def Let_def pack_I_Inr simp del: pack_Is.simps)
  let ?lens = "[length ?t, length ?l, length ?v]"
  from hdr have small: "\<forall>n \<in> set ?lens. n < 2 ^ 32"
    by (auto simp: pack_I_Inr)
  have h: "hdr = concat (map (be_bytes 4) ?lens)" using hdr by (rule pack_Is_Inr)
  have lh: "length hdr = 12" using h length_concat_u32 [of ?lens] by simp
  let ?sd = "hdr @ ?t @ ?l @ ?v"
  have u: "u32s 3 (take 12 ?sd) = ?lens"
    using u32s_concat [OF small, of 3 "[]"] h lh by simp
  have sl: "slice ?sd 12 (12 + length ?t) = ?t"
    "slice ?sd (12 + length ?t) (12 + length ?t + length ?l) = ?l"
    "slice ?sd (12 + length ?t + length ?l) (12 + length ?t + length ?l + length ?v) = ?v"
    using lh by (simp_all add: slice_def)
  have magic: "unpack_from_I data 0 = Inr MAGIC"
    unfolding data by (rule unpack_from_I_0) (simp add: MAGIC_def)
  have z: "zstd_decompress cr 0 (drop 4 data) = Some ?sd"
    unfolding data using zstd_okD [OF assms(1)] by simp
  have n4: "(length ?l + 3) div 4 = length ?ns" unfolding ll by simp
  have rd: "map_result (\<lambda>k. unpack_from_I ?l (4 * k)) [0..<(length ?l + 3) div 4] = Inr ?ns"
    unfolding n4 using lengths_read [OF l(2), of "[]"] unfolding l(1) [symmetric]
    by (simp only: append_Nil list.size(3) add_0)
  have cut: "cut_values ?v 0 ?ns = map (snd \<circ> snd) fs"
    using cut_values_concat [of "[]" "map (snd \<circ> snd) fs"] by simp
  have "\<not> length ?sd < 12" using lh by simp
  then show ?thesis
    unfolding deserialize_tables_def magic py_bind_simps z option.case Let_def u
    by (simp only: nth_Cons_0 nth_Cons_numeral One_nat_def nth_Cons_Suc sl rd cut py_bind_simps
        run_fields_def if_False simp_thms refl numeral_2_eq_2)
qed

section \<open>The round trip\<close>

lemma serialize_Return:
  assumes "serialize cr s = (Return data, es, s')"
  obtains f1 f2 f3 cdb' where "serialize_db (sv_db s) [] = Inr f1"
    and "serialize_book (sv_address_book s) f1 = Inr f2"
    and "serialize_clients (sv_client_db s) f2 = (Inr f3, cdb')"
    and "serialize_tables cr f3 = Inr data" and "es = []" and "s' = s\<lparr>sv_client_db := cdb'\<rparr>"
proof -
  obtain f1 where 1: "serialize_db (sv_db s) [] = Inr f1"
    using assms by (cases "serialize_db (sv_db s) []") (simp_all add: serialize_def act_simps)
  obtain f2 where 2: "serialize_book (sv_address_book s) f1 = Inr f2"
    using assms 1 by (cases "serialize_book (sv_address_book s) f1") (simp_all add: serialize_def act_simps)
  obtain r cdb' where r: "serialize_clients (sv_client_db s) f2 = (r, cdb')"
    by (cases "serialize_clients (sv_client_db s) f2")
  obtain f3 where 3: "r = Inr f3"
    using assms 1 2 r by (cases r) (simp_all add: serialize_def act_simps)
  obtain d where 4: "serialize_tables cr f3 = Inr d"
    using assms 1 2 r 3 by (cases "serialize_tables cr f3") (simp_all add: serialize_def act_simps)
  show ?thesis
    using assms 1 2 r 3 4 by (intro that) (auto simp: serialize_def act_simps)
qed

lemma set_all_dict_ok: "dict_ok d \<Longrightarrow> set_all [] d = d"
  using foldl_setitem_distinct [of "[]" d] by (simp add: dict_ok_def)

lemma map_fst_persisted_db [simp]: "map fst (persisted_db cdb) = map fst cdb"
  by (simp add: persisted_db_def case_prod_unfold)

lemma checkpoint_round_trip:
  assumes cr: "zstd_ok cr" and ok: "persistable s" and ser: "serialize cr s = (Return data, es, s')"
  shows "deserialize cr data None =
      Inr (Tables (sv_db s) (sv_address_book s) (persisted_db (sv_client_db s))) \<and>
    es = [] \<and> s' = s\<lparr>sv_client_db := drained (sv_client_db s)\<rparr>"
proof -
  obtain f1 f2 f3 cdb' where f: "serialize_db (sv_db s) [] = Inr f1"
    "serialize_book (sv_address_book s) f1 = Inr f2"
    "serialize_clients (sv_client_db s) f2 = (Inr f3, cdb')"
    "serialize_tables cr f3 = Inr data" "es = []" "s' = s\<lparr>sv_client_db := cdb'\<rparr>"
    using serialize_Return [OF ser] by blast
  let ?ck1 = "empty_checkpoint\<lparr>ck_db := sv_db s\<rparr>"
  let ?ck2 = "?ck1\<lparr>ck_address_book := sv_address_book s\<rparr>"
  let ?ck3 = "?ck2\<lparr>ck_client_db := persisted_db (sv_client_db s)\<rparr>"
  have p: "dict_ok (sv_db s)" "dict_ok (sv_address_book s)" "dict_ok (sv_client_db s)"
    "\<forall>(u, c) \<in> set (sv_client_db s). cl_uuid c = u \<and> outbox_ok (cl_outbox c)"
    using ok by (simp_all add: persistable_def)
  have "wrote [] f1 empty_checkpoint ?ck1"
    using serialize_db_wrote [OF f(1), of empty_checkpoint] set_all_dict_ok [OF p(1)]
    by (simp add: empty_checkpoint_def dict_factory_def)
  also have "wrote f1 f2 ?ck1 ?ck2"
    using serialize_book_wrote [OF f(2), of ?ck1] set_all_dict_ok [OF p(2)]
    by (simp add: empty_checkpoint_def dict_factory_def)
  also have "cdb' = drained (sv_client_db s) \<and> wrote f2 f3 ?ck2 ?ck3"
    using serialize_clients_wrote [OF f(3), of ?ck2] p(3,4)
    by (simp add: empty_checkpoint_def dict_factory_def dict_ok_def)
  then have cdb': "cdb' = drained (sv_client_db s)" and w: "wrote f2 f3 ?ck2 ?ck3" by auto
  note w
  finally have "fields_ok f3" "run_fields f3 empty_checkpoint = Inr ?ck3"
    by (auto simp: wrote_def)
  then have "deserialize_tables cr data = Inr ?ck3"
    using deserialize_serialized_tables [OF cr _ f(4)] by simp
  then show ?thesis
    using f(5,6) cdb' by (simp add: deserialize_def empty_checkpoint_def)
qed

text \<open>A checkpoint of the persisted tables is a fixed point: nothing further is lost.\<close>

lemma persisted_idem: "persisted (persisted c) = persisted c"
  by (simp add: persisted_def restored_client_def)

lemma deserialize_bad_magic:
  "4 \<le> length data \<Longrightarrow> be_val (take 4 data) \<noteq> MAGIC \<Longrightarrow> deserialize cr data target = Inl ValueError"
  by (simp add: deserialize_def deserialize_tables_def unpack_from_I_def slice_0)

lemma deserialize_short: "length data < 4 \<Longrightarrow> deserialize cr data target = Inl StructError"
  by (simp add: deserialize_def deserialize_tables_def unpack_from_I_def)

end
