(* ===== verification/Reach.thy ===== *)
theory Reach
  imports Loop SerialProofs
begin

text \<open>
  The server as a transition system: start and stop, logins, requests of any session in any
  order, handlers that clean up, database operations and removals of sessions by the embedding
  program, and checkpoints. The locale
  \<open>server_invariant\<close> lists the updates these steps make to the state; a predicate that
  survives each of them holds in every reachable state. It is interpreted for the form of the
  tables, for the agreement of the address book with the sessions, and for the sessions' keys.
\<close>

named_theorems keeps_simps \<open>the state an action leaves\<close>

section \<open>Steps\<close>

text \<open>The UUID drawn for a login occurs nowhere yet (\<open>uuid4\<close> does not repeat itself).\<close>

definition fresh_uuid :: "server \<Rightarrow> pystr \<Rightarrow> bool" where
  "fresh_uuid s u \<longleftrightarrow> \<not> dict_contains (sv_client_db s) u \<and> u \<notin> set (dict_values (sv_address_book s))"

inductive server_step :: "crypto \<Rightarrow> server \<Rightarrow> server \<Rightarrow> bool" for cr where
  login: "accept_login cr rnd sock address key frame s = (r, es, s') \<Longrightarrow> length key = 32 \<Longrightarrow>
     length rnd = 16 \<Longrightarrow> fresh_uuid s (uuid_str (uuid4_bytes rnd)) \<Longrightarrow> server_step cr s s'"
| request: "handle_packet cr rnd sock u frame s = (r, es, s') \<Longrightarrow> server_step cr s s'"
| disconnect: "cleanup sock u s = (r, es, s') \<Longrightarrow> server_step cr s s'"
| db_set: "set_db k v s = (r, es, s') \<Longrightarrow> server_step cr s s'"
| db_get: "get_db k s = (r', es, s') \<Longrightarrow> server_step cr s s'"
| db_remove: "remove_db k s = (r, es, s') \<Longrightarrow> server_step cr s s'"
| item_set: "server_setitem k v s = (r, es, s') \<Longrightarrow> server_step cr s s'"
| item_get: "server_getitem k s = (r', es, s') \<Longrightarrow> server_step cr s s'"
| item_del: "server_delitem k s = (r, es, s') \<Longrightarrow> server_step cr s s'"
| item_contains: "server_contains k s = (rb, es, s') \<Longrightarrow> server_step cr s s'"
| item_len: "server_len s = (rn, es, s') \<Longrightarrow> server_step cr s s'"
| item_keys: "server_keys s = (rs, es, s') \<Longrightarrow> server_step cr s s'"
| item_values: "server_values s = (rs, es, s') \<Longrightarrow> server_step cr s s'"
| client_remove: "remove_client u s = (r, es, s') \<Longrightarrow> server_step cr s s'"
| client_get: "get_client u s = (rc, es, s') \<Longrightarrow> server_step cr s s'"
| listen: "server_start resolve n s = (r, es, s') \<Longrightarrow> server_step cr s s'"
| shutdown: "server_stop s = (r, es, s') \<Longrightarrow> server_step cr s s'"
| checkpoint: "serialize cr s = (d, es, s') \<Longrightarrow> server_step cr s s'"

inductive reachable :: "crypto \<Rightarrow> server \<Rightarrow> bool" for cr where
  init: "reachable cr (new_server address port password keep multithreaded gsyncio)"
| step: "reachable cr s \<Longrightarrow> server_step cr s s' \<Longrightarrow> reachable cr s'"

section \<open>The state an action leaves\<close>

definition keeps :: "(server \<Rightarrow> bool) \<Rightarrow> 'a action \<Rightarrow> server \<Rightarrow> bool" where
  "keeps I m s \<longleftrightarrow> I (snd (snd (m s)))"

lemma keepsD: "keeps I m s \<Longrightarrow> m s = (r, es, s') \<Longrightarrow> I s'"
  by (simp add: keeps_def)

lemma keeps_basic [keeps_simps]:
  "keeps I (ret x) s = I s" "keeps I (throw e) s = I s" "keeps I block s = I s"
  "keeps I (emit ef) s = I s" "keeps I (gets f) s = I s" "keeps I (modify g) s = I (g s)"
  "keeps I (lift r) s = I s"
  by (simp_all add: keeps_def act_simps lift_def split: sum.split)

lemma keeps_and_then [keeps_simps]:
  "keeps I (and_then (ret x) (k :: 'a \<Rightarrow> 'b action)) s = keeps I (k x) s"
  "keeps I (and_then (throw e) (k :: 'a \<Rightarrow> 'b action)) s = I s"
  "keeps I (and_then (gets f) (k :: 'a \<Rightarrow> 'b action)) s = keeps I (k (f s)) s"
  "keeps I (and_then (emit ef) (k' :: unit \<Rightarrow> 'b action)) s = keeps I (k' ()) s"
  "keeps I (and_then (modify g) (k' :: unit \<Rightarrow> 'b action)) s = keeps I (k' ()) (g s)"
  "keeps I (and_then (put_session u c) (k' :: unit \<Rightarrow> 'b action)) s =
     keeps I (k' ()) (s\<lparr>sv_client_db := dict_setitem (sv_client_db s) u c\<rparr>)"
  "keeps I (and_then (set_book key u) (k' :: unit \<Rightarrow> 'b action)) s =
     keeps I (k' ()) (s\<lparr>sv_address_book := dict_setitem (sv_address_book s) key u\<rparr>)"
  "keeps I (and_then (and_then m k) (h :: 'b \<Rightarrow> 'c action)) s = keeps I (and_then m (\<lambda>x. and_then (k x) h)) s"
  by (simp_all add: keeps_def act_simps split: prod.split)

lemma keeps_lift [keeps_simps]:
  "keeps I (and_then (lift r) (k :: 'a \<Rightarrow> 'b action)) s = (case r of Inl e \<Rightarrow> I s | Inr x \<Rightarrow> keeps I (k x) s)"
  by (simp add: keeps_def act_simps lift_def split: sum.split)

lemma keeps_get_session [keeps_simps]:
  "keeps I (and_then (get_session u) (k :: client \<Rightarrow> 'b action)) s =
     (case map_of (sv_client_db s) u of None \<Rightarrow> I s | Some c \<Rightarrow> keeps I (k c) s)"
  by (simp add: keeps_def act_simps split: option.split)

lemma keeps_del_book [keeps_simps]:
  "keeps I (and_then (del_book key) (k' :: unit \<Rightarrow> 'b action)) s =
     (if dict_contains (sv_address_book s) key
      then keeps I (k' ()) (s\<lparr>sv_address_book := AList.delete key (sv_address_book s)\<rparr>) else I s)"
  by (simp add: keeps_def act_simps del_book_def dict_delitem_def and_then_def gets_def lift_def
      throw_def ret_def modify_def split: prod.split)

lemma keeps_put_session [keeps_simps]:
  "keeps I (put_session u c) s = I (s\<lparr>sv_client_db := dict_setitem (sv_client_db s) u c\<rparr>)"
  by (simp add: keeps_def act_simps)

lemma keeps_check [keeps_simps]:
  "keeps I (and_then (check b e) (k :: unit \<Rightarrow> 'b action)) s = (if b then keeps I (k ()) s else I s)"
  by (simp add: keeps_def act_simps check_def)

lemma keeps_emits: "keeps I (for_each (\<lambda>x. emit (f x)) xs) s = I s"
  by (induction xs) (simp_all add: keeps_simps)

lemma keeps_seq:
  assumes "keeps I m s" and "\<And>x s'. I s' \<Longrightarrow> keeps I (k x) s'"
  shows "keeps I (and_then m k) s"
  using assms unfolding keeps_def and_then_def
  by (auto split: prod.splits outcome.splits) (metis snd_conv)

section \<open>Invariants\<close>

lemma serialize_client_drained:
  "serialize_client c fs = (r, c') \<Longrightarrow> c'\<lparr>cl_inbox := []\<rparr> = c\<lparr>cl_inbox := []\<rparr>"
  by (auto simp: serialize_client_def split: sum.splits prod.splits)

lemma serialize_clients_drained: "serialize_clients cdb fs = (r, cdb') \<Longrightarrow> drained cdb' = drained cdb"
proof (induction cdb arbitrary: fs r cdb')
  case (Cons p cdb)
  obtain u c where p: "p = (u, c)" by (cases p)
  obtain r1 c1 where c1: "serialize_client c fs = (r1, c1)" by fastforce
  with Cons p show ?case
    using serialize_client_drained [OF c1]
    by (cases r1) (auto simp: drained_def split: prod.splits)
qed (simp add: drained_def)

locale server_invariant =
  fixes I :: "server \<Rightarrow> bool"
  assumes I_new: "I (new_server host port password keep multithreaded gsyncio)"
    and I_lock: "I s \<Longrightarrow> I (s\<lparr>sv_db_locked := b\<rparr>)"
    and I_tasks: "I s \<Longrightarrow> I (s\<lparr>sv_tasks := ts\<rparr>)"
    and I_set: "I s \<Longrightarrow> I (s\<lparr>sv_db := dict_setitem (sv_db s) k v\<rparr>)"
    and I_delete: "I s \<Longrightarrow> I (s\<lparr>sv_db := AList.delete k (sv_db s)\<rparr>)"
    and I_tx: "I s \<Longrightarrow> map_of (sv_client_db s) u = Some c \<Longrightarrow>
      I (s\<lparr>sv_client_db := dict_setitem (sv_client_db s) u (c\<lparr>cl_tx_nonce := n\<rparr>)\<rparr>)"
    and I_rx: "I s \<Longrightarrow> map_of (sv_client_db s) u = Some c \<Longrightarrow>
      I (s\<lparr>sv_client_db := dict_setitem (sv_client_db s) u (c\<lparr>cl_rx_nonce := n\<rparr>)\<rparr>)"
    and I_inbox: "I s \<Longrightarrow> map_of (sv_client_db s) u = Some c \<Longrightarrow>
      I (s\<lparr>sv_client_db := dict_setitem (sv_client_db s) u (c\<lparr>cl_inbox := q\<rparr>)\<rparr>)"
    and I_drain: "I s \<Longrightarrow> drained cdb = drained (sv_client_db s) \<Longrightarrow>
      I (s\<lparr>sv_client_db := cdb\<rparr>)"
    and I_respond: "I s \<Longrightarrow> map_of (sv_client_db s) u = Some c \<Longrightarrow> rs_response_uuid r = i \<Longrightarrow>
      I (s\<lparr>sv_client_db := dict_setitem (sv_client_db s) u
        (c\<lparr>cl_outbox := dict_setitem (cl_outbox c) i r\<rparr>)\<rparr>)"
    and I_collect: "I s \<Longrightarrow> map_of (sv_client_db s) u = Some c \<Longrightarrow>
      I (s\<lparr>sv_client_db := dict_setitem (sv_client_db s) u (c\<lparr>cl_outbox := AList.delete i (cl_outbox c)\<rparr>)\<rparr>)"
    and I_register: "I s \<Longrightarrow> map_of (sv_client_db s) u = Some c \<Longrightarrow> latin1 a \<Longrightarrow>
      \<not> dict_contains (sv_address_book s) a \<Longrightarrow>
      I (s\<lparr>sv_client_db := dict_setitem (sv_client_db s) u
            (c\<lparr>cl_addresses_owned := cl_addresses_owned c @ [a]\<rparr>),
          sv_address_book := dict_setitem (sv_address_book s) a u\<rparr>)"
    and I_unregister: "I s \<Longrightarrow> map_of (sv_client_db s) u = Some c \<Longrightarrow> a \<in> set (cl_addresses_owned c) \<Longrightarrow>
      dict_contains (sv_address_book s) a \<Longrightarrow>
      I (s\<lparr>sv_client_db := dict_setitem (sv_client_db s) u
            (c\<lparr>cl_addresses_owned := remove1 a (cl_addresses_owned c)\<rparr>),
          sv_address_book := AList.delete a (sv_address_book s)\<rparr>)"
    and I_disown: "I s \<Longrightarrow> map_of (sv_client_db s) u = Some c \<Longrightarrow> a \<in> set (cl_addresses_owned c) \<Longrightarrow>
      \<not> dict_contains (sv_address_book s) a \<Longrightarrow>
      I (s\<lparr>sv_client_db := dict_setitem (sv_client_db s) u
            (c\<lparr>cl_addresses_owned := remove1 a (cl_addresses_owned c)\<rparr>)\<rparr>)"
    and I_login: "I s \<Longrightarrow> fresh_uuid s u \<Longrightarrow> length u = 36 \<Longrightarrow> latin1 u \<Longrightarrow> length key = 32 \<Longrightarrow>
      I (s\<lparr>sv_client_db := dict_setitem (sv_client_db s) u (new_session sock address u key tx rx)\<rparr>)"
    and I_relogin: "I s \<Longrightarrow> map_of (sv_client_db s) u = Some c \<Longrightarrow> length key = 32 \<Longrightarrow>
      I (s\<lparr>sv_client_db := dict_setitem (sv_client_db s) u
        (c\<lparr>cl_address := address, cl_socket := sock, cl_cipher := Some key\<rparr>)\<rparr>)"
    and I_cleanup: "I s \<Longrightarrow>
      I (s\<lparr>sv_address_book := (case first_key_of u (sv_address_book s) of None \<Rightarrow> sv_address_book s
             | Some k \<Rightarrow> AList.delete k (sv_address_book s)),
          sv_client_db := AList.delete u (sv_client_db s)\<rparr>)"
    and I_remove: "I s \<Longrightarrow> keeps I (remove_client u) s"
    and I_clear: "I s \<Longrightarrow> I (s\<lparr>sv_client_db := [], sv_address_book := [], sv_db := []\<rparr>)"
begin

lemma keeps_reply: "I s \<Longrightarrow> keeps I (reply_next cr sock u data) s"
  by (simp add: reply_next_def send_reply_def keeps_simps I_tx split: option.split sum.split)

lemma keeps_error: "I s \<Longrightarrow> keeps I (error_next cr sock u n) s"
  by (simp add: error_next_def keeps_simps keeps_reply split: sum.split)

lemma keeps_with_db_lock: "I s \<Longrightarrow> (\<And>s. I s \<Longrightarrow> keeps I m s) \<Longrightarrow> keeps I (with_db_lock m) s"
proof (cases "sv_db_locked s")
  case False
  assume "I s" and m: "\<And>s. I s \<Longrightarrow> keeps I m s"
  then have "keeps I m (s\<lparr>sv_db_locked := True\<rparr>)" by (intro m I_lock)
  with False show ?thesis by (auto simp: keeps_def act_simps I_lock split: prod.split)
qed (simp add: keeps_def act_simps)

lemmas keeps_ends = keeps_reply keeps_error

lemma keeps_server_ops:
  "I s \<Longrightarrow> keeps I (op_set cr sock u x) s"
  "I s \<Longrightarrow> keeps I (op_get cr sock u x) s"
  "I s \<Longrightarrow> keeps I (op_delete cr sock u x) s"
  "I s \<Longrightarrow> keeps I (op_list cr sock u) s"
  by (auto simp: op_set_def op_get_def op_delete_def op_list_def keeps_simps keeps_ends Let_def
      dict_delitem_def I_set I_delete intro!: keeps_with_db_lock split: sum.split)

lemma keeps_book_ops:
  "I s \<Longrightarrow> keeps I (op_register cr sock u x) s"
  "I s \<Longrightarrow> keeps I (op_unregister cr sock u x) s"
  "I s \<Longrightarrow> keeps I (op_whoami cr sock u) s"
  "I s \<Longrightarrow> keeps I (op_whohas cr sock u x) s"
  by (auto simp: op_register_def op_unregister_def op_whoami_def op_whohas_def keeps_simps keeps_ends
      Let_def I_register I_unregister I_disown split: sum.split option.split)

lemma keeps_mail_ops:
  "I s \<Longrightarrow> keeps I (op_put_inbox cr rnd sock u x) s"
  "I s \<Longrightarrow> keeps I (op_get_inbox cr sock u) s"
  "I s \<Longrightarrow> keeps I (op_put_outbox cr sock u x) s"
  "I s \<Longrightarrow> keeps I (op_get_outbox cr sock u x) s"
  by (auto simp: op_put_inbox_def op_get_inbox_def op_put_outbox_def op_get_outbox_def keeps_simps
      keeps_ends Let_def I_inbox I_respond I_collect split: sum.split option.split list.split)

lemma keeps_dispatch: "I s \<Longrightarrow> keeps I (dispatch cr rnd sock u data) s"
  by (simp add: dispatch_def server_request_def client_request_def keeps_server_ops keeps_book_ops
      keeps_mail_ops keeps_ends keeps_simps split: list.split)

lemma keeps_handle_frame: "I s \<Longrightarrow> keeps I (handle_frame cr sock u frame) s"
  by (auto simp: handle_frame_def keeps_simps I_rx to_bytes_little_def
      intro!: keeps_seq keeps_error split: option.split sum.split)

lemma keeps_handle_packet: "I s \<Longrightarrow> keeps I (handle_packet cr rnd sock u frame) s"
  unfolding handle_packet_def
  by (rule keeps_seq [OF keeps_handle_frame]) (auto simp: keeps_simps keeps_dispatch split: option.split)

lemma keeps_cleanup: "I s \<Longrightarrow> keeps I (cleanup sock u) s"
  using I_cleanup by (simp add: keeps_def cleanup_eval)

lemma keeps_start_session: "I s \<Longrightarrow> keeps I (start_session sock u) s"
proof -
  assume I: "I s"
  show ?thesis
  proof (cases "map_of (sv_client_db s) u")
    case (Some c)
    let ?s1 = "s\<lparr>sv_client_db := dict_setitem (sv_client_db s) u (c\<lparr>cl_tx_nonce := 2\<rparr>)\<rparr>"
    have "I ?s1" by (rule I_tx [OF I Some])
    from I_rx [OF this, of u "c\<lparr>cl_tx_nonce := 2\<rparr>" 2] show ?thesis
      using Some by (simp add: start_session_def keeps_simps map_of_setitem I_tasks)
  qed (simp add: start_session_def keeps_simps I)
qed

lemma keeps_login:
  assumes "I s" "length key = 32" "length rnd = 16" "fresh_uuid s (uuid_str (uuid4_bytes rnd))"
  shows "keeps I (accept_login cr rnd sock address key frame) s"
proof -
  have u: "length (uuid_str (uuid4_bytes rnd)) = 36" "latin1 (uuid_str (uuid4_bytes rnd))"
    using assms(3) by (simp_all add: length_uuid_str latin1_uuid_str)
  have new: "keeps I (login_new cr rnd sock address key) s"
    "keeps I (relogin_unknown cr rnd sock address key) s"
    using assms u I_login by (simp_all add: login_new_def relogin_unknown_def handshake_send_def
        keeps_simps Let_def split: sum.split)
  have found: "keeps I (relogin_found cr sock address key u) s" for u
    using assms by (simp add: relogin_found_def handshake_send_def keeps_simps I_relogin
        split: sum.split option.split)
  note starts = keeps_seq [OF _ keeps_start_session]
  show ?thesis
    using assms(1) new found
    by (auto simp: accept_login_def keeps_simps Let_def intro!: starts split: sum.split list.split)
qed

lemma keeps_api:
  "I s \<Longrightarrow> keeps I (set_db k v) s" "I s \<Longrightarrow> keeps I (get_db k) s" "I s \<Longrightarrow> keeps I (remove_db k) s"
  by (auto simp: set_db_def get_db_def remove_db_def keeps_simps I_set I_delete dict_delitem_def
      intro!: keeps_with_db_lock split: sum.split)
    (simp add: keeps_def lift_def ret_def throw_def split: sum.split)

lemma keeps_acquire: "I s \<Longrightarrow> (\<And>s. I s \<Longrightarrow> keeps I (k ()) s) \<Longrightarrow> keeps I (and_then acquire_db k) s"
  by (rule keeps_seq) (auto simp: keeps_def acquire_db_def I_lock)

lemma keeps_items:
  "I s \<Longrightarrow> keeps I (server_setitem k v) s" "I s \<Longrightarrow> keeps I (server_getitem k) s"
  "I s \<Longrightarrow> keeps I (server_delitem k) s"
  by (auto simp: server_setitem_def server_getitem_def server_delitem_def keeps_simps release_db_def
      I_set I_delete I_lock dict_delitem_def intro!: keeps_acquire split: sum.split)

lemma keeps_reads:
  "I s \<Longrightarrow> keeps I (server_contains k) s" "I s \<Longrightarrow> keeps I server_len s" "I s \<Longrightarrow> keeps I server_keys s"
  "I s \<Longrightarrow> keeps I server_values s" "I s \<Longrightarrow> keeps I (get_client u) s"
  by (auto simp: server_contains_def server_len_def server_keys_def server_values_def get_client_def uuid_check_def
      keeps_simps release_db_def I_lock intro!: keeps_acquire split: option.split)

lemma keeps_start_stop: "I s \<Longrightarrow> keeps I (server_start resolve n) s" "I s \<Longrightarrow> keeps I server_stop s"
  by (simp_all add: server_start_def server_stop_def keeps_simps keeps_emits I_tasks I_clear dict_clear_def)

lemma keeps_serialize: "I s \<Longrightarrow> keeps I (serialize cr) s"
  by (auto simp: serialize_def keeps_simps I_drain serialize_clients_drained
      split: sum.split prod.split)

lemmas keeps_steps = keeps_login keeps_handle_packet keeps_cleanup keeps_api keeps_items keeps_reads
  I_remove keeps_start_stop keeps_serialize

lemma step_preserves: "server_step cr s s' \<Longrightarrow> I s \<Longrightarrow> I s'"
  by (induction rule: server_step.induct) (blast intro: keepsD keeps_steps)+

lemma reachable_holds: "reachable cr s \<Longrightarrow> I s"
  by (induction rule: reachable.induct) (auto simp: I_new intro: step_preserves)

end

section \<open>Removing a session\<close>

lemma for_each_del_book:
  "distinct ks \<Longrightarrow> \<forall>k \<in> set ks. dict_contains (sv_address_book s) k \<Longrightarrow>
   for_each del_book ks s = (Return (), [], s\<lparr>sv_address_book := fold AList.delete ks (sv_address_book s)\<rparr>)"
proof (induction ks arbitrary: s)
  case (Cons k ks)
  then have "\<forall>j \<in> set ks. dict_contains (AList.delete k (sv_address_book s)) j"
    by (auto simp: dict_contains_map_of map_of_delete)
  with Cons show ?case by (simp add: act_simps)
qed (simp add: act_simps)

lemma map_of_fold_delete: "map_of (fold AList.delete ks d) a = (if a \<in> set ks then None else map_of d a)"
  by (induction ks arbitrary: d) (auto simp: map_of_delete)

lemma dict_ok_fold_delete: "dict_ok d \<Longrightarrow> dict_ok (fold AList.delete ks d)"
  by (induction ks arbitrary: d) auto

text \<open>A property that survives each single deletion survives \<open>remove_client\<close>, also where it raises.\<close>

lemma keeps_remove_client:
  assumes "I s" and book: "\<And>s k. I s \<Longrightarrow> I (s\<lparr>sv_address_book := AList.delete k (sv_address_book s)\<rparr>)"
    and cdb: "\<And>s. I s \<Longrightarrow> I (s\<lparr>sv_client_db := AList.delete u (sv_client_db s)\<rparr>)"
  shows "keeps I (remove_client u) s"
proof -
  have "I s \<Longrightarrow> keeps I (for_each del_book ks) s" for ks s
    by (induction ks arbitrary: s) (simp_all add: keeps_simps book)
  then show ?thesis
    using assms(1) cdb
    by (auto simp: remove_client_def uuid_check_def keeps_simps dict_delitem_def
        intro!: keeps_seq [of I "for_each del_book _"] split: option.split sum.split)
qed

section \<open>The tables\<close>

definition dict_all :: "('k \<Rightarrow> 'v \<Rightarrow> bool) \<Rightarrow> ('k, 'v) dict \<Rightarrow> bool" where
  "dict_all P d \<longleftrightarrow> (\<forall>(k, v) \<in> set d. P k v)"

lemma dict_all_Nil [simp]: "dict_all P []"
  by (simp add: dict_all_def)

lemma dict_all_set: "dict_all P d \<Longrightarrow> P k v \<Longrightarrow> dict_all P (dict_setitem d k v)"
  unfolding dict_all_def dict_setitem_def by (induction d) auto

lemma dict_all_delete: "dict_all P d \<Longrightarrow> dict_all P (AList.delete k d)"
  unfolding dict_all_def by (auto simp: AList.delete_eq)

lemma dict_allD: "dict_all P d \<Longrightarrow> map_of d k = Some v \<Longrightarrow> P k v"
  unfolding dict_all_def by (auto dest: map_of_SomeD)

lemma dict_all_iff: "dict_ok d \<Longrightarrow> dict_all P d \<longleftrightarrow> (\<forall>k v. map_of d k = Some v \<longrightarrow> P k v)"
  by (auto simp: dict_all_def simp flip: dict_ok_mem)

lemma dict_all_drained:
  assumes "drained d = drained d'" and "\<And>u c. P u (c\<lparr>cl_inbox := []\<rparr>) \<longleftrightarrow> P u c"
  shows "dict_all P d \<longleftrightarrow> dict_all P d'"
proof -
  have "dict_all P d \<longleftrightarrow> dict_all P (drained d)" for d
    using assms(2) by (auto simp: dict_all_def drained_def)
  then show ?thesis using assms(1) by metis
qed

lemma drained_keys: "drained d = drained d' \<Longrightarrow> map fst d = map fst d'"
proof -
  have "map fst (drained d) = map fst d" for d by (simp add: drained_def case_prod_unfold)
  then show "drained d = drained d' \<Longrightarrow> map fst d = map fst d'" by metis
qed

text \<open>The form of the tables: what a checkpoint can hold.\<close>

definition session_wf :: "pystr \<Rightarrow> client \<Rightarrow> bool" where
  "session_wf u c \<longleftrightarrow> length u = 36 \<and> latin1 u \<and> cl_uuid c = u \<and> outbox_ok (cl_outbox c) \<and>
     (\<forall>a \<in> set (cl_addresses_owned c). latin1 a)"

definition entry_wf :: "pystr \<Rightarrow> pystr \<Rightarrow> bool" where
  "entry_wf a u \<longleftrightarrow> latin1 a \<and> length u = 36 \<and> latin1 u"

definition tables_wf :: "server \<Rightarrow> bool" where
  "tables_wf s \<longleftrightarrow> dict_ok (sv_db s) \<and> dict_ok (sv_address_book s) \<and> dict_ok (sv_client_db s) \<and>
     dict_all entry_wf (sv_address_book s) \<and> dict_all session_wf (sv_client_db s)"

lemma outbox_ok_set: "outbox_ok out \<Longrightarrow> rs_response_uuid r = i \<Longrightarrow> outbox_ok (dict_setitem out i r)"
  using dict_all_set [of "\<lambda>k r. k = rs_response_uuid r" out i r]
  by (simp add: outbox_ok_def dict_all_def)

lemma outbox_ok_delete: "outbox_ok out \<Longrightarrow> outbox_ok (AList.delete i out)"
  using dict_all_delete [of "\<lambda>k r. k = rs_response_uuid r" out i]
  by (simp add: outbox_ok_def dict_all_def)

lemma tables_wf_put:
  assumes "tables_wf s" "session_wf u c"
  shows "tables_wf (s\<lparr>sv_client_db := dict_setitem (sv_client_db s) u c\<rparr>)"
  using assms by (simp add: tables_wf_def dict_all_set)

lemma tables_wf_session: "tables_wf s \<Longrightarrow> map_of (sv_client_db s) u = Some c \<Longrightarrow> session_wf u c"
  by (auto simp: tables_wf_def dest: dict_allD)

interpretation tables: server_invariant tables_wf
proof unfold_locales
  fix s u
  assume "tables_wf s"
  then show "keeps tables_wf (remove_client u) s"
    by (rule keeps_remove_client) (simp_all add: tables_wf_def dict_all_delete)
next
  fix s cdb
  assume "tables_wf s" "drained cdb = drained (sv_client_db s)"
  then show "tables_wf (s\<lparr>sv_client_db := cdb\<rparr>)"
    using dict_all_drained [of cdb "sv_client_db s" session_wf] drained_keys [of cdb "sv_client_db s"]
    by (simp add: tables_wf_def session_wf_def dict_ok_def)
next
  fix s u c a
  assume s: "tables_wf s" "map_of (sv_client_db s) u = Some c" "latin1 a"
    "\<not> dict_contains (sv_address_book s) a"
  then have "session_wf u c" by (intro tables_wf_session)
  with s show "tables_wf (s\<lparr>sv_client_db := dict_setitem (sv_client_db s) u
      (c\<lparr>cl_addresses_owned := cl_addresses_owned c @ [a]\<rparr>),
      sv_address_book := dict_setitem (sv_address_book s) a u\<rparr>)"
    by (auto simp: tables_wf_def session_wf_def entry_wf_def intro!: dict_all_set)
next
  fix s u c a
  assume s: "tables_wf s" "map_of (sv_client_db s) u = Some c"
  then have wf: "session_wf u (c\<lparr>cl_addresses_owned := remove1 a (cl_addresses_owned c)\<rparr>)"
    using tables_wf_session [OF s] by (auto simp: session_wf_def dest: notin_set_remove1)
  show "tables_wf (s\<lparr>sv_client_db := dict_setitem (sv_client_db s) u
      (c\<lparr>cl_addresses_owned := remove1 a (cl_addresses_owned c)\<rparr>)\<rparr>)"
    by (rule tables_wf_put [OF s(1) wf])
  then show "tables_wf (s\<lparr>sv_client_db := dict_setitem (sv_client_db s) u
      (c\<lparr>cl_addresses_owned := remove1 a (cl_addresses_owned c)\<rparr>),
      sv_address_book := AList.delete a (sv_address_book s)\<rparr>)"
    by (simp add: tables_wf_def dict_all_delete)
next
  fix s u
  assume "tables_wf s"
  then show "tables_wf (s\<lparr>sv_address_book := case first_key_of u (sv_address_book s) of
      None \<Rightarrow> sv_address_book s | Some k \<Rightarrow> AList.delete k (sv_address_book s),
      sv_client_db := AList.delete u (sv_client_db s)\<rparr>)"
    by (simp add: tables_wf_def dict_all_delete split: option.split)
next
  fix s u c sock address key
  assume s: "tables_wf s" "map_of (sv_client_db s) u = Some c"
  then show "tables_wf (s\<lparr>sv_client_db := dict_setitem (sv_client_db s) u
      (c\<lparr>cl_address := address, cl_socket := sock, cl_cipher := Some key\<rparr>)\<rparr>)"
    using tables_wf_session [OF s] by (intro tables_wf_put) (simp_all add: session_wf_def)
next
  fix s u c i and r :: Response
  assume s: "tables_wf s" "map_of (sv_client_db s) u = Some c"
  then show "tables_wf (s\<lparr>sv_client_db := dict_setitem (sv_client_db s) u
      (c\<lparr>cl_outbox := AList.delete i (cl_outbox c)\<rparr>)\<rparr>)"
    using tables_wf_session [OF s] by (intro tables_wf_put) (simp_all add: session_wf_def outbox_ok_delete)
  assume "rs_response_uuid r = i"
  with s show "tables_wf (s\<lparr>sv_client_db := dict_setitem (sv_client_db s) u
      (c\<lparr>cl_outbox := dict_setitem (cl_outbox c) i r\<rparr>)\<rparr>)"
    using tables_wf_session [OF s] by (intro tables_wf_put) (simp_all add: session_wf_def outbox_ok_set)
next
  fix s u c n q
  assume s: "tables_wf s" "map_of (sv_client_db s) u = Some c"
  then have "session_wf u c" by (rule tables_wf_session)
  then show "tables_wf (s\<lparr>sv_client_db := dict_setitem (sv_client_db s) u (c\<lparr>cl_tx_nonce := n\<rparr>)\<rparr>)"
    "tables_wf (s\<lparr>sv_client_db := dict_setitem (sv_client_db s) u (c\<lparr>cl_rx_nonce := n\<rparr>)\<rparr>)"
    "tables_wf (s\<lparr>sv_client_db := dict_setitem (sv_client_db s) u (c\<lparr>cl_inbox := q\<rparr>)\<rparr>)"
    by (intro tables_wf_put s(1); simp add: session_wf_def)+
next
  fix s u sock address key tx rx
  assume "tables_wf s" "length u = 36" "latin1 u"
  then show "tables_wf (s\<lparr>sv_client_db := dict_setitem (sv_client_db s) u (new_session sock address u key tx rx)\<rparr>)"
    by (intro tables_wf_put) (simp_all add: session_wf_def new_session_def outbox_ok_def)
qed (simp_all add: tables_wf_def new_server_def dict_factory_def)

lemma tables_wf_persistable: "tables_wf s \<Longrightarrow> persistable s"
  by (auto simp: tables_wf_def persistable_def dict_all_def session_wf_def)

section \<open>Ownership\<close>

text \<open>The addresses a session owns are exactly the entries of the address book under its UUID.\<close>

definition keys_of :: "pystr \<Rightarrow> (pystr, pystr) dict \<Rightarrow> pystr list" where
  "keys_of u book = map fst (filter (\<lambda>p. snd p = u) book)"

definition owner_ok :: "(pystr, pystr) dict \<Rightarrow> pystr \<Rightarrow> client \<Rightarrow> bool" where
  "owner_ok book u c \<longleftrightarrow> distinct (cl_addresses_owned c) \<and> set (cl_addresses_owned c) = set (keys_of u book)"

definition ownership :: "server \<Rightarrow> bool" where
  "ownership s \<longleftrightarrow> dict_ok (sv_address_book s) \<and> dict_ok (sv_client_db s) \<and>
     dict_all (owner_ok (sv_address_book s)) (sv_client_db s)"

lemma keys_of_iff: "dict_ok book \<Longrightarrow> a \<in> set (keys_of u book) \<longleftrightarrow> map_of book a = Some u"
  by (force simp: keys_of_def simp flip: dict_ok_mem)

lemma owner_ok_iff:
  "dict_ok book \<Longrightarrow> owner_ok book u c \<longleftrightarrow> distinct (cl_addresses_owned c) \<and>
     (\<forall>a. a \<in> set (cl_addresses_owned c) \<longleftrightarrow> map_of book a = Some u)"
  by (auto simp: owner_ok_def set_eq_iff keys_of_iff)

lemma ownership_iff:
  "ownership s \<longleftrightarrow> dict_ok (sv_address_book s) \<and> dict_ok (sv_client_db s) \<and>
     (\<forall>u c. map_of (sv_client_db s) u = Some c \<longrightarrow> distinct (cl_addresses_owned c) \<and>
        (\<forall>a. a \<in> set (cl_addresses_owned c) \<longleftrightarrow> map_of (sv_address_book s) a = Some u))"
  unfolding ownership_def by (auto simp: dict_all_iff owner_ok_iff)

lemma first_key_of_Some: "first_key_of u book = Some a \<Longrightarrow> dict_ok book \<Longrightarrow> map_of book a = Some u"
  by (auto simp: first_key_of_def find_Some_iff simp flip: dict_ok_mem) (metis nth_mem)

lemma ownership_put:
  "ownership s \<Longrightarrow> map_of (sv_client_db s) u = Some c \<Longrightarrow>
   cl_addresses_owned c' = cl_addresses_owned c \<Longrightarrow>
   ownership (s\<lparr>sv_client_db := dict_setitem (sv_client_db s) u c'\<rparr>)"
  unfolding ownership_iff by (auto simp: map_of_setitem)

lemma remove_client_owned:
  assumes "ownership s" and "map_of (sv_client_db s) u = Some c" and "length u = 36"
  shows "\<exists>s'. remove_client u s = (Return (), [CloseSock (cl_socket c)], s') \<and> ownership s' \<and>
    s' = s\<lparr>sv_address_book := fold AList.delete (cl_addresses_owned c) (sv_address_book s),
      sv_client_db := AList.delete u (sv_client_db s)\<rparr>"
proof -
  have o: "distinct (cl_addresses_owned c)"
    "a \<in> set (cl_addresses_owned c) \<longleftrightarrow> map_of (sv_address_book s) a = Some u" for a
    using assms(1,2) by (auto simp: ownership_iff)
  let ?b = "fold AList.delete (cl_addresses_owned c) (sv_address_book s)"
  let ?s = "s\<lparr>sv_address_book := ?b, sv_client_db := AList.delete u (sv_client_db s)\<rparr>"
  have "for_each del_book (cl_addresses_owned c) s = (Return (), [], s\<lparr>sv_address_book := ?b\<rparr>)"
    using o by (intro for_each_del_book) (simp_all add: dict_contains_map_of)
  then have fe: "and_then (for_each del_book (cl_addresses_owned c)) k s = k () (s\<lparr>sv_address_book := ?b\<rparr>)"
    for k :: "unit \<Rightarrow> unit action" by (simp add: and_then_def split: prod.split)
  have "remove_client u s = (Return (), [CloseSock (cl_socket c)], ?s)"
    using assms by (simp add: remove_client_def uuid_check_def act_simps dict_contains_map_of fe dict_delitem_def)
  moreover have "ownership ?s"
    using assms(1,2) unfolding ownership_iff
    by (auto simp: map_of_fold_delete map_of_delete dict_ok_fold_delete o(2) split: if_splits)
  ultimately show ?thesis by blast
qed

interpretation owners: server_invariant ownership
proof unfold_locales
  fix s u
  assume o: "ownership s"
  show "keeps ownership (remove_client u) s"
  proof (cases "length u = 36 \<and> map_of (sv_client_db s) u \<noteq> None")
    case True
    then show ?thesis using remove_client_owned [OF o] by (auto simp: keeps_def)
  next
    case False
    then show ?thesis using o
      by (auto simp: remove_client_def uuid_check_def keeps_simps dict_contains_map_of)
  qed
next
  fix s cdb
  assume "ownership s" "drained cdb = drained (sv_client_db s)"
  then show "ownership (s\<lparr>sv_client_db := cdb\<rparr>)"
    using dict_all_drained [of cdb "sv_client_db s" "owner_ok (sv_address_book s)"]
      drained_keys [of cdb "sv_client_db s"]
    by (simp add: ownership_def owner_ok_def dict_ok_def)
next
  fix s u c a
  assume "ownership s" "map_of (sv_client_db s) u = Some c" "\<not> dict_contains (sv_address_book s) a"
  then show "ownership (s\<lparr>sv_client_db := dict_setitem (sv_client_db s) u
      (c\<lparr>cl_addresses_owned := cl_addresses_owned c @ [a]\<rparr>),
      sv_address_book := dict_setitem (sv_address_book s) a u\<rparr>)"
    unfolding ownership_iff by (auto simp: map_of_setitem dict_contains_map_of)
next
  fix s u c a
  assume o: "ownership s" "map_of (sv_client_db s) u = Some c" "a \<in> set (cl_addresses_owned c)"
  then show "ownership (s\<lparr>sv_client_db := dict_setitem (sv_client_db s) u
      (c\<lparr>cl_addresses_owned := remove1 a (cl_addresses_owned c)\<rparr>),
      sv_address_book := AList.delete a (sv_address_book s)\<rparr>)"
    unfolding ownership_iff by (auto simp: map_of_setitem map_of_delete)
  assume "\<not> dict_contains (sv_address_book s) a"
  with o have False unfolding ownership_iff by (auto simp: dict_contains_map_of)
  then show "ownership (s\<lparr>sv_client_db := dict_setitem (sv_client_db s) u
      (c\<lparr>cl_addresses_owned := remove1 a (cl_addresses_owned c)\<rparr>)\<rparr>)" ..
next
  fix s u
  assume o: "ownership s"
  then show "ownership (s\<lparr>sv_address_book := case first_key_of u (sv_address_book s) of
      None \<Rightarrow> sv_address_book s | Some k \<Rightarrow> AList.delete k (sv_address_book s),
      sv_client_db := AList.delete u (sv_client_db s)\<rparr>)"
    unfolding ownership_iff
    by (auto simp: map_of_delete dest: first_key_of_Some split: option.split if_splits)
next
  fix s u sock address key tx rx
  assume o: "ownership s" "fresh_uuid s u"
  then have "map_of (sv_address_book s) a \<noteq> Some u" for a
    by (force simp: fresh_uuid_def dict_values_def dest: map_of_SomeD)
  with o show "ownership (s\<lparr>sv_client_db := dict_setitem (sv_client_db s) u
      (new_session sock address u key tx rx)\<rparr>)"
    unfolding ownership_iff by (auto simp: map_of_setitem new_session_def)
qed (auto intro: ownership_put, auto simp: ownership_def new_server_def dict_factory_def)

section \<open>Keys\<close>

definition session_keyed :: "pystr \<Rightarrow> client \<Rightarrow> bool" where
  "session_keyed u c \<longleftrightarrow> (case cl_cipher c of None \<Rightarrow> False | Some key \<Rightarrow> length key = 32)"

definition keyed :: "server \<Rightarrow> bool" where
  "keyed s \<longleftrightarrow> dict_all session_keyed (sv_client_db s)"

lemma keyed_put:
  "keyed s \<Longrightarrow> map_of (sv_client_db s) u = Some c \<Longrightarrow> cl_cipher c' = cl_cipher c \<Longrightarrow>
   keyed (s\<lparr>sv_client_db := dict_setitem (sv_client_db s) u c'\<rparr>)"
  unfolding keyed_def by (auto simp: session_keyed_def dest: dict_allD intro!: dict_all_set)

interpretation keys: server_invariant keyed
proof unfold_locales
  fix s u
  assume "keyed s"
  then show "keeps keyed (remove_client u) s"
    by (rule keeps_remove_client) (simp_all add: keyed_def dict_all_delete)
next
  fix s cdb
  assume "keyed s" "drained cdb = drained (sv_client_db s)"
  then show "keyed (s\<lparr>sv_client_db := cdb\<rparr>)"
    using dict_all_drained [of cdb "sv_client_db s" session_keyed]
    by (simp add: keyed_def session_keyed_def)
qed (auto intro: keyed_put, auto simp: keyed_def new_server_def dict_factory_def new_session_def
    session_keyed_def dict_all_delete dest: dict_allD intro!: dict_all_set split: option.splits)

end
