(* ===== verification/Samples.thy ===== *)
theory Samples
  imports Loop
begin

text \<open>
  Concrete states the witnesses are evaluated on: two sessions, Alice and Bob, on a server with
  an empty database, and the client objects at the other ends of their connections.
\<close>

definition alice :: pystr where "alice = uuid_str (uuid4_bytes (replicate 16 1))"

definition bob :: pystr where "bob = uuid_str (uuid4_bytes (replicate 16 2))"

definition alice_key :: bytes where "alice_key = replicate 32 7"

definition bob_key :: bytes where "bob_key = replicate 32 9"

definition empty_server :: server where
  "empty_server = new_server (py ''localhost'') 9193 (pyb ''secret'') False False False"

definition two_sessions :: server where
  "two_sessions = empty_server\<lparr>sv_client_db :=
     [(alice, new_session (Sock 1) (AddrStr []) alice alice_key 2 2),
      (bob, new_session (Sock 2) (AddrStr []) bob bob_key 2 2)]\<rparr>"

text \<open>Alice has registered the address \<open>k\<close>.\<close>

definition with_address :: server where
  "with_address = two_sessions\<lparr>sv_address_book := [(py ''k'', alice)], sv_client_db :=
     [(alice, (new_session (Sock 1) (AddrStr []) alice alice_key 2 2)\<lparr>cl_addresses_owned := [py ''k'']\<rparr>),
      (bob, new_session (Sock 2) (AddrStr []) bob bob_key 2 2)]\<rparr>"

definition client_at :: "bytes \<Rightarrow> RawClient" where
  "client_at key = keyed_client key 2 2 raw_client"

definition two_clients :: "pystr \<Rightarrow> RawClient" where
  "two_clients u = client_at (if u = alice then alice_key else bob_key)"

lemma sample_uuids [simp]: "length alice = 36" "latin1 alice" "length bob = 36" "latin1 bob"
  by (simp_all add: alice_def bob_def length_uuid_str latin1_uuid_str)

lemma alice_bob [simp]: "alice \<noteq> bob" "bob \<noteq> alice"
proof -
  have "uuid4_bytes (replicate 16 1) \<noteq> uuid4_bytes (replicate 16 2)"
    by (simp add: uuid4_bytes_def numeral_eq_Suc)
  then show "alice \<noteq> bob" "bob \<noteq> alice"
    unfolding alice_def bob_def by (metis uuid_str_inj length_uuid4_bytes length_replicate)+
qed

lemma sample_uuid_bytes: "decode_latin1 (latin1_bytes alice) = alice" "decode_latin1 (latin1_bytes bob) = bob"
  by (auto simp: decode_latin1_def latin1_bytes_def latin1_def unat_of_nat_byte comp_def
      intro!: map_idI dest: sample_uuids(2,4) [unfolded latin1_def, THEN bspec])

lemma length_latin1_bytes [simp]: "length (latin1_bytes s) = length s"
  by (simp add: latin1_bytes_def)

lemma sample_keys [simp]: "length alice_key = 32" "length bob_key = 32"
  by (simp_all add: alice_key_def bob_key_def)

lemma sample_tables [simp]:
  "sv_db empty_server = []" "sv_address_book empty_server = []" "sv_client_db empty_server = []"
  "sv_db two_sessions = []" "sv_address_book two_sessions = []"
  "map_of (sv_client_db two_sessions) alice = Some (new_session (Sock 1) (AddrStr []) alice alice_key 2 2)"
  "map_of (sv_client_db two_sessions) bob = Some (new_session (Sock 2) (AddrStr []) bob bob_key 2 2)"
  "\<not> sv_db_locked two_sessions" "\<not> sv_db_locked empty_server"
  "\<not> sv_keep_dead_sessions two_sessions"
  by (simp_all add: two_sessions_def empty_server_def new_server_def dict_factory_def)

lemma sample_address [simp]:
  "sv_address_book with_address = [(py ''k'', alice)]"
  "map_of (sv_client_db with_address) alice =
     Some ((new_session (Sock 1) (AddrStr []) alice alice_key 2 2)\<lparr>cl_addresses_owned := [py ''k'']\<rparr>)"
  "map_of (sv_client_db with_address) bob = Some (new_session (Sock 2) (AddrStr []) bob bob_key 2 2)"
  by (simp_all add: with_address_def)

lemma sample_sessions [simp]:
  "session_cipher two_sessions alice = Some alice_key" "session_cipher two_sessions bob = Some bob_key"
  "session_tx two_sessions alice = 2" "session_tx two_sessions bob = 2"
  "session_rx two_sessions alice = 2" "session_rx two_sessions bob = 2"
  by (simp_all add: session_cipher_def session_tx_def session_rx_def new_session_def)

lemma sample_in_sync [simp]:
  "in_sync (two_clients alice) two_sessions alice" "in_sync (two_clients bob) two_sessions bob"
  by (simp_all add: in_sync_def two_clients_def client_at_def keyed_client_def raw_client_def)

lemma sample_connected: "connected {alice, bob} n two_clients two_sessions" if "n \<le> 2 ^ 90"
proof -
  have "2 + n \<le> 2 ^ 96" using that by simp
  then show ?thesis
    by (simp add: connected_def) (simp add: two_clients_def client_at_def keyed_client_def)
qed

lemma sample_office:
  "of_db (office_of two_sessions) = Map.empty" "of_book (office_of two_sessions) = Map.empty"
  "of_boxes (office_of two_sessions) alice = Some \<lparr>mb_owned = [], mb_inbox = [], mb_outbox = Map.empty\<rparr>"
  "of_boxes (office_of two_sessions) bob = Some \<lparr>mb_owned = [], mb_inbox = [], mb_outbox = Map.empty\<rparr>"
  by (simp_all add: office_of_def mailbox_of_def new_session_def)

lemma sample_at: "session_at two_sessions alice alice_key 2 2"
  by (simp add: session_at_def)

lemma sample_packet:
  "n < 2 ^ 96 \<Longrightarrow> sendable d \<Longrightarrow> \<exists>p. packet_for toy_crypto alice_key n d p"
  using construct_packet_for [OF toy_aead_ok toy_zstd_ok, of alice_key n d 9] by auto

end
