(* ===== verification/ApiProofs.thy ===== *)
theory ApiProofs
  imports Reach Samples
begin

text \<open>
  The direct API of \<^verbatim>\<open>Server\<close>: what each call does on every branch, and what it does to the
  agreement between the address book and the sessions.
\<close>

lemma uuid_check_eval [act_simps]:
  "and_then (uuid_check u) k s = (if length u = 36 then k () s else (Raise ValueError, [], s))"
  by (simp add: uuid_check_def check_def act_simps)

lemma check_eval [act_simps]:
  "and_then (check b e) k s = (if b then k () s else (Raise e, [], s))"
  by (simp add: check_def act_simps)

lemma and_then_test:
  assumes "m s = (if P then (Return (), [], s) else (Raise e, [], s))"
  shows "and_then m k s = (if P then k () s else (Raise e, [], s))"
  using assms by (simp add: and_then_def)

section \<open>The database lock\<close>



text \<open>On a free lock the other item operations behave like the dictionary's and leave the lock
  free: after \<open>server[k] = v\<close>, \<open>server[k]\<close> and \<open>get_db(k)\<close> return \<open>v\<close>, \<open>k in server\<close> holds, and
  the other keys read as before.\<close>

theorem item_assignment:
  assumes "\<not> sv_db_locked s"
  shows "\<exists>s'. server_setitem k v s = (Return (), [], s') \<and> set_db k v s = (Return (), [], s') \<and>
    server_getitem k s' = (Return v, [], s') \<and> get_db k s' = (Return v, [], s') \<and>
    server_contains k s' = (Return True, [], s') \<and>
    (\<forall>j. j \<noteq> k \<longrightarrow> get_db j s' = (fst (get_db j s), [], s')) \<and>
    remove_db k s' = (Return (), [], s'\<lparr>sv_db := AList.delete k (sv_db s')\<rparr>)"
proof -
  let ?s = "s\<lparr>sv_db := dict_setitem (sv_db s) k v\<rparr>"
  have acquire: "and_then acquire_db f t = f () (t\<lparr>sv_db_locked := True\<rparr>)"
    if "\<not> sv_db_locked t" for t and f :: "unit \<Rightarrow> 'z action"
    using that by (simp add: and_then_def acquire_db_def split: prod.split)
  have get: "get_db j t = (lift (dict_getitem (sv_db t) j) t)" if "\<not> sv_db_locked t" for j t
    using that by (auto simp: get_db_def act_simps lift_def ret_def throw_def split: sum.split)
  have unlock: "t\<lparr>sv_db_locked := False\<rparr> = t" if "\<not> sv_db_locked t" for t :: server
    using that by simp
  show ?thesis
  proof (intro exI [of _ ?s] conjI allI impI)
    fix j assume "j \<noteq> k"
    then show "get_db j ?s = (fst (get_db j s), [], ?s)"
      using assms by (simp add: get dict_getitem_def map_of_setitem act_simps split: option.split)
  qed (use assms unlock [OF assms] in \<open>simp_all add: server_setitem_def set_db_def server_getitem_def
      server_contains_def remove_db_def acquire release_db_def act_simps get dict_getitem_def
      map_of_setitem dict_contains_map_of dict_delitem_def\<close>)
qed

theorem item_assignment_witness:
  "\<exists>s'. server_setitem [1] [2] two_sessions = (Return (), [], s') \<and>
     server_getitem [1] s' = (Return [2], [], s')"
  using item_assignment [of two_sessions "[1]" "[2]"] sample_tables by blast

section \<open>Tickets\<close>

definition ticket_valid :: "NewClientTicket \<Rightarrow> server \<Rightarrow> bool" where
  "ticket_valid t s \<longleftrightarrow> length (tk_uuid t) = 36 \<and> \<not> dict_contains (sv_client_db s) (tk_uuid t) \<and>
     (\<forall>(k, r) \<in> set (tk_outbox t). k = rs_response_uuid r)"

definition ticket_session :: "NewClientTicket \<Rightarrow> client" where
  "ticket_session t = (restored_client (tk_uuid t))\<lparr>cl_addresses_owned := tk_addresses_owned t,
     cl_inbox := tk_inbox t, cl_outbox := tk_outbox t\<rparr>"

lemma for_each_test:
  assumes "\<And>x. f x s = (if P x then (Return (), [], s) else (Raise e, [], s))"
  shows "for_each f xs s = (if \<forall>x \<in> set xs. P x then (Return (), [], s) else (Raise e, [], s))"
  using assms by (induction xs) (auto simp: act_simps and_then_def)

lemma for_each_effect:
  assumes "\<And>x. f x s = (Return (), [g x], s)"
  shows "for_each f xs s = (Return (), map g xs, s)"
  using assms by (induction xs) (auto simp: act_simps and_then_def)

lemma for_each_check:
  "for_each (\<lambda>x. check (P x) e) xs s = (if \<forall>x \<in> set xs. P x then (Return (), [], s) else (Raise e, [], s))"
  by (rule for_each_test) (simp add: check_def act_simps)

lemma and_then_for_each_check:
  "and_then (for_each (\<lambda>x. check (P x) e) xs) k s =
     (if \<forall>x \<in> set xs. P x then k () s else (Raise e, [], s))"
  by (simp add: and_then_def for_each_check split: prod.split)

text \<open>\<open>add_client\<close> files the ticket under its UUID or raises \<open>ValueError\<close> and changes nothing;
  an added client reads back with \<open>get_client\<close>, without cipher, and cannot be added again.\<close>

theorem add_client_get_client:
  "add_client t s =
     (if ticket_valid t s
      then (Return (), [], s\<lparr>sv_client_db := dict_setitem (sv_client_db s) (tk_uuid t) (ticket_session t)\<rparr>)
      else (Raise ValueError, [], s)) \<and>
   (let s' = s\<lparr>sv_client_db := dict_setitem (sv_client_db s) (tk_uuid t) (ticket_session t)\<rparr> in
    get_client (tk_uuid t) s' =
      (if length (tk_uuid t) = 36 then (Return (ticket_session t), [], s') else (Raise ValueError, [], s')) \<and>
    add_client t s' = (Raise ValueError, [], s'))"
proof -
  have "add_client t s' = (if ticket_valid t s'
      then (Return (), [], s'\<lparr>sv_client_db := dict_setitem (sv_client_db s') (tk_uuid t) (ticket_session t)\<rparr>)
      else (Raise ValueError, [], s'))" for s'
    by (auto simp: add_client_def ticket_valid_def act_simps and_then_for_each_check case_prod_unfold
        ticket_session_def restored_client_def)
  then show ?thesis
    by (simp add: ticket_valid_def get_client_def act_simps fd.contains_set Let_def map_of_setitem)
      (simp add: ticket_session_def restored_client_def)
qed

section \<open>The address book\<close>

text \<open>C38: \<open>remove_client\<close> on a server whose address book agrees with its sessions closes the
  connection, removes the session and every address-book entry under its UUID and no other, and
  the two still agree.\<close>

theorem remove_client_complete:
  assumes "ownership s" and "map_of (sv_client_db s) u = Some c" and "length u = 36"
  shows "\<exists>s'. remove_client u s = (Return (), [CloseSock (cl_socket c)], s') \<and> ownership s' \<and>
    map_of (sv_client_db s') = (map_of (sv_client_db s))(u := None) \<and>
    map_of (sv_address_book s') = (\<lambda>a. if map_of (sv_address_book s) a = Some u then None
      else map_of (sv_address_book s) a) \<and> sv_db s' = sv_db s"
  using remove_client_owned [OF assms] assms(1,2)
  by (auto simp: map_of_fold_delete map_of_delete ownership_iff fun_eq_iff)

theorem remove_client_complete_witness:
  "\<exists>s'. remove_client alice two_sessions = (Return (), [CloseSock (Sock 1)], s') \<and> ownership s'"
proof -
  have "ownership two_sessions"
    by (simp add: ownership_def two_sessions_def empty_server_def new_server_def dict_factory_def
        dict_ok_def dict_all_def owner_ok_def keys_of_def new_session_def)
  from remove_client_complete [OF this, of alice] show ?thesis by (auto simp: new_session_def)
qed

text \<open>\<open>add_key\<close> for a UUID without a session raises \<open>ValueError\<close> but keeps the entry it made:
  the address then resolves to a session that does not exist and cannot be registered.\<close>

theorem add_key_dangling:
  assumes "length u = 36" and "\<not> dict_contains (sv_address_book s) key"
    and "\<not> dict_contains (sv_client_db s) u"
  shows "\<exists>s'. add_key key u s = (Raise ValueError, [], s') \<and> get_key key s' = (Return u, [], s') \<and>
    \<not> dict_contains (sv_client_db s') u \<and> add_key key v s' = (Raise ValueError, [], s')"
  using assms
  by (simp add: add_key_def get_key_def act_simps dict_contains_map_of dict_getitem_def map_of_setitem)

theorem add_key_dangling_witness:
  "\<exists>s'. add_key (py ''k'') alice empty_server = (Raise ValueError, [], s') \<and>
     get_key (py ''k'') s' = (Return alice, [], s')"
  using add_key_dangling [of alice empty_server "py ''k''"] by (auto simp: dict_contains_def)

text \<open>\<open>remove_key\<close> with a UUID that is not the owner raises \<open>ValueError\<close> after it has deleted
  the owner's entry. The owner's session still lists the address, so that its next UNREGISTER
  of it raises \<open>KeyError\<close> in its handler instead of being answered.\<close>

theorem remove_key_breaks_owner:
  assumes "ownership s" and "map_of (sv_address_book s) (decode_latin1 b) = Some v" and "v \<noteq> u"
    and "map_of (sv_client_db s) v = Some cv" and "map_of (sv_client_db s) u = Some cu" and "length u = 36"
  shows "\<exists>s'. remove_key (decode_latin1 b) u s = (Raise ValueError, [], s') \<and>
    decode_latin1 b \<in> set (cl_addresses_owned cv) \<and> map_of (sv_client_db s') v = Some cv \<and>
    fst (op_unregister cr sock v b s') = Raise KeyError"
proof -
  let ?k = "decode_latin1 b"
  have k: "?k \<in> set (cl_addresses_owned cv)" "?k \<notin> set (cl_addresses_owned cu)"
    using assms by (auto simp: ownership_iff)
  let ?s = "s\<lparr>sv_address_book := AList.delete ?k (sv_address_book s)\<rparr>"
  have "remove_key ?k u s = (Raise ValueError, [], ?s)"
    using assms k by (simp add: remove_key_def act_simps dict_contains_map_of dict_getitem_def)
  moreover have "fst (op_unregister cr sock v b ?s) = Raise KeyError"
    using assms(4) k(1) by (simp add: op_unregister_def act_simps Let_def del_book_def dict_delitem_def
        dict_contains_map_of map_of_delete)
  ultimately show ?thesis using assms(4) k(1) by auto
qed

theorem remove_key_breaks_owner_witness:
  "\<exists>s'. remove_key (py ''k'') bob with_address = (Raise ValueError, [], s') \<and>
     fst (op_unregister toy_crypto (Sock 1) alice (pyb ''k'') s') = Raise KeyError"
proof -
  have k: "decode_latin1 (pyb ''k'') = py ''k''" by (simp add: decode_latin1_def pyb_def py_def)
  have "ownership with_address"
    by (auto simp: ownership_def with_address_def two_sessions_def empty_server_def dict_ok_def
        dict_all_def owner_ok_def keys_of_def new_session_def)
  from remove_key_breaks_owner [OF this _ _ sample_address(2,3), of "pyb ''k''" toy_crypto "Sock 1"]
  show ?thesis unfolding k by auto
qed

text \<open>\<open>apply_client_state\<close> in its strict mode is not atomic: when an address of the ticket is
  not in the address book it raises \<open>ValueError\<close>, but the session already has the ticket's inbox
  and outbox (and still its old addresses).\<close>

theorem apply_client_state_partial:
  assumes "length (tk_uuid t) = 36" and "map_of (sv_client_db s) (tk_uuid t) = Some c"
    and "\<exists>a \<in> set (tk_addresses_owned t). \<not> dict_contains (sv_address_book s) a"
  shows "apply_client_state t True s = (Raise ValueError, [],
    s\<lparr>sv_client_db := dict_setitem (sv_client_db s) (tk_uuid t)
        (c\<lparr>cl_inbox := tk_inbox t, cl_outbox := tk_outbox t\<rparr>)\<rparr>)"
proof -
  let ?f = "\<lambda>key. and_then (gets (\<lambda>s. dict_contains (sv_address_book s) key)) (\<lambda>known.
      if known then ret () else if True then throw ValueError else set_book key (tk_uuid t))"
  have loop: "for_each ?f ks s' = (if \<forall>a \<in> set ks. dict_contains (sv_address_book s') a
      then (Return (), [], s') else (Raise ValueError, [], s'))" for ks s'
    by (rule for_each_test) (simp add: act_simps)
  have "and_then (for_each ?f ks) k s' = (if \<forall>a \<in> set ks. dict_contains (sv_address_book s') a
      then k () s' else (Raise ValueError, [], s'))" for ks s' and k :: "unit \<Rightarrow> unit action"
    by (rule and_then_test) (rule loop)
  with assms show ?thesis
    by (auto simp: apply_client_state_def act_simps Let_def dict_contains_map_of)
qed

theorem apply_client_state_partial_witness:
  "apply_client_state \<lparr>tk_uuid = alice, tk_addresses_owned = [py ''k''],
      tk_inbox = [], tk_outbox = [([1], \<lparr>rs_key = [], rs_response = [2], rs_response_uuid = [1]\<rparr>)]\<rparr> True
     two_sessions =
   (Raise ValueError, [], two_sessions\<lparr>sv_client_db := dict_setitem (sv_client_db two_sessions) alice
      ((new_session (Sock 1) (AddrStr []) alice alice_key 2 2)
        \<lparr>cl_inbox := [], cl_outbox := [([1], \<lparr>rs_key = [], rs_response = [2], rs_response_uuid = [1]\<rparr>)]\<rparr>)\<rparr>)"
  by (subst apply_client_state_partial) (simp_all add: dict_contains_def)

section \<open>Shutdown\<close>

text \<open>\<open>stop\<close> closes the listener, empties the three tables and cancels every task the server
  ever started, in the order they were started; it does not close the clients' connections.\<close>

theorem stop_effects:
  "server_stop s = (Return (), CloseListener # map CancelTask (sv_tasks s),
     s\<lparr>sv_client_db := [], sv_address_book := [], sv_db := []\<rparr>)"
proof -
  have "for_each (\<lambda>t. emit (CancelTask t)) ts s' = (Return (), map CancelTask ts, s')" for ts s'
    by (rule for_each_effect) (simp add: act_simps)
  then show ?thesis by (simp add: server_stop_def act_simps dict_clear_def)
qed

end
