(* ===== verification/SerialTotal.thy ===== *)
theory SerialTotal
  imports Reach
begin

text \<open>
  \<open>serialize\<close> returns: on tables of the form \<open>tables_wf\<close> whose checkpoint stays below four
  gigabytes no length field overflows and nothing else can raise. \<open>checkpoint_size\<close> is the size
  of the three tables before compression.
\<close>

definition request_size :: "Request \<Rightarrow> nat" where
  "request_size r = 16 + length (rq_return_uuid r) + length (rq_key r) + length (rq_request r) +
     length (rq_request_uuid r)"

definition response_size :: "Response \<Rightarrow> nat" where
  "response_size r = 12 + length (rs_key r) + length (rs_response r) + length (rs_response_uuid r)"

definition client_size :: "client \<Rightarrow> nat" where
  "client_size c = 4 * 41 + sum_list (map (\<lambda>a. 4 + length a) (cl_addresses_owned c)) +
     sum_list (map request_size (cl_inbox c)) + sum_list (map response_size (dict_values (cl_outbox c)))"

definition checkpoint_size :: "server \<Rightarrow> nat" where
  "checkpoint_size s = sum_list (map (\<lambda>(k, v). 10 + length k + length v) (sv_db s)) +
     sum_list (map (\<lambda>(a, u). 14 + length a + length u) (sv_address_book s)) +
     sum_list (map (\<lambda>(u, c). client_size c) (sv_client_db s))"

definition fields_size :: "field list \<Rightarrow> nat" where
  "fields_size fs = sum_list (map (\<lambda>(t, l, v). 1 + length l + length v) fs)"

text \<open>Writing is bounded: it succeeds while the total fits, and adds exactly \<open>n\<close> bytes.\<close>

definition writes :: "field list result \<Rightarrow> field list \<Rightarrow> nat \<Rightarrow> bool" where
  "writes r fs n \<longleftrightarrow> (\<exists>fs'. r = Inr fs' \<and> fields_size fs' = fields_size fs + n)"

lemma writes_refl [simp]: "writes (Inr fs) fs n \<longleftrightarrow> n = 0"
  by (auto simp: writes_def)

lemma writes_bind:
  assumes "writes r fs m" and "\<And>fs'. fields_size fs' = fields_size fs + m \<Longrightarrow> writes (f fs') fs' n"
  shows "writes (py_bind r f) fs (m + n)"
proof -
  obtain fs' where "r = Inr fs'" "fields_size fs' = fields_size fs + m"
    using assms(1) by (auto simp: writes_def)
  with assms(2) [OF this(2)] show ?thesis by (auto simp: writes_def)
qed

lemma writes_field: "length v < 2 ^ 32 \<Longrightarrow> writes (add_field t v fs) fs (5 + length v)"
  by (simp add: writes_def add_field_def pack_I_ok fields_size_def)

lemma serialize_db_writes:
  "fields_size fs + sum_list (map (\<lambda>(k, v). 10 + length k + length v) db) < 2 ^ 32 \<Longrightarrow>
   writes (serialize_db db fs) fs (sum_list (map (\<lambda>(k, v). 10 + length k + length v) db))"
proof (induction db arbitrary: fs)
  case (Cons p db)
  obtain k v where p: "p = (k, v)" by (cases p)
  have "writes (py_bind (add_field 0x10 k fs) (\<lambda>fs. py_bind (add_field 0x11 v fs) (serialize_db db))) fs
      ((5 + length k) + ((5 + length v) + sum_list (map (\<lambda>(k, v). 10 + length k + length v) db)))"
    using Cons.prems p by (intro writes_bind writes_field Cons.IH) simp_all
  then show ?case using p by (simp add: add.assoc add.left_commute)
qed simp

lemma latin1_encode_length:
  assumes "latin1 s" obtains b where "encode_latin1 s = Inr b" and "length b = length s"
  using latin1_encode_ex [OF assms] length_encode_latin1 by blast

lemma serialize_book_writes:
  "dict_all entry_wf book \<Longrightarrow>
   fields_size fs + sum_list (map (\<lambda>(a, u). 14 + length a + length u) book) < 2 ^ 32 \<Longrightarrow>
   writes (serialize_book book fs) fs (sum_list (map (\<lambda>(a, u). 14 + length a + length u) book))"
proof (induction book arbitrary: fs)
  case (Cons p book)
  obtain a u where p: "p = (a, u)" by (cases p)
  have wf: "latin1 a" "length u = 36" "latin1 u" "dict_all entry_wf book"
    using Cons.prems(1) p by (auto simp: dict_all_def entry_wf_def)
  obtain k where k: "encode_latin1 a = Inr k" "length k = length a" using wf(1) by (rule latin1_encode_length)
  obtain w where w: "encode_latin1 u = Inr w" "length w = 36"
    using latin1_encode_length [OF wf(3)] wf(2) by metis
  have "writes (py_bind (add_field 0x20 (be_bytes 4 (length a) @ k) fs)
        (\<lambda>fs. py_bind (add_field 0x21 w fs) (serialize_book book))) fs
      ((5 + length (be_bytes 4 (length a) @ k)) + ((5 + length w) +
         sum_list (map (\<lambda>(a, u). 14 + length a + length u) book)))"
    using Cons.prems p k(2) w(2) wf
    by (intro writes_bind writes_field Cons.IH) simp_all
  then show ?case using p k w wf Cons.prems(2) by (simp add: pack_I_ok add.assoc add.left_commute)
qed simp

text \<open>Items.\<close>

lemma map_result_total:
  "(\<And>x. x \<in> set xs \<Longrightarrow> \<exists>y. f x = Inr y \<and> length y = g x) \<Longrightarrow>
   \<exists>ys. map_result f xs = Inr ys \<and> length (concat ys) = sum_list (map g xs)"
proof (induction xs)
  case (Cons x xs)
  obtain ys where "map_result f xs = Inr ys" "length (concat ys) = sum_list (map g xs)"
    using Cons.IH Cons.prems by auto
  moreover obtain y where "f x = Inr y" "length y = g x" using Cons.prems [of x] by auto
  ultimately show ?case by simp
qed simp

lemma prefixed_total: "length b < 2 ^ 32 \<Longrightarrow> \<exists>x. prefixed b = Inr x \<and> length x = 4 + length b"
  by (simp add: prefixed_def pack_I_ok)

lemma items_total:
  "latin1 a \<Longrightarrow> length a < 2 ^ 32 \<Longrightarrow> \<exists>x. address_item a = Inr x \<and> length x = 4 + length a"
  "request_size r < 2 ^ 32 \<Longrightarrow> \<exists>x. inbox_item r = Inr x \<and> length x = request_size r"
  "response_size p < 2 ^ 32 \<Longrightarrow> \<exists>x. outbox_item p = Inr x \<and> length x = response_size p"
proof -
  show "\<exists>x. address_item a = Inr x \<and> length x = 4 + length a" if "latin1 a" "length a < 2 ^ 32"
    using that by (auto simp: address_item_def prefixed_def pack_I_ok elim: latin1_encode_length)
  show "\<exists>x. inbox_item r = Inr x \<and> length x = request_size r" if "request_size r < 2 ^ 32"
    using that by (simp add: inbox_item_def prefixed_def pack_I_ok request_size_def)
  show "\<exists>x. outbox_item p = Inr x \<and> length x = response_size p" if "response_size p < 2 ^ 32"
    using that by (simp add: outbox_item_def prefixed_def pack_I_ok response_size_def)
qed

lemma drain_inbox_total:
  "map_result inbox_item rs = Inr bs \<Longrightarrow> drain_inbox rs acc = (Inr (acc @ bs), [])"
  by (induction rs arbitrary: acc bs) auto

lemma member_le_sum: "x \<in> set xs \<Longrightarrow> f x \<le> sum_list (map f xs)" for f :: "'a \<Rightarrow> nat"
  by (rule member_le_sum_list) auto

lemma serialize_client_writes:
  assumes "session_wf u c" and fits: "fields_size fs + client_size c < 2 ^ 32"
  shows "writes (fst (serialize_client c fs)) fs (client_size c)"
proof -
  have wf: "cl_uuid c = u" "length u = 36" "latin1 u" "\<forall>a \<in> set (cl_addresses_owned c). latin1 a"
    using assms(1) by (simp_all add: session_wf_def)
  obtain w where w: "encode_latin1 u = Inr w" "length w = 36"
    using latin1_encode_length [OF wf(3)] wf(2) by metis
  note sizes = member_le_sum [of _ "cl_addresses_owned c" "\<lambda>a. 4 + length a"]
    member_le_sum [of _ "cl_inbox c" request_size]
    member_le_sum [of _ "dict_values (cl_outbox c)" response_size]
  obtain as where as: "map_result address_item (cl_addresses_owned c) = Inr as"
    "length (concat as) = sum_list (map (\<lambda>a. 4 + length a) (cl_addresses_owned c))"
    using map_result_total [of "cl_addresses_owned c" address_item "\<lambda>a. 4 + length a"] wf(4) fits
      sizes(1) items_total(1) unfolding client_size_def by fastforce
  obtain ms where ms: "map_result inbox_item (cl_inbox c) = Inr ms"
    "length (concat ms) = sum_list (map request_size (cl_inbox c))"
    using map_result_total [of "cl_inbox c" inbox_item request_size] fits sizes(2) items_total(2)
    unfolding client_size_def by fastforce
  obtain rs where rs: "map_result outbox_item (dict_values (cl_outbox c)) = Inr rs"
    "length (concat rs) = sum_list (map response_size (dict_values (cl_outbox c)))"
    using map_result_total [of "dict_values (cl_outbox c)" outbox_item response_size] fits sizes(3)
      items_total(3) unfolding client_size_def by fastforce
  have "fst (serialize_client c fs) =
      py_bind (py_bind (add_field 0x30 w fs) (add_field 0x31 (w @ concat as)))
        (\<lambda>fs. py_bind (add_field 0x32 (w @ concat ms) fs) (add_field 0x33 (w @ concat rs)))"
    using wf w as(1) rs(1) drain_inbox_total [OF ms(1), of "[]"]
    by (auto simp: serialize_client_def serialize_identity_def serialize_queues_def split: sum.split)
  moreover have "writes \<dots> fs (((5 + length w) + (5 + length (w @ concat as))) +
      ((5 + length (w @ concat ms)) + (5 + length (w @ concat rs))))"
    using fits w(2) as(2) ms(2) rs(2)
    by (intro writes_bind writes_field) (simp_all add: client_size_def)
  ultimately show ?thesis using w(2) as(2) ms(2) rs(2) by (simp add: client_size_def add.assoc)
qed

lemma serialize_clients_writes:
  "dict_all session_wf cdb \<Longrightarrow>
   fields_size fs + sum_list (map (\<lambda>(u, c). client_size c) cdb) < 2 ^ 32 \<Longrightarrow>
   writes (fst (serialize_clients cdb fs)) fs (sum_list (map (\<lambda>(u, c). client_size c) cdb))"
proof (induction cdb arbitrary: fs)
  case (Cons p cdb)
  obtain u c where p: "p = (u, c)" by (cases p)
  have wf: "session_wf u c" "dict_all session_wf cdb" using Cons.prems(1) p by (auto simp: dict_all_def)
  obtain fs1 where fs1: "fst (serialize_client c fs) = Inr fs1" "fields_size fs1 = fields_size fs + client_size c"
    using serialize_client_writes [OF wf(1), of fs] Cons.prems(2) p by (auto simp: writes_def)
  then obtain c' where "serialize_client c fs = (Inr fs1, c')" by (metis prod.collapse)
  then have "fst (serialize_clients (p # cdb) fs) = fst (serialize_clients cdb fs1)"
    using p by (simp split: prod.split)
  moreover have "writes (fst (serialize_clients cdb fs1)) fs1 (sum_list (map (\<lambda>(u, c). client_size c) cdb))"
    using Cons.prems(2) p fs1(2) by (intro Cons.IH wf) simp
  ultimately show ?case using p fs1(2) by (simp add: writes_def add.assoc)
qed simp

lemma fields_size_tables:
  "length (map fst fs) \<le> fields_size fs"
  "length (concat (map (fst \<circ> snd) fs)) \<le> fields_size fs"
  "length (concat (map (snd \<circ> snd) fs)) \<le> fields_size fs"
  unfolding fields_size_def by (induction fs) auto

lemma serialize_total:
  assumes "tables_wf s" "checkpoint_size s < 2 ^ 32"
  shows "\<exists>data s'. serialize cr s = (Return data, [], s')"
proof -
  have wf: "dict_all entry_wf (sv_address_book s)" "dict_all session_wf (sv_client_db s)"
    using assms(1) by (simp_all add: tables_wf_def)
  obtain f1 where f1: "serialize_db (sv_db s) [] = Inr f1"
    "fields_size f1 = sum_list (map (\<lambda>(k, v). 10 + length k + length v) (sv_db s))"
    using serialize_db_writes [of "[]" "sv_db s"] assms(2)
    by (auto simp: writes_def checkpoint_size_def fields_size_def)
  obtain f2 where f2: "serialize_book (sv_address_book s) f1 = Inr f2"
    "fields_size f2 = fields_size f1 + sum_list (map (\<lambda>(a, u). 14 + length a + length u) (sv_address_book s))"
    using serialize_book_writes [OF wf(1), of f1] assms(2) f1(2)
    by (auto simp: writes_def checkpoint_size_def)
  obtain f3 where f3: "fst (serialize_clients (sv_client_db s) f2) = Inr f3"
    "fields_size f3 = checkpoint_size s"
    using serialize_clients_writes [OF wf(2), of f2] assms(2) f1(2) f2(2)
    by (auto simp: writes_def checkpoint_size_def)
  then obtain cdb' where cdb': "serialize_clients (sv_client_db s) f2 = (Inr f3, cdb')"
    by (metis prod.collapse)
  have "\<exists>data. serialize_tables cr f3 = Inr data"
    using fields_size_tables [of f3] f3(2) assms(2)
    by (simp add: serialize_tables_def Let_def pack_I_def MAGIC_def)
  then show ?thesis
    using f1(1) f2(1) cdb' by (auto simp: serialize_def act_simps)
qed

end
