(* ===== verification/Guarantees.thy ===== *)
theory Guarantees
  imports SerialTotal Samples
begin

text \<open>
  What holds in every state the server can reach: the form of its tables, the agreement of the
  address book with the sessions, which requests are answered, and what a checkpoint keeps.
\<close>

section \<open>A reachable server with a session\<close>

lemma fresh_alice: "fresh_uuid empty_server alice"
  by (simp add: fresh_uuid_def dict_contains_map_of dict_values_def)

lemma reachable_empty: "reachable cr empty_server"
  unfolding empty_server_def by (rule reachable.init)

lemma login_reachable:
  assumes "reachable toy_crypto s" "fresh_uuid s u" "u = uuid_str (uuid4_bytes rnd)" "length rnd = 16"
    and "length key = 32"
  shows "reachable toy_crypto (session_started sock u (new_session sock (AddrStr []) u key 2 2) s)"
proof -
  have s: "sendable (login_bytes None)" by (simp add: login_bytes_def sendable_def)
  obtain p where p: "packet_for toy_crypto key 1 (login_bytes None) p"
    using construct_packet_for [OF toy_aead_ok toy_zstd_ok assms(5) _ s, of 1 9] by auto
  obtain q where "accept_login toy_crypto rnd sock (AddrStr []) key p s =
      (Return (Some (login_uuid rnd None s)), [SendAll sock q],
       session_started sock (login_uuid rnd None s) (login_session rnd None sock (AddrStr []) key s) s)"
    using accept_login_ok [OF toy_aead_ok toy_zstd_ok assms(5) p] by metis
  then have "accept_login toy_crypto rnd sock (AddrStr []) key p s =
      (Return (Some u), [SendAll sock q], session_started sock u (new_session sock (AddrStr []) u key 2 2) s)"
    by (simp add: login_uuid_def login_known_def login_session_def assms(3))
  then have "server_step toy_crypto s (session_started sock u (new_session sock (AddrStr []) u key 2 2) s)"
    using assms by (intro server_step.login) auto
  with assms(1) show ?thesis by (rule reachable.step)
qed

text \<open>The server after Alice's first login.\<close>

definition alice_server :: server where
  "alice_server = session_started (Sock 1) alice (new_session (Sock 1) (AddrStr []) alice alice_key 2 2) empty_server"

lemma alice_session [simp]:
  "map_of (sv_client_db alice_server) u =
     (if u = alice then Some (new_session (Sock 1) (AddrStr []) alice alice_key 2 2) else None)"
  "sv_db alice_server = []" "sv_address_book alice_server = []" "\<not> sv_db_locked alice_server"
  by (auto simp: alice_server_def session_started_def map_of_setitem)

lemma reachable_alice: "reachable toy_crypto alice_server"
  unfolding alice_server_def
  by (rule login_reachable [OF reachable_empty fresh_alice, of "replicate 16 1"]) (simp_all add: alice_def)

section \<open>Invariants\<close>

lemma reachable_session:
  assumes "reachable cr s" "map_of (sv_client_db s) u = Some c"
  shows "session_wf u c" and "\<exists>key. cl_cipher c = Some key \<and> length key = 32"
    and "distinct (cl_addresses_owned c)"
    and "a \<in> set (cl_addresses_owned c) \<longleftrightarrow> map_of (sv_address_book s) a = Some u"
proof -
  show "session_wf u c" by (rule tables_wf_session [OF tables.reachable_holds [OF assms(1)] assms(2)])
  show "\<exists>key. cl_cipher c = Some key \<and> length key = 32"
    using keys.reachable_holds [OF assms(1)] assms(2)
    by (auto simp: keyed_def session_keyed_def dest: dict_allD split: option.splits)
  show "distinct (cl_addresses_owned c)"
    "a \<in> set (cl_addresses_owned c) \<longleftrightarrow> map_of (sv_address_book s) a = Some u"
    using owners.reachable_holds [OF assms(1)] assms(2) by (auto simp: ownership_iff)
qed

text \<open>C5: every reachable server. No key occurs twice in a table; a session is filed under its
  36-character UUID, has a 32-byte key, and files each response under the identifier it answers;
  the addresses a session owns are distinct, and are exactly the entries of the address book
  under its UUID.\<close>

theorem reachable_tables:
  assumes "reachable cr s"
  shows "dict_ok (sv_db s) \<and> dict_ok (sv_address_book s) \<and> dict_ok (sv_client_db s) \<and>
    (\<forall>u c. map_of (sv_client_db s) u = Some c \<longrightarrow>
       length u = 36 \<and> latin1 u \<and> cl_uuid c = u \<and> (\<exists>key. cl_cipher c = Some key \<and> length key = 32) \<and>
       (\<forall>i r. map_of (cl_outbox c) i = Some r \<longrightarrow> rs_response_uuid r = i) \<and>
       distinct (cl_addresses_owned c) \<and>
       (\<forall>a. a \<in> set (cl_addresses_owned c) \<longleftrightarrow> map_of (sv_address_book s) a = Some u))"
proof -
  have "rs_response_uuid r = i" if "outbox_ok (cl_outbox c)" "map_of (cl_outbox c) i = Some r" for c i r
    using that by (auto simp: outbox_ok_def dest: map_of_SomeD)
  then show ?thesis
    using tables.reachable_holds [OF assms] reachable_session [OF assms]
    by (simp add: session_wf_def) (simp add: tables_wf_def, blast)
qed

theorem reachable_tables_witness:
  "\<exists>c. map_of (sv_client_db alice_server) alice = Some c \<and> cl_uuid c = alice \<and> length alice = 36 \<and>
     (\<forall>a. a \<in> set (cl_addresses_owned c) \<longleftrightarrow> map_of (sv_address_book alice_server) a = Some alice)"
  using reachable_tables [OF reachable_alice] by force

section \<open>Which requests are answered\<close>


lemma mailbox_present: "of_boxes (office_of s) u = map_option mailbox_of (map_of (sv_client_db s) u)"
  by (simp add: office_of_def)

lemma office_tables:
  "of_db (office_of s) = map_of (sv_db s)" "of_book (office_of s) = map_of (sv_address_book s)"
  by (simp_all add: office_of_def)






section \<open>Checkpoints\<close>

text \<open>C13: a checkpoint of a reachable server whose tables fit in four gigabytes. \<open>serialize\<close>
  returns, and \<open>deserialize\<close> gives back the database and the address book as they were and every
  session with its UUID, addresses, inbox and outbox, in their order; connections, keys and
  counters are not kept. The server itself is left with empty inboxes.\<close>

theorem reachable_checkpoint:
  assumes "zstd_ok cr" "reachable cr s" "checkpoint_size s < 2 ^ 32"
  shows "\<exists>data. serialize cr s = (Return data, [], s\<lparr>sv_client_db := drained (sv_client_db s)\<rparr>) \<and>
    deserialize cr data None =
      Inr (Tables (sv_db s) (sv_address_book s) (persisted_db (sv_client_db s)))"
proof -
  have wf: "tables_wf s" using assms(2) by (rule tables.reachable_holds)
  obtain data s' where "serialize cr s = (Return data, [], s')"
    using serialize_total [OF wf assms(3)] by blast
  with checkpoint_round_trip [OF assms(1) tables_wf_persistable [OF wf] this] show ?thesis by blast
qed

theorem reachable_checkpoint_witness:
  "\<exists>data. deserialize toy_crypto data None =
     Inr (Tables [] [] [(alice, persisted (new_session (Sock 1) (AddrStr []) alice alice_key 2 2))])"
proof -
  have a: "sv_client_db alice_server = [(alice, new_session (Sock 1) (AddrStr []) alice alice_key 2 2)]"
    by (simp add: alice_server_def session_started_def dict_setitem_def)
  then have "checkpoint_size alice_server < 2 ^ 32"
    by (simp add: checkpoint_size_def client_size_def new_session_def dict_values_def)
  from reachable_checkpoint [OF toy_zstd_ok reachable_alice this] show ?thesis
    by (auto simp: a persisted_db_def)
qed

section \<open>Addresses\<close>

text \<open>Entries of the address book stay with their session: an office in which the owned addresses
  are exactly the book's entries keeps an entry through every command but the owner's own
  UNREGISTER, also when the session the entry names is gone.\<close>

definition office_owned :: "office \<Rightarrow> bool" where
  "office_owned w \<longleftrightarrow> (\<forall>u m. of_boxes w u = Some m \<longrightarrow> distinct (mb_owned m) \<and>
     (\<forall>a. a \<in> set (mb_owned m) \<longleftrightarrow> of_book w a = Some u))"

lemma office_owned_of: "ownership s \<Longrightarrow> office_owned (office_of s)"
  by (auto simp: office_owned_def ownership_iff mailbox_present office_tables mailbox_of_def)

lemma office_owned_step:
  assumes "office_step rnd u cmd w = Some (a, w')" "office_owned w"
  shows "office_owned w'"
  using assms by (cases cmd) (auto simp: office_owned_def Let_def split: option.splits if_splits list.splits)

lemma entry_kept_step:
  assumes "office_step rnd u cmd w = Some (a, w')" "office_owned w" "of_book w (decode_latin1 b) = Some v"
    and "(u, cmd) \<noteq> (v, CUnregister b)"
  shows "of_book w' (decode_latin1 b) = Some v \<and>
    (cmd = CRegister b \<longrightarrow> a = Err 5) \<and> (cmd = CFind b \<longrightarrow> a = Value (latin1_bytes v))"
  using assms by (cases cmd) (auto simp: office_owned_def Let_def split: option.splits if_splits list.splits)

definition entry_answers :: "bytes \<Rightarrow> pystr \<Rightarrow> request_event \<Rightarrow> answer \<Rightarrow> bool" where
  "entry_answers b v ev a \<longleftrightarrow> (case ev of (rnd, u, cmd) \<Rightarrow>
     (cmd = CRegister b \<longrightarrow> a = Err 5) \<and> (cmd = CFind b \<longrightarrow> a = Value (latin1_bytes v)))"

lemma entry_kept_run:
  "office_run evs w = Some (as, w') \<Longrightarrow> office_owned w \<Longrightarrow> of_book w (decode_latin1 b) = Some v \<Longrightarrow>
   \<forall>(rnd, u, cmd) \<in> set evs. (u, cmd) \<noteq> (v, CUnregister b) \<Longrightarrow>
   of_book w' (decode_latin1 b) = Some v \<and> list_all2 (entry_answers b v) evs as"
proof (induction evs arbitrary: w as)
  case (Cons ev evs)
  obtain rnd u cmd where ev: "ev = (rnd, u, cmd)" by (cases ev)
  with Cons.prems(1) obtain a w1 as' where a: "office_step rnd u cmd w = Some (a, w1)"
    "office_run evs w1 = Some (as', w')" "as = a # as'"
    by (auto split: option.splits)
  have "(u, cmd) \<noteq> (v, CUnregister b)" using Cons.prems(4) ev by auto
  from entry_kept_step [OF a(1) Cons.prems(2,3) this]
  have s: "of_book w1 (decode_latin1 b) = Some v" "entry_answers b v ev a"
    using ev by (simp_all add: entry_answers_def)
  then show ?case
    using Cons.IH [OF a(2) office_owned_step [OF a(1) Cons.prems(2)]] Cons.prems(4) a(3) by simp
qed simp

lemma run_calls_entry:
  assumes "aead_ok cr" and "zstd_ok cr" and "connected us (length evs) cs s" and "\<not> sv_db_locked s"
    and "\<forall>ev \<in> set evs. event_ok ev \<and> fst (snd ev) \<in> us"
    and "office_run evs (office_of s) = Some (as, w')" and "\<forall>a \<in> set as. answer_ok a"
    and "ownership s" and "map_of (sv_address_book s) (decode_latin1 b) = Some v"
    and "\<forall>(rnd, u, cmd) \<in> set evs. (u, cmd) \<noteq> (v, CUnregister b)"
  shows "\<exists>ds cs' s'. run_calls cr socks evs cs s = Some (ds, cs', s') \<and>
    map_of (sv_address_book s') (decode_latin1 b) = Some v \<and> length ds = length evs \<and>
    (\<forall>(ev, d) \<in> set (zip evs ds). (snd (snd ev) = CRegister b \<longrightarrow> d = err_answer 5) \<and>
       (snd (snd ev) = CFind b \<longrightarrow> d = latin1_bytes v))"
proof -
  obtain cs' s' where s': "run_calls cr socks evs cs s = Some (map answer_bytes as, cs', s')" "office_of s' = w'"
    using run_calls_office [where k = 0, OF assms(1,2) _ assms(4-7)] assms(3) by (simp, blast)
  have kept: "of_book w' (decode_latin1 b) = Some v" "list_all2 (entry_answers b v) evs as"
    using entry_kept_run [OF assms(6) office_owned_of [OF assms(8)] _ assms(10)]
      assms(9) by (simp_all add: office_tables)
  have "(snd (snd ev) = CRegister b \<longrightarrow> d = err_answer 5) \<and> (snd (snd ev) = CFind b \<longrightarrow> d = latin1_bytes v)"
    if "(ev, d) \<in> set (zip evs (map answer_bytes as))" for ev d
    using that kept(2) by (auto simp: zip_map2 list_all2_iff entry_answers_def)
  then show ?thesis
    using s' kept list_all2_lengthD [OF kept(2)]
    by (intro exI [of _ "map answer_bytes as"] exI [of _ cs'] exI [of _ s']) (auto simp: office_tables)
qed

text \<open>C16: an address has one owner. In a reachable server in which the address \<open>b\<close> belongs to \<open>v\<close>,
  whatever calls the connected clients make, as long as \<open>v\<close> itself does not unregister \<open>b\<close> the
  entry stays, every REGISTER of \<open>b\<close> fails with error 5 and every FIND of it returns \<open>v\<close>.\<close>

theorem address_exclusive:
  assumes "aead_ok cr" and "zstd_ok cr" and "connected us (length evs) cs s" and "\<not> sv_db_locked s"
    and "\<forall>ev \<in> set evs. event_ok ev \<and> fst (snd ev) \<in> us"
    and "office_run evs (office_of s) = Some (as, w')" and "\<forall>a \<in> set as. answer_ok a"
    and "reachable cr s" and "map_of (sv_address_book s) (decode_latin1 b) = Some v"
    and "\<forall>(rnd, u, cmd) \<in> set evs. (u, cmd) \<noteq> (v, CUnregister b)"
  shows "\<exists>ds cs' s'. run_calls cr socks evs cs s = Some (ds, cs', s') \<and>
    map_of (sv_address_book s') (decode_latin1 b) = Some v \<and> length ds = length evs \<and>
    (\<forall>(ev, d) \<in> set (zip evs ds). (snd (snd ev) = CRegister b \<longrightarrow> d = err_answer 5) \<and>
       (snd (snd ev) = CFind b \<longrightarrow> d = latin1_bytes v))"
  by (rule run_calls_entry [OF assms(1-7) owners.reachable_holds [OF assms(8)] assms(9,10)])

lemma uuid_not_err:
  assumes "length b = 16" shows "take 3 (latin1_bytes (uuid_str b)) \<noteq> ERR_PREFIX"
proof -
  obtain x y where b: "b = x # y" using assms by (cases b) auto
  have h: "hex_digit (unat x div 16) < 256" "hex_digit (unat x div 16) \<noteq> 69"
    using hex_digit_less [OF byte_div16, of x] byte_div16 [of x] by (simp_all add: hex_digit_def)
  have "unat (of_nat (hex_digit (unat x div 16)) :: byte) \<noteq> unat (69 :: byte)"
    using h by (simp only: unat_of_nat_byte) simp
  then have "(of_nat (hex_digit (unat x div 16)) :: byte) \<noteq> 69" by metis
  then show ?thesis
    by (simp add: b latin1_bytes_def uuid_str_def hex_str_def slice_def ERR_PREFIX_def numeral_3_eq_3)
qed

lemma err_answer_ok [simp]: "answer_ok (Err n)" "answer_ok Ack"
proof -
  have "sendable (err_answer n)" "sendable ACK" by simp_all
  then show "answer_ok (Err n)" "answer_ok Ack"
    by (simp_all add: answer_ok_def client_accepts_def) (simp_all add: err_answer_def ACK_def ERR_PREFIX_def)
qed

lemma alice_answer_ok: "answer_ok (Value (latin1_bytes alice))"
proof -
  have "take 3 (latin1_bytes alice) \<noteq> ERR_PREFIX" unfolding alice_def by (rule uuid_not_err) simp
  moreover have "latin1_bytes alice \<noteq> []" using length_latin1_bytes [of alice] by force
  ultimately show ?thesis by (simp add: answer_ok_def client_accepts_def sendable_def)
qed

text \<open>Alice's server after she has registered the address \<open>k\<close>.\<close>

lemma reachable_address:
  obtains s where "reachable toy_crypto s" and "session_at s alice alice_key 3 3"
    and "map_of (sv_address_book s) (decode_latin1 [107]) = Some alice"
proof -
  have s: "sendable (command_bytes (CRegister [107]))" by (simp add: sendable_def)
  obtain p where p: "packet_for toy_crypto alice_key 2 (command_bytes (CRegister [107])) p"
    using construct_packet_for [OF toy_aead_ok toy_zstd_ok _ _ s, of alice_key 2 9] by auto
  have at: "session_at alice_server alice alice_key 2 2"
    by (simp add: session_at_def alice_server_def session_started_fields new_session_def)
  have step: "office_step [] alice (CRegister [107]) (office_of alice_server) =
      Some (Ack, (office_of alice_server)\<lparr>of_book := [decode_latin1 [107] \<mapsto> alice],
        of_boxes := (of_boxes (office_of alice_server))(alice \<mapsto>
          \<lparr>mb_owned = [decode_latin1 [107]], mb_inbox = [], mb_outbox = Map.empty\<rparr>)\<rparr>)"
    by (simp add: office_tables mailbox_present new_session_def mailbox_of_def Let_def)
  obtain q s' where h: "handle_packet toy_crypto [] (Sock 1) alice (Some p) alice_server =
      (Return Next, [SendAll (Sock 1) q], s')"
    "session_at s' alice alice_key (Suc 2) (Suc 2)"
    "of_book (office_of s') = [decode_latin1 [107] \<mapsto> alice]"
    using handle_packet_office [OF toy_aead_ok toy_zstd_ok at _ _ p _ step, of "Sock 1"]
    by (auto simp: command_ok_def)
  have "reachable toy_crypto s'"
    using reachable_alice server_step.request [OF h(1)] by (rule reachable.step)
  moreover have "session_at s' alice alice_key 3 3" using h(2) by simp
  moreover have "map_of (sv_address_book s') (decode_latin1 [107]) = Some alice"
    using fun_cong [OF h(3), of "decode_latin1 [107]"] by (simp add: office_tables)
  ultimately show ?thesis by (rule that)
qed

lemma keyed_in_sync:
  "session_at s u key tx rx \<Longrightarrow> length key = 32 \<Longrightarrow> in_sync (keyed_client key rx tx raw_client) s u"
  by (simp add: session_at_def in_sync_def keyed_client_def raw_client_def)

theorem address_exclusive_witness:
  "\<exists>s cs cs' s'. reachable toy_crypto s \<and> map_of (sv_address_book s) (decode_latin1 [107]) = Some alice \<and>
     run_calls toy_crypto (\<lambda>u. Sock 1) [([], alice, CRegister [107]), ([], alice, CFind [107])] cs s =
       Some ([err_answer 5, latin1_bytes alice], cs', s')"
proof -
  obtain s where s: "reachable toy_crypto s" "session_at s alice alice_key 3 3"
    "map_of (sv_address_book s) (decode_latin1 [107]) = Some alice" by (rule reachable_address)
  let ?evs = "[([], alice, CRegister [107]), ([], alice, CFind [107])] :: request_event list"
  let ?cs = "\<lambda>u. keyed_client alice_key 3 3 raw_client"
  have con: "connected {alice} (length ?evs) ?cs s"
    using keyed_in_sync [OF s(2)] by (simp add: connected_def) (simp add: keyed_client_def)
  have evs: "\<forall>ev \<in> set ?evs. event_ok ev \<and> fst (snd ev) \<in> {alice}"
    by (simp add: event_ok_def command_ok_def sendable_def)
  have run: "office_run ?evs (office_of s) = Some ([Err 5, Value (latin1_bytes alice)], office_of s)"
    using s(3) alice_answer_ok by (auto simp: office_tables answer_ok_def sendable_def latin1_bytes_def)
  have ok: "\<forall>a \<in> set [Err 5, Value (latin1_bytes alice)]. answer_ok a"
    using alice_answer_ok by simp
  obtain ds cs' s' where r: "run_calls toy_crypto (\<lambda>u. Sock 1) ?evs ?cs s = Some (ds, cs', s')" "length ds = 2"
    "\<forall>(ev, d) \<in> set (zip ?evs ds). (snd (snd ev) = CRegister [107] \<longrightarrow> d = err_answer 5) \<and>
       (snd (snd ev) = CFind [107] \<longrightarrow> d = latin1_bytes alice)"
    using address_exclusive [OF toy_aead_ok toy_zstd_ok con _ evs run ok s(1,3), of "\<lambda>u. Sock 1"] s(2)
    by (auto simp: session_at_def simp del: run_calls.simps)
  then have "ds = [err_answer 5, latin1_bytes alice]"
    by (auto simp: numeral_2_eq_2 length_Suc_conv)
  with r(1) s show ?thesis by blast
qed

end
