(* ===== verification/Disconnect.thy ===== *)
theory Disconnect
  imports Guarantees
begin

text \<open>
  What a session leaves behind when its connection ends.
\<close>

lemma cleanup_session:
  assumes "cleanup sock u s = (r, es, s1)" "\<not> sv_keep_dead_sessions s"
  shows "map_of (sv_client_db s1) = (map_of (sv_client_db s))(u := None)"
    and "map_of (sv_address_book s1) a =
      (if first_key_of u (sv_address_book s) = Some a then None else map_of (sv_address_book s) a)"
    and "sv_db_locked s1 = sv_db_locked s"
  using assms by (auto simp: cleanup_eval map_of_delete split: option.splits)

section \<open>Addresses of a closed session\<close>

text \<open>C26: when a session that owns several addresses ends, all but one of them are lost. In a
  server whose address book and sessions agree, as they do in every reachable one, the clean-up
  removes the session but only the first of its entries: every
  other address still names the dead session, whatever the connected clients do afterwards, so
  that FIND returns a UUID nobody has, and REGISTER fails with error 5 for everybody.\<close>

theorem closed_session_keeps_addresses:
  assumes "aead_ok cr" and "zstd_ok cr" and "ownership s" and "\<not> sv_keep_dead_sessions s"
    and "map_of (sv_client_db s) u = Some c" and "decode_latin1 b \<in> set (cl_addresses_owned c)"
    and "first_key_of u (sv_address_book s) \<noteq> Some (decode_latin1 b)"
    and "cleanup sock u s = (r, es, s1)" and "connected us (length evs) cs s1" and "\<not> sv_db_locked s1"
    and "\<forall>ev \<in> set evs. event_ok ev \<and> fst (snd ev) \<in> us"
    and "office_run evs (office_of s1) = Some (as, w')" and "\<forall>a \<in> set as. answer_ok a"
  shows "map_of (sv_client_db s1) u = None \<and>
    (\<exists>ds cs' s'. run_calls cr socks evs cs s1 = Some (ds, cs', s') \<and>
      map_of (sv_address_book s') (decode_latin1 b) = Some u \<and> length ds = length evs \<and>
      (\<forall>(ev, d) \<in> set (zip evs ds). (snd (snd ev) = CRegister b \<longrightarrow> d = err_answer 5) \<and>
         (snd (snd ev) = CFind b \<longrightarrow> d = latin1_bytes u)))"
proof -
  note s1 = cleanup_session [OF assms(8,4)]
  have own: "ownership s1" by (rule keepsD [OF owners.keeps_cleanup [OF assms(3)] assms(8)])
  have gone: "map_of (sv_client_db s1) u = None" by (simp add: s1(1))
  have entry: "map_of (sv_address_book s1) (decode_latin1 b) = Some u"
    using s1(2) assms(3,5,6,7) by (simp add: ownership_iff)
  have "u \<notin> us" using assms(9) gone by (auto simp: connected_def in_sync_def session_cipher_def)
  then have "\<forall>(rnd, v, cmd) \<in> set evs. (v, cmd) \<noteq> (u, CUnregister b)" using assms(11) by auto
  from run_calls_entry [OF assms(1,2,9-13) own entry this] gone
  show ?thesis by blast
qed

text \<open>Alice owns \<open>k\<close> and \<open>l\<close>.\<close>

definition busy_server :: server where
  "busy_server = two_sessions\<lparr>sv_address_book := [(decode_latin1 [107], alice), (decode_latin1 [108], alice)],
     sv_client_db :=
      [(alice, (new_session (Sock 1) (AddrStr []) alice alice_key 2 2)
          \<lparr>cl_addresses_owned := [decode_latin1 [107], decode_latin1 [108]]\<rparr>),
       (bob, new_session (Sock 2) (AddrStr []) bob bob_key 2 2)]\<rparr>"

lemma busy_ownership: "ownership busy_server"
  by (auto simp: ownership_iff busy_server_def dict_ok_def new_session_def)

theorem closed_session_keeps_addresses_witness:
  "\<exists>s1 cs cs' s'. cleanup (Sock 1) alice busy_server = (Return (), [CloseSock (Sock 1)], s1) \<and>
     run_calls toy_crypto (\<lambda>u. Sock 2) [([], bob, CRegister [108])] cs s1 = Some ([err_answer 5], cs', s')"
proof -
  have first: "first_key_of alice (sv_address_book busy_server) = Some (decode_latin1 [107])"
    by (simp add: busy_server_def first_key_of_def)
  have keep: "\<not> sv_keep_dead_sessions busy_server" by (simp add: busy_server_def)
  obtain s1 where s1: "cleanup (Sock 1) alice busy_server = (Return (), [CloseSock (Sock 1)], s1)"
    using keep by (simp add: cleanup_eval)
  note c = cleanup_session [OF s1 keep]
  let ?evs = "[([], bob, CRegister [108])] :: request_event list" and ?cs = "\<lambda>u. client_at bob_key"
  have sess: "map_of (sv_client_db s1) bob = Some (new_session (Sock 2) (AddrStr []) bob bob_key 2 2)"
    by (simp add: c(1) busy_server_def)
  have con: "connected {bob} (length ?evs) ?cs s1"
    using sess by (simp add: connected_def in_sync_def session_cipher_def session_tx_def session_rx_def
        client_at_def keyed_client_def raw_client_def new_session_def)
  have entry: "map_of (sv_address_book s1) (decode_latin1 [108]) = Some alice"
    by (simp add: c(2) first) (simp add: busy_server_def)
  have run: "office_run ?evs (office_of s1) = Some ([Err 5], office_of s1)"
    using entry by (simp add: office_tables)
  have evs: "\<forall>ev \<in> set ?evs. event_ok ev \<and> fst (snd ev) \<in> {bob}"
    by (simp add: event_ok_def command_ok_def sendable_def)
  have alice: "map_of (sv_client_db busy_server) alice = Some ((new_session (Sock 1) (AddrStr []) alice alice_key 2 2)
      \<lparr>cl_addresses_owned := [decode_latin1 [107], decode_latin1 [108]]\<rparr>)"
    by (simp add: busy_server_def)
  have free: "\<not> sv_db_locked s1" by (simp add: c(3)) (simp add: busy_server_def)
  obtain ds cs' s' where r: "run_calls toy_crypto (\<lambda>u. Sock 2) ?evs ?cs s1 = Some (ds, cs', s')" "length ds = 1"
    "\<forall>(ev, d) \<in> set (zip ?evs ds). (snd (snd ev) = CRegister [108] \<longrightarrow> d = err_answer 5) \<and>
         (snd (snd ev) = CFind [108] \<longrightarrow> d = latin1_bytes alice)"
    using closed_session_keeps_addresses [OF toy_aead_ok toy_zstd_ok busy_ownership keep alice _ _ s1 con free
        evs run, of "[108]" "\<lambda>u. Sock 2"] first
    by (auto simp del: run_calls.simps)
  then have "ds = [err_answer 5]" by (auto simp: length_Suc_conv)
  with r(1) s1 show ?thesis by blast
qed

end
