(* ===== verification/Scenarios.thy ===== *)
theory Scenarios
  imports Disconnect
begin

text \<open>
  End-to-end scenarios of the client library against the server: a remote call through inbox and
  outbox, a request that has to wait, the listing of the database, and the two ways a client's own
  connection breaks.
\<close>

section \<open>A remote call\<close>



lemma err_first: "take 3 xs = ERR_PREFIX \<Longrightarrow> xs ! 0 = 69"
  by (metis ERR_PREFIX_def nth_Cons_0 nth_take zero_less_numeral)

lemma decode_latin1_bytes: "latin1 u \<Longrightarrow> decode_latin1 (latin1_bytes u) = u"
  by (auto simp: decode_latin1_def latin1_bytes_def latin1_def unat_of_nat_byte intro!: map_idI)





section \<open>Pipelined sends\<close>

text \<open>C34: two calls of \<open>send\<close> before the send loop has run. Both packets are built with the same
  counter, because \<open>send\<close> encrypts at once but only the send loop moves the counter: the nonce is
  used twice. The server accepts the first packet, and then waits for the next counter, so that
  it rejects the second one with code 3 and closes the connection.\<close>

theorem pipelined_sends_reuse_nonce:
  assumes "aead_ok cr" "zstd_ok cr" "aead_nonce_bound cr" "in_sync c s u" "\<not> sv_db_locked s"
    and "rc_tx_nonce c + 1 < 2 ^ 96" "rc_rx_nonce c + 1 < 2 ^ 96"
    and "command_ok cmd" "sendable (command_bytes cmd)" "sendable data"
    and "office_step rnd u cmd (office_of s) = Some (a, w')" "sendable (answer_bytes a)"
  shows "\<exists>c1 c2 p1 p2 q1 q2 s1 s2.
    rc_send cr (command_bytes cmd) c = Inr c1 \<and> rc_send cr data c1 = Inr c2 \<and> rc_tasks c2 = [p1, p2] \<and>
    verify_packet cr p1 (rc_cipher c) (rc_tx_nonce c) = Inr (Inr (command_bytes cmd), None) \<and>
    verify_packet cr p2 (rc_cipher c) (rc_tx_nonce c) = Inr (Inr data, None) \<and>
    handle_packet cr rnd sock u (Some p1) s = (Return Next, [SendAll sock q1], s1) \<and>
    handle_packet cr rnd2 sock u (Some p2) s1 = (Return (Stop False), [SendAll sock q2, CloseSock sock], s2)"
proof -
  obtain key where key: "rc_cipher c = Some key" "length key = 32" "session_cipher s u = Some key"
    using assms(4) by (auto simp: in_sync_def)
  note sync = assms(4) [unfolded in_sync_def]
  have pkt: "\<exists>p. construct_packet cr d (Some key) (rc_tx_nonce c) client_level = Inr p \<and>
      verify_packet cr p (Some key) (rc_tx_nonce c) = Inr (Inr d, None)" if "sendable d" for d
    using construct_verify [OF assms(1,2) key(2), of "rc_tx_nonce c" d client_level] that assms(6)
    by (auto simp: sendable_def)
  obtain p1 where p1: "construct_packet cr (command_bytes cmd) (Some key) (rc_tx_nonce c) client_level = Inr p1"
    "verify_packet cr p1 (Some key) (rc_tx_nonce c) = Inr (Inr (command_bytes cmd), None)"
    using pkt [OF assms(9)] by blast
  obtain p2 where p2: "construct_packet cr data (Some key) (rc_tx_nonce c) client_level = Inr p2"
    "verify_packet cr p2 (Some key) (rc_tx_nonce c) = Inr (Inr data, None)"
    using pkt [OF assms(10)] by blast
  obtain q1 s1 where q1: "handle_packet cr rnd sock u (Some p1) s = (Return Next, [SendAll sock q1], s1)"
    "session_cipher s1 = session_cipher s" "session_tx s1 = (session_tx s)(u := Suc (session_tx s u))"
    "session_rx s1 = (session_rx s)(u := Suc (session_rx s u))"
    using served_handle_packet [OF assms(1,2,4) _ _ assms(5,8,9,11,12), of p1 sock] p1(1) key(1) assms(6,7)
    by auto
  obtain k where k: "map_of (sv_client_db s1) u = Some k" "cl_cipher k = Some key"
    using trans [OF fun_cong [OF q1(2), of u] key(3)] by (auto simp: session_cipher_def split: bind_splits)
  have n: "cl_rx_nonce k = Suc (rc_tx_nonce c)" "cl_tx_nonce k = Suc (rc_rx_nonce c)"
    using fun_cong [OF q1(3), of u] fun_cong [OF q1(4), of u] k(1) sync by (simp_all add: session_fields)
  have "verify_packet cr p2 (Some key) (cl_rx_nonce k) = Inr (Inl 3, None)"
    using verify_wrong_nonce [OF assms(3) key(2) _ _ p2(1)] assms(6) n(1) by simp
  then obtain q2 s2 where "handle_packet cr rnd2 sock u (Some p2) s1 =
      (Return (Stop False), [SendAll sock q2, CloseSock sock], s2)"
    using bad_frame_closes [OF assms(1,2) k key(2)] n(2) assms(7) by (metis Suc_eq_plus1)
  then show ?thesis
    using p1 p2 q1(1) key(1) sync by (simp add: rc_send_def)
qed

theorem pipelined_sends_reuse_nonce_witness:
  "\<exists>c1 c2 p1 p2 q1 q2 s1 s2. rc_send toy_crypto (command_bytes (CGet [1])) (two_clients alice) = Inr c1 \<and>
    rc_send toy_crypto (command_bytes (CGet [2])) c1 = Inr c2 \<and> rc_tasks c2 = [p1, p2] \<and>
    handle_packet toy_crypto [] (Sock 1) alice (Some p1) two_sessions = (Return Next, [SendAll (Sock 1) q1], s1) \<and>
    handle_packet toy_crypto [] (Sock 1) alice (Some p2) s1 =
      (Return (Stop False), [SendAll (Sock 1) q2, CloseSock (Sock 1)], s2)"
proof -
  have run: "office_step [] alice (CGet [1]) (office_of two_sessions) = Some (Err 5, office_of two_sessions)"
    by (simp add: sample_office)
  have "rc_tx_nonce (two_clients alice) + 1 < 2 ^ 96" "rc_rx_nonce (two_clients alice) + 1 < 2 ^ 96"
    by (simp_all add: two_clients_def client_at_def keyed_client_def)
  moreover have "sendable (command_bytes (CGet [1]))" "sendable (command_bytes (CGet [2]))"
    "sendable (answer_bytes (Err 5))" "command_ok (CGet [1])"
    by (simp_all add: sendable_def command_ok_def err_answer_def)
  ultimately show ?thesis
    using pipelined_sends_reuse_nonce [OF toy_aead_ok toy_zstd_ok toy_nonce_bound sample_in_sync(1) _ _ _ _ _ _ run,
      of "command_bytes (CGet [2])" "Sock 1" "[]"] sample_tables(8) by blast
qed

section \<open>Values that look like errors\<close>

text \<open>C35: the client tells an error by the prefix \<open>ERR\<close>, but the server's errors begin with a zero
  byte. A stored value that begins with \<open>ERR\<close> is sent by the server as the answer to GET like any
  other; the receive loop of the client takes it for an error, and the connection dies.\<close>

theorem err_value_kills_connection:
  assumes "aead_ok cr" "zstd_ok cr" "in_sync c s u" "rc_tx_nonce c < 2 ^ 96" "rc_rx_nonce c < 2 ^ 96"
    and "\<not> sv_db_locked s" "sendable (command_bytes (CGet k))" "map_of (sv_db s) k = Some v" "sendable v"
    and "take 3 v = ERR_PREFIX" "v \<noteq> OLD_ACK"
  shows "\<exists>p q s' c'. construct_packet cr (command_bytes (CGet k)) (rc_cipher c) (rc_tx_nonce c) client_level = Inr p \<and>
    handle_packet cr rnd sock u (Some p) s = (Return Next, [SendAll sock q], s') \<and>
    rc_receive_frame cr q c = (False, c') \<and> \<not> rc_open c' \<and> \<not> rc_alive c' \<and>
    rc_input_packets c' = []"
proof -
  obtain key where key: "rc_cipher c = Some key" "length key = 32"
    using assms(3) by (auto simp: in_sync_def)
  obtain p where p: "construct_packet cr (command_bytes (CGet k)) (rc_cipher c) (rc_tx_nonce c) client_level = Inr p"
    using construct_verify [OF assms(1,2) key(2) assms(4), of "command_bytes (CGet k)" client_level]
      assms(7) key(1) by (auto simp: sendable_def)
  have "office_step rnd u (CGet k) (office_of s) = Some (Value v, office_of s)"
    using assms(8,9) by (simp add: office_tables sendable_def)
  then obtain q s' where "handle_packet cr rnd sock u (Some p) s = (Return Next, [SendAll sock q], s')"
    "verify_packet cr q (rc_cipher c) (rc_rx_nonce c) = Inr (Inr v, None)"
    using served_handle_packet [OF assms(1-6) _ assms(7) _ _ p, of rnd "Value v" "office_of s" sock] assms(9)
    by (auto simp: command_ok_def)
  then show ?thesis
    using p assms(3,10,11) by (simp add: rc_receive_frame_def Let_def rc_fail_def in_sync_def)
qed

theorem err_value_kills_connection_witness:
  "\<exists>p q s' c'. handle_packet toy_crypto [] (Sock 1) alice (Some p)
      (two_sessions\<lparr>sv_db := [([1], [69, 82, 82, 79, 82])]\<rparr>) = (Return Next, [SendAll (Sock 1) q], s') \<and>
    rc_receive_frame toy_crypto q (two_clients alice) = (False, c') \<and> \<not> rc_open c'"
proof -
  let ?s = "two_sessions\<lparr>sv_db := [([1], [69, 82, 82, 79, 82])]\<rparr>"
  have sync: "in_sync (two_clients alice) ?s alice"
    using sample_in_sync(1) by (simp add: in_sync_def session_cipher_def session_tx_def session_rx_def)
  have n: "rc_tx_nonce (two_clients alice) < 2 ^ 96" "rc_rx_nonce (two_clients alice) < 2 ^ 96"
    by (simp_all add: two_clients_def client_at_def keyed_client_def)
  show ?thesis
    using err_value_kills_connection [OF toy_aead_ok toy_zstd_ok sync n, of "[1]" "[69, 82, 82, 79, 82]" "[]" "Sock 1"]
    by (auto simp: sendable_def ERR_PREFIX_def OLD_ACK_def)
qed

section \<open>Listing the database\<close>

text \<open>C29: LIST. The reply to a LIST request is one packet, from which \<open>Client.list\<close> parses the
  database: the keys and values of the server's table, decoded as latin1, in their order,
  whatever characters they contain.\<close>

theorem list_round_trip:
  assumes "aead_ok cr" "zstd_ok cr" "session_ready s u" "\<not> sv_db_locked s" "dict_ok (sv_db s)"
    and "length (json_dumps (db_listing (sv_db s))) < 2 ^ 31 - 7"
  shows "\<exists>p data s'. dispatch cr rnd sock u list_request s = (Return Next, [SendAll sock p], s') \<and>
    verify_packet cr p (session_cipher s u) (session_tx s u) = Inr (Inr data, None) \<and>
    list_reply data = Inr (db_listing (sv_db s)) \<and> office_of s' = office_of s"
proof -
  have "inj decode_latin1" by (simp add: inj_def)
  then have "dict_ok (db_listing (sv_db s))"
    using assms(5) by (simp add: dict_ok_def db_listing_def case_prod_unfold comp_def distinct_map
        inj_on_def)
  moreover have "\<forall>(k, v) \<in> set (db_listing (sv_db s)). latin1 k \<and> latin1 v" by (auto simp: db_listing_def)
  ultimately obtain bs where bs: "encode_latin1 (json_dumps (db_listing (sv_db s))) = Inr bs" "bs \<noteq> []"
    "json_loads bs = Inr (db_listing (sv_db s))"
    using json_round_trip by blast
  let ?s = "s\<lparr>sv_db_locked := True\<rparr>"
  have "sendable bs" using bs assms(6) length_encode_latin1 [OF bs(1)] by (simp add: sendable_def)
  then have "served cr sock u bs ?s (office_of ?s) (reply_next cr sock u bs ?s)"
    using assms(1-3) by (intro reply_served) simp_all
  then have "served cr sock u bs s (office_of s) (op_list cr sock u s)"
    unfolding op_list_def using assms(4) bs(1)
    by (intro served_with_lock) (simp_all add: act_simps office_simps)
  then show ?thesis
    using bs(3) by (auto simp: served_def dispatch_server server_request_def list_request_def list_reply_def)
qed

theorem list_round_trip_witness:
  "\<exists>p data s'. dispatch toy_crypto [] (Sock 1) alice list_request (two_sessions\<lparr>sv_db := [([34], [92, 200])]\<rparr>) =
      (Return Next, [SendAll (Sock 1) p], s') \<and> list_reply data = Inr [([34], [92, 200])]"
proof -
  let ?s = "two_sessions\<lparr>sv_db := [([34], [92, 200])]\<rparr>"
  have r: "session_ready ?s alice"
    using sample_sessions(1,3) by (simp add: session_ready_def session_cipher_def session_tx_def)
  have l: "db_listing (sv_db ?s) = [([34], [92, 200])]" by (simp add: db_listing_def decode_latin1_def)
  have "length (json_dumps (db_listing (sv_db ?s))) < 2 ^ 31 - 7"
    unfolding l by (simp add: json_dumps_def json_member_def json_string_def json_escape_def json_u_def)
  from list_round_trip [OF toy_aead_ok toy_zstd_ok r _ _ this, of "[]" "Sock 1", unfolded l]
  show ?thesis by (auto simp: dict_ok_def)
qed

section \<open>A read that waits\<close>

text \<open>READ INBOX on an empty inbox waits: it sends nothing and changes nothing. Once another
  client's request for this session has been handled, the read it was waiting for, taken up
  again, is answered with exactly that request, and the inbox is empty again.\<close>

theorem waiting_read_served:
  assumes "aead_ok cr" "zstd_ok cr" "session_ready s u" "session_ready s v" "u \<noteq> v" "\<not> sv_db_locked s"
    and "map_of (sv_client_db s) u = Some c" "cl_inbox c = []" "latin1 u" "latin1 v"
    and "length u = 36" "length v = 36" "length rnd = 16" "length request < 2 ^ 24" "length key < 2 ^ 24"
  shows "dispatch cr rnd' su u read_inbox_request s = (Block, [], s) \<and>
    (\<exists>p s1 q s2. dispatch cr rnd sv v (command_bytes (CRequest (latin1_bytes u) request key)) s =
        (Return Next, [SendAll sv p], s1) \<and>
      dispatch cr rnd' su u read_inbox_request s1 = (Return Next, [SendAll su q], s2) \<and>
      verify_packet cr q (session_cipher s u) (session_tx s u) = Inr (Inr (inbox_message
        \<lparr>rq_return_uuid = latin1_bytes v, rq_key = key, rq_request = request,
         rq_request_uuid = uuid4_bytes rnd\<rparr>), None) \<and>
      office_of s2 = office_of s)"
proof -
  let ?id = "uuid4_bytes rnd"
  let ?q = "\<lparr>rq_return_uuid = latin1_bytes v, rq_key = key, rq_request = request, rq_request_uuid = ?id\<rparr>"
  let ?m = "mailbox_of c" and ?w = "office_of s"
  let ?w1 = "?w\<lparr>of_boxes := (of_boxes ?w)(u \<mapsto> ?m\<lparr>mb_inbox := [?q]\<rparr>)\<rparr>"
  have box: "of_boxes ?w u = Some ?m" "mb_inbox ?m = []"
    using assms(7,8) by (simp_all add: mailbox_present mailbox_of_def)
  have id: "?id \<noteq> []" "length ?id = 16"
    using assms(13) length_uuid4_bytes [of rnd] by (metis list.size(3) zero_neq_numeral, simp)
  have step1: "office_step rnd v (CRequest (latin1_bytes u) request key) ?w = Some (Value ?id, ?w1)"
    using box assms(9,10) by (simp add: decode_latin1_bytes)
  have step2: "office_step rnd' u CReadInbox ?w1 = Some (Value (inbox_message ?q), ?w)"
    using box by (cases ?m) (simp add: fun_upd_idem)
  have cmd: "command_ok (CRequest (latin1_bytes u) request key)" "command_ok CReadInbox"
    using assms(11,14,15) by (simp_all add: command_ok_def)
  have send: "sendable (inbox_message ?q)" "sendable ?id"
    using assms(12,14,15) id by (simp_all add: sendable_def inbox_message_def)
  have "served cr sv v ?id s ?w1 (dispatch cr rnd sv v (command_bytes (CRequest (latin1_bytes u) request key)) s)"
    using dispatch_office [OF assms(1,2,4,6) cmd(1) step1] send by simp
  then obtain p s1 where p: "dispatch cr rnd sv v (command_bytes (CRequest (latin1_bytes u) request key)) s =
      (Return Next, [SendAll sv p], s1)" "office_of s1 = ?w1" "session_cipher s1 = session_cipher s"
      "session_tx s1 u = session_tx s u" "\<not> sv_db_locked s1"
    using assms(5,6) by (auto simp: served_def)
  have ready: "session_ready s1 u" using assms(3) p(3,4) by (simp add: session_ready_def)
  have "served cr su u (inbox_message ?q) s1 ?w (dispatch cr rnd' su u (command_bytes CReadInbox) s1)"
    using dispatch_office [OF assms(1,2) ready p(5) cmd(2) step2 [folded p(2)], of su] send(1) by simp
  moreover have "dispatch cr rnd' su u read_inbox_request s = (Block, [], s)"
    using assms(7,8)
    by (simp add: read_inbox_request_def dispatch_server client_request_def op_get_inbox_def act_simps)
  ultimately show ?thesis
    using p by (auto simp: served_def read_inbox_request_def)
qed

theorem waiting_read_served_witness:
  "dispatch toy_crypto [] (Sock 1) alice read_inbox_request two_sessions = (Block, [], two_sessions) \<and>
   (\<exists>p s1 q s2. dispatch toy_crypto (replicate 16 5) (Sock 2) bob
        (command_bytes (CRequest (latin1_bytes alice) [1] [2])) two_sessions = (Return Next, [SendAll (Sock 2) p], s1) \<and>
      dispatch toy_crypto [] (Sock 1) alice read_inbox_request s1 = (Return Next, [SendAll (Sock 1) q], s2))"
proof -
  have r: "session_ready two_sessions alice" "session_ready two_sessions bob" by (simp_all add: session_ready_def)
  show ?thesis
    using waiting_read_served [OF toy_aead_ok toy_zstd_ok r _ _ sample_tables(6), of "replicate 16 5" "[1]" "[2]" "[]"
        "Sock 1" "Sock 2"] by (auto simp: new_session_def simp del: command_bytes.simps)
qed

end
