(* ===== verification/Receive.thy ===== *)
theory Receive
  imports Samples
begin

text \<open>
  The receive loop of the client over a whole stream: \<open>recv_loop\<close> of \<^verbatim>\<open>client.py\<close>, with the frame
  reader it shares with the server's handler.
\<close>







end
