(* ===== verification/Race.thy ===== *)
theory Race
  imports Samples
begin

text \<open>
  Two handlers of one session. After a re-login the handler of the old connection still runs on
  the session, and a handler is suspended while \<open>sock_sendall\<close> waits. Here a reply is the two
  pieces around that wait, so that the replies of the two handlers can overlap.
\<close>

text \<open>Up to the wait: the packet is built with the session's cipher and counter. After it: the
  counter of whatever session is then filed under the UUID moves.\<close>

definition reply_begin :: "crypto \<Rightarrow> sock \<Rightarrow> pystr \<Rightarrow> bytes \<Rightarrow> unit action" where
  "reply_begin cr sock u data =
     and_then (get_session u) (\<lambda>c.
     and_then (lift (construct_packet cr data (cl_cipher c) (cl_tx_nonce c) compressor_level)) (\<lambda>p.
       emit (SendAll sock p)))"

definition reply_end :: "pystr \<Rightarrow> unit action" where
  "reply_end u = and_then (get_session u) (\<lambda>c. put_session u (c\<lparr>cl_tx_nonce := cl_tx_nonce c + 1\<rparr>))"

text \<open>With nothing in between, the two pieces are the reply of the handler model.\<close>

lemma reply_pieces: "and_then (reply_begin cr sock u data) (\<lambda>_. reply_end u) = send_reply cr sock u data"
proof
  fix s
  show "and_then (reply_begin cr sock u data) (\<lambda>_. reply_end u) s = send_reply cr sock u data s"
    by (cases "map_of (sv_client_db s) u")
      (auto simp: reply_begin_def reply_end_def send_reply_def act_simps lift_def split: sum.splits)
qed

text \<open>C23: overlapping replies. When two handlers serve one session and the second one builds its
  reply while the first one's \<open>sock_sendall\<close> waits, both packets are encrypted under the same key and
  nonce. Afterwards the counter has moved by two: the client, which gets only the packet on its
  own connection, rejects every later reply.\<close>

theorem overlapping_replies_share_nonce:
  assumes "aead_ok cr" "zstd_ok cr" "aead_nonce_bound cr" "in_sync c s u" "rc_rx_nonce c + 2 < 2 ^ 96"
    and "sendable d1" "sendable d2" "sendable d3" "client_accepts d1"
  shows "\<exists>p1 p2 p3 s' s'' c'.
    and_then (reply_begin cr new u d1) (\<lambda>_. and_then (reply_begin cr old u d2) (\<lambda>_.
      and_then (reply_end u) (\<lambda>_. reply_end u))) s = (Return (), [SendAll new p1, SendAll old p2], s') \<and>
    verify_packet cr p1 (rc_cipher c) (rc_rx_nonce c) = Inr (Inr d1, None) \<and>
    verify_packet cr p2 (rc_cipher c) (rc_rx_nonce c) = Inr (Inr d2, None) \<and>
    rc_receive_frame cr p1 c = (True, c') \<and>
    send_reply cr new u d3 s' = (Return (), [SendAll new p3], s'') \<and>
    fst (rc_receive_frame cr p3 c') = False"
proof -
  obtain key k where key: "rc_cipher c = Some key" "length key = 32"
    and k: "map_of (sv_client_db s) u = Some k" "cl_cipher k = Some key" "cl_tx_nonce k = rc_rx_nonce c"
    using assms(4) by (auto simp: in_sync_def session_cipher_def session_tx_def split: bind_splits)
  let ?n = "rc_rx_nonce c"
  obtain p1 where p1: "construct_packet cr d1 (Some key) ?n compressor_level = Inr p1"
    "verify_packet cr p1 (Some key) ?n = Inr (Inr d1, None)"
    using construct_verify [OF assms(1,2) key(2), of ?n d1] assms(5,6) by (auto simp: sendable_def)
  obtain p2 where p2: "construct_packet cr d2 (Some key) ?n compressor_level = Inr p2"
    "verify_packet cr p2 (Some key) ?n = Inr (Inr d2, None)"
    using construct_verify [OF assms(1,2) key(2), of ?n d2] assms(5,7) by (auto simp: sendable_def)
  obtain p3 where p3: "construct_packet cr d3 (Some key) (?n + 2) compressor_level = Inr p3"
    using construct_verify [OF assms(1,2) key(2), of "?n + 2" d3] assms(5,8) by (auto simp: sendable_def)
  have late: "verify_packet cr p3 (Some key) (?n + 1) = Inr (Inl 3, None)"
    using verify_wrong_nonce [OF assms(3) key(2) _ _ p3] assms(5) by simp
  have "rc_receive_frame cr p1 c = (True, c\<lparr>rc_rx_nonce := ?n + 1, rc_input_packets := rc_input_packets c @ [d1]\<rparr>)"
    using p1(2) key(1) assms(9) by (simp add: rc_receive_frame_def client_accepts_def Let_def)
  then show ?thesis
    using p1 p2 p3 late key k
    by (simp add: reply_begin_def reply_end_def send_reply_def act_simps rc_receive_frame_def map_of_setitem)
qed

theorem overlapping_replies_share_nonce_witness:
  "\<exists>p1 p2 s'. and_then (reply_begin toy_crypto (Sock 1) alice [7]) (\<lambda>_.
      and_then (reply_begin toy_crypto (Sock 9) alice (err_answer 3)) (\<lambda>_.
      and_then (reply_end alice) (\<lambda>_. reply_end alice))) two_sessions =
        (Return (), [SendAll (Sock 1) p1, SendAll (Sock 9) p2], s') \<and>
    verify_packet toy_crypto p1 (Some alice_key) 2 = Inr (Inr [7], None) \<and>
    verify_packet toy_crypto p2 (Some alice_key) 2 = Inr (Inr (err_answer 3), None)"
proof -
  have c: "rc_rx_nonce (two_clients alice) = 2" "rc_cipher (two_clients alice) = Some alice_key"
    by (simp_all add: two_clients_def client_at_def keyed_client_def)
  have d: "sendable [7]" "sendable (err_answer 3)" "client_accepts [7]"
    by (simp_all add: sendable_def err_answer_def client_accepts_def ERR_PREFIX_def)
  have "rc_rx_nonce (two_clients alice) + 2 < 2 ^ 96" by (simp add: c)
  from overlapping_replies_share_nonce [OF toy_aead_ok toy_zstd_ok toy_nonce_bound sample_in_sync(1) this d(1,2,1,3),
      of "Sock 1" "Sock 9", unfolded c]
  show ?thesis by blast
qed

end
