(* ===== verification/Await.thy ===== *)
theory Await
  imports Race
begin

text \<open>
  Requests that overlap. A handler is suspended while \<open>sock_sendall\<close> waits, and other handlers run
  meanwhile. Here each operation of \<^verbatim>\<open>Server.handle_client\<close> is cut at that wait: \<open>begin_...\<close> is the
  operation up to it, with the locks it still holds as its result, and \<open>finish\<close> is the rest.
  Every operation sends exactly one packet and changes nothing but its counter after it, so there
  are no other pieces. The waits for a lock or for an item of the inbox are the outcome \<open>Block\<close>: the
  operation has not started and is tried again.
\<close>

section \<open>Operations up to the wait\<close>

text \<open>What a suspended handler holds: nothing, the database lock, or its session's outbox lock.\<close>

datatype hold = NoLock | DbLock | OutboxLock

datatype started = Suspended hold | Ended ctl

definition begin_reply :: "crypto \<Rightarrow> sock \<Rightarrow> pystr \<Rightarrow> hold \<Rightarrow> bytes \<Rightarrow> started action" where
  "begin_reply cr sock u hold data = and_then (reply_begin cr sock u data) (\<lambda>_. ret (Suspended hold))"

definition begin_error :: "crypto \<Rightarrow> sock \<Rightarrow> pystr \<Rightarrow> hold \<Rightarrow> nat \<Rightarrow> started action" where
  "begin_error cr sock u hold n = and_then (lift (ERR_DISPATCH n)) (begin_reply cr sock u hold)"

text \<open>\<open>async with self.db_lock\<close>: an exception releases the lock, a wait inside keeps it.\<close>

definition holding_db :: "started action \<Rightarrow> started action" where
  "holding_db m = and_then acquire_db (\<lambda>_ s. case m s of
       (Return (Suspended hold), es, s') \<Rightarrow> (Return (Suspended hold), es, s')
     | (r, es, s') \<Rightarrow> (r, es, s'\<lparr>sv_db_locked := False\<rparr>))"

definition begin_set :: "crypto \<Rightarrow> sock \<Rightarrow> pystr \<Rightarrow> bytes \<Rightarrow> started action" where
  "begin_set cr sock u value =
     holding_db (and_then (lift (unpack_Is 2 (take 8 value))) (\<lambda>lens.
       let key_length = lens ! 0; value_length = lens ! 1; offset = 8;
           key = slice value offset (offset + key_length);
           offset = offset + key_length;
           v = slice value offset (offset + value_length)
       in and_then (modify (\<lambda>s. s\<lparr>sv_db := dict_setitem (sv_db s) key v\<rparr>)) (\<lambda>_.
            begin_reply cr sock u DbLock ACK)))"

definition begin_get :: "crypto \<Rightarrow> sock \<Rightarrow> pystr \<Rightarrow> bytes \<Rightarrow> started action" where
  "begin_get cr sock u command =
     holding_db (and_then (gets sv_db) (\<lambda>db.
       if dict_contains db command
       then and_then (lift (dict_getitem db command)) (begin_reply cr sock u DbLock)
       else begin_error cr sock u DbLock 5))"

definition begin_delete :: "crypto \<Rightarrow> sock \<Rightarrow> pystr \<Rightarrow> bytes \<Rightarrow> started action" where
  "begin_delete cr sock u command =
     holding_db (and_then (gets sv_db) (\<lambda>db.
       if dict_contains db command
       then and_then (lift (dict_delitem db command)) (\<lambda>db'.
              and_then (modify (\<lambda>s. s\<lparr>sv_db := db'\<rparr>)) (\<lambda>_. begin_reply cr sock u DbLock ACK))
       else begin_error cr sock u DbLock 5))"

definition begin_list :: "crypto \<Rightarrow> sock \<Rightarrow> pystr \<Rightarrow> started action" where
  "begin_list cr sock u =
     holding_db (and_then (gets sv_db) (\<lambda>db.
       and_then (lift (encode_latin1 (json_dumps (db_listing db)))) (begin_reply cr sock u DbLock)))"

definition begin_register :: "crypto \<Rightarrow> sock \<Rightarrow> pystr \<Rightarrow> bytes \<Rightarrow> started action" where
  "begin_register cr sock u value =
     (let key = decode_latin1 value in
      and_then (gets (\<lambda>s. dict_contains (sv_address_book s) key)) (\<lambda>known.
        if known then begin_error cr sock u NoLock 5
        else and_then (get_session u) (\<lambda>c.
             and_then (put_session u (c\<lparr>cl_addresses_owned := cl_addresses_owned c @ [key]\<rparr>)) (\<lambda>_.
             and_then (set_book key u) (\<lambda>_. begin_reply cr sock u NoLock ACK)))))"

definition begin_unregister :: "crypto \<Rightarrow> sock \<Rightarrow> pystr \<Rightarrow> bytes \<Rightarrow> started action" where
  "begin_unregister cr sock u value =
     (let key = decode_latin1 value in
      and_then (get_session u) (\<lambda>c.
        if key \<notin> set (cl_addresses_owned c) then begin_error cr sock u NoLock 5
        else and_then (put_session u (c\<lparr>cl_addresses_owned := remove1 key (cl_addresses_owned c)\<rparr>)) (\<lambda>_.
             and_then (del_book key) (\<lambda>_. begin_reply cr sock u NoLock ACK))))"

definition begin_whoami :: "crypto \<Rightarrow> sock \<Rightarrow> pystr \<Rightarrow> started action" where
  "begin_whoami cr sock u = and_then (lift (encode_latin1 u)) (begin_reply cr sock u NoLock)"

definition begin_whohas :: "crypto \<Rightarrow> sock \<Rightarrow> pystr \<Rightarrow> bytes \<Rightarrow> started action" where
  "begin_whohas cr sock u command =
     and_then (gets sv_address_book) (\<lambda>b.
       if dict_contains b (decode_latin1 command)
       then and_then (lift (dict_getitem b (decode_latin1 command))) (\<lambda>owner.
            and_then (lift (encode_latin1 owner)) (begin_reply cr sock u NoLock))
       else begin_error cr sock u NoLock 5)"

definition begin_put_inbox :: "crypto \<Rightarrow> bytes \<Rightarrow> sock \<Rightarrow> pystr \<Rightarrow> bytes \<Rightarrow> started action" where
  "begin_put_inbox cr rnd sock u value =
     and_then (lift (unpack_Is 3 (take 12 value))) (\<lambda>lens.
       let target_length = lens ! 0; req_length = lens ! 1; key_length = lens ! 2;
           offset = 12;
           target = slice value offset (offset + target_length);
           offset = offset + target_length;
           request = slice value offset (offset + req_length);
           offset = offset + req_length;
           key = slice value offset (offset + key_length);
           operation_id = uuid4_bytes rnd;
           t = decode_latin1 target
       in and_then (get_session t) (\<lambda>tc.
          and_then (lift (encode_latin1 u)) (\<lambda>return_uuid.
          and_then (put_session t (tc\<lparr>cl_inbox := cl_inbox tc @
             [\<lparr>rq_return_uuid = return_uuid, rq_key = key, rq_request = request,
               rq_request_uuid = operation_id\<rparr>]\<rparr>)) (\<lambda>_.
          begin_reply cr sock u NoLock operation_id))))"

definition begin_get_inbox :: "crypto \<Rightarrow> sock \<Rightarrow> pystr \<Rightarrow> started action" where
  "begin_get_inbox cr sock u =
     and_then (get_session u) (\<lambda>c.
       case cl_inbox c of [] \<Rightarrow> block
       | r # inbox' \<Rightarrow>
           and_then (put_session u (c\<lparr>cl_inbox := inbox'\<rparr>)) (\<lambda>_.
           and_then (lift (pack_Is [length (rq_return_uuid r), length (rq_request r),
                                    length (rq_key r), length (rq_request_uuid r)])) (\<lambda>lens.
           begin_reply cr sock u NoLock
             (lens @ rq_return_uuid r @ rq_request r @ rq_key r @ rq_request_uuid r))))"

text \<open>RESPOND writes to the target's outbox under its lock: it waits while the target's own READ
  OUTBOX is being sent (the target is in \<open>locked\<close>), and has released the lock before it sends.\<close>

definition begin_put_outbox :: "crypto \<Rightarrow> pystr set \<Rightarrow> sock \<Rightarrow> pystr \<Rightarrow> bytes \<Rightarrow> started action" where
  "begin_put_outbox cr locked sock u value =
     and_then (lift (unpack_Is 4 (take 16 value))) (\<lambda>lens.
       let target_length = lens ! 0; res_length = lens ! 1; key_length = lens ! 2;
           req_uuid_length = lens ! 3; offset = 16;
           target = slice value offset (offset + target_length);
           offset = offset + target_length;
           res = slice value offset (offset + res_length);
           offset = offset + res_length;
           key = slice value offset (offset + key_length);
           offset = offset + key_length;
           req_uuid = slice value offset (offset + req_uuid_length);
           t = decode_latin1 target
       in and_then (get_session t) (\<lambda>tc.
          if t \<in> locked then block
          else and_then (put_session t (tc\<lparr>cl_outbox := dict_setitem (cl_outbox tc) req_uuid
             \<lparr>rs_key = key, rs_response = res, rs_response_uuid = req_uuid\<rparr>\<rparr>)) (\<lambda>_.
          begin_reply cr sock u NoLock ACK)))"

text \<open>READ OUTBOX sends under the lock.\<close>

definition begin_get_outbox :: "crypto \<Rightarrow> sock \<Rightarrow> pystr \<Rightarrow> bytes \<Rightarrow> started action" where
  "begin_get_outbox cr sock u req_uuid =
     and_then (get_session u) (\<lambda>c.
       if \<not> dict_contains (cl_outbox c) req_uuid then begin_error cr sock u OutboxLock 7
       else and_then (lift (dict_getitem (cl_outbox c) req_uuid)) (\<lambda>response.
            and_then (put_session u (c\<lparr>cl_outbox := AList.delete req_uuid (cl_outbox c)\<rparr>)) (\<lambda>_.
            and_then (lift (pack_Is [length (rs_key response), length (rs_response response)])) (\<lambda>lens.
            begin_reply cr sock u OutboxLock (lens @ rs_key response @ rs_response response)))))"

definition begin_server_request :: "crypto \<Rightarrow> sock \<Rightarrow> pystr \<Rightarrow> byte \<Rightarrow> bytes \<Rightarrow> started action" where
  "begin_server_request cr sock u opcode value =
     (if opcode = 1 then begin_set cr sock u value
      else if opcode = 2 then begin_get cr sock u value
      else if opcode = 3 then begin_delete cr sock u value
      else if opcode = 4 then begin_list cr sock u
      else if opcode = 5 then begin_register cr sock u value
      else if opcode = 6 then begin_unregister cr sock u value
      else if opcode = 7 then begin_whoami cr sock u
      else if opcode = 8 then ret (Ended (Stop True))
      else begin_error cr sock u NoLock 4)"

definition begin_client_request ::
  "crypto \<Rightarrow> bytes \<Rightarrow> pystr set \<Rightarrow> sock \<Rightarrow> pystr \<Rightarrow> byte \<Rightarrow> bytes \<Rightarrow> started action" where
  "begin_client_request cr rnd locked sock u opcode value =
     (if opcode = 1 then begin_whohas cr sock u value
      else if opcode = 2 then begin_put_inbox cr rnd sock u value
      else if opcode = 3 then begin_get_inbox cr sock u
      else if opcode = 4 then begin_put_outbox cr locked sock u value
      else if opcode = 5 then begin_get_outbox cr sock u value
      else begin_error cr sock u NoLock 4)"

definition begin_request ::
  "crypto \<Rightarrow> bytes \<Rightarrow> pystr set \<Rightarrow> sock \<Rightarrow> pystr \<Rightarrow> bytes \<Rightarrow> started action" where
  "begin_request cr rnd locked sock u data =
     (case data of [] \<Rightarrow> throw IndexError
      | ty # value \<Rightarrow>
          if ty AND 0x80 \<noteq> 0 then begin_server_request cr sock u (ty AND 0xF) value
          else begin_client_request cr rnd locked sock u (ty AND 0xF) value)"

section \<open>After the wait\<close>

text \<open>\<open>finish\<close>: the counter moves and the lock is released (on an exception too). \<open>abandon\<close>:
  \<open>sock_sendall\<close> raises, because the connection is gone; the lock is released and the exception
  leaves the handler.\<close>

definition release :: "hold \<Rightarrow> server \<Rightarrow> server" where
  "release hold s = (if hold = DbLock then s\<lparr>sv_db_locked := False\<rparr> else s)"

definition finish :: "hold \<Rightarrow> pystr \<Rightarrow> unit action" where
  "finish hold u s = (case reply_end u s of (r, es, s') \<Rightarrow> (r, es, release hold s'))"

definition abandon :: "hold \<Rightarrow> unit action" where
  "abandon hold s = (Raise OSError, [], release hold s)"

section \<open>Interleaved handlers\<close>

text \<open>One handler per session. The second component of the state tells which handlers are
  suspended and what they hold. A step starts a request of a handler that is not suspended, or
  resumes one that is; \<open>None\<close> when the handler cannot take the step now. After a handler has ended
  its session may begin again, as it does with the handler of a new login.\<close>

type_synonym suspended = "pystr \<rightharpoonup> hold"

datatype handler_event = Begin bytes sock pystr bytes | Finish pystr | Abandon pystr

definition outbox_locked :: "suspended \<Rightarrow> pystr set" where
  "outbox_locked P = {u. P u = Some OutboxLock}"

fun handler_step ::
  "crypto \<Rightarrow> handler_event \<Rightarrow> server \<times> suspended \<Rightarrow> (effect list \<times> server \<times> suspended) option" where
  "handler_step cr (Begin rnd sock u data) (s, P) =
     (if P u \<noteq> None then None
      else case begin_request cr rnd (outbox_locked P) sock u data s of
        (Return (Suspended hold), es, s') \<Rightarrow> Some (es, s', P(u \<mapsto> hold))
      | (Return (Ended c), es, s') \<Rightarrow> Some (es, s', P)
      | (Raise e, es, s') \<Rightarrow> Some (es, s', P)
      | (Block, es, s') \<Rightarrow> None)"
| "handler_step cr (Finish u) (s, P) =
     (case P u of None \<Rightarrow> None
      | Some hold \<Rightarrow> (case finish hold u s of (r, es, s') \<Rightarrow> Some (es, s', P(u := None))))"
| "handler_step cr (Abandon u) (s, P) =
     (case P u of None \<Rightarrow> None
      | Some hold \<Rightarrow> (case abandon hold s of (r, es, s') \<Rightarrow> Some (es, s', P(u := None))))"

fun handler_run ::
  "crypto \<Rightarrow> handler_event list \<Rightarrow> server \<times> suspended \<Rightarrow> (effect list \<times> server \<times> suspended) option" where
  "handler_run cr [] (s, P) = Some ([], s, P)"
| "handler_run cr (ev # evs) (s, P) =
     (case handler_step cr ev (s, P) of None \<Rightarrow> None
      | Some (es, s', P') \<Rightarrow>
          (case handler_run cr evs (s', P') of None \<Rightarrow> None
           | Some (es', s'', P'') \<Rightarrow> Some (es @ es', s'', P'')))"

text \<open>The same requests, each handled without a break, in the order in which they began.\<close>

fun atomic_run :: "crypto \<Rightarrow> handler_event list \<Rightarrow> server \<Rightarrow> effect list \<times> server" where
  "atomic_run cr [] s = ([], s)"
| "atomic_run cr (Begin rnd sock u data # evs) s =
     (case dispatch cr rnd sock u data s of (r, es, s') \<Rightarrow>
        (case atomic_run cr evs s' of (es', s'') \<Rightarrow> (es @ es', s'')))"
| "atomic_run cr (_ # evs) s = atomic_run cr evs s"

end
