(* ===== verification/AwaitProofs.thy ===== *)
theory AwaitProofs
  imports Await
begin

text \<open>
  Overlapping requests of different sessions have the effect of the same requests handled one
  after the other. The link is \<open>settle\<close>, the state in which every suspended handler has been
  resumed: starting a request is one atomic request of the settled state (\<open>simulates\<close>), and
  resuming a handler does not change it. The second part is about the database lock.
\<close>

named_theorems mirror_intros \<open>an operation up to its wait and the whole operation\<close>

section \<open>Settled states\<close>

definition bump :: "suspended \<Rightarrow> pystr \<Rightarrow> client \<Rightarrow> client" where
  "bump P u c = (if P u = None then c else c\<lparr>cl_tx_nonce := cl_tx_nonce c + 1\<rparr>)"

definition settled :: "suspended \<Rightarrow> (pystr, client) dict \<Rightarrow> (pystr, client) dict" where
  "settled P cdb = map (\<lambda>(u, c). (u, bump P u c)) cdb"

definition settle_at :: "suspended \<Rightarrow> bool \<Rightarrow> server \<Rightarrow> server" where
  "settle_at P l s = s\<lparr>sv_db_locked := l, sv_client_db := settled P (sv_client_db s)\<rparr>"

definition settle :: "suspended \<Rightarrow> server \<Rightarrow> server" where
  "settle P s = settle_at P (sv_db_locked s \<and> DbLock \<notin> ran P) s"

lemma bump_simps [simp]:
  "P u = None \<Longrightarrow> bump P u c = c"
  "cl_addresses_owned (bump P u c) = cl_addresses_owned c" "cl_inbox (bump P u c) = cl_inbox c"
  "cl_outbox (bump P u c) = cl_outbox c"
  "bump P u (c\<lparr>cl_inbox := q\<rparr>) = (bump P u c)\<lparr>cl_inbox := q\<rparr>"
  "bump P u (c\<lparr>cl_outbox := q'\<rparr>) = (bump P u c)\<lparr>cl_outbox := q'\<rparr>"
  by (simp_all add: bump_def)

lemma map_of_settled: "map_of (settled P cdb) u = map_option (bump P u) (map_of cdb u)"
  by (induction cdb) (auto simp: settled_def)

lemma settled_setitem: "settled P (dict_setitem cdb u c) = dict_setitem (settled P cdb) u (bump P u c)"
  unfolding settled_def dict_setitem_def by (induction cdb) auto

lemma settled_cong: "(\<And>v. v \<in> fst ` set cdb \<Longrightarrow> (P v = None) = (Q v = None)) \<Longrightarrow> settled P cdb = settled Q cdb"
  by (force simp: settled_def bump_def)

lemma settled_suspend:
  "dict_ok cdb \<Longrightarrow> map_of cdb u = Some c \<Longrightarrow> P u = None \<Longrightarrow>
   settled (P(u \<mapsto> h)) cdb = dict_setitem (settled P cdb) u (c\<lparr>cl_tx_nonce := cl_tx_nonce c + 1\<rparr>)"
proof (induction cdb)
  case (Cons p cdb)
  show ?case
  proof (cases "fst p = u")
    case True
    then have "u \<notin> fst ` set cdb" using Cons.prems(1) by (simp add: dict_ok_def)
    then have "settled (P(u \<mapsto> h)) cdb = settled P cdb"
      by (intro settled_cong) (metis fun_upd_other)
    then show ?thesis using True Cons.prems by (cases p) (auto simp: settled_def bump_def dict_setitem_def)
  next
    case False
    then show ?thesis using Cons by (cases p) (auto simp: settled_def bump_def dict_setitem_def dict_ok_def)
  qed
qed simp

lemma settled_resume:
  assumes "dict_ok cdb" "map_of cdb u = Some c" "P u = Some h"
  shows "settled (P(u := None)) (dict_setitem cdb u (c\<lparr>cl_tx_nonce := cl_tx_nonce c + 1\<rparr>)) = settled P cdb"
proof -
  have "settled P cdb = settled ((P(u := None))(u \<mapsto> h)) cdb" using assms(3) by (simp add: fun_upd_idem)
  also have "\<dots> = dict_setitem (settled (P(u := None)) cdb) u (c\<lparr>cl_tx_nonce := cl_tx_nonce c + 1\<rparr>)"
    using assms by (intro settled_suspend) simp_all
  finally show ?thesis by (simp add: settled_setitem)
qed

lemma settled_none [simp]: "settled Map.empty cdb = cdb"
  by (induction cdb) (auto simp: settled_def)

lemma settle_none [simp]: "settle Map.empty s = s"
  by (simp add: settle_def settle_at_def)

lemma settle_at_fields [simp]:
  "sv_db (settle_at P l s) = sv_db s" "sv_address_book (settle_at P l s) = sv_address_book s"
  "sv_client_db (settle_at P l s) = settled P (sv_client_db s)" "sv_db_locked (settle_at P l s) = l"
  by (simp_all add: settle_at_def)

section \<open>An operation and its first piece\<close>

text \<open>The sessions of suspended handlers exist.\<close>

definition waiting_ok :: "suspended \<Rightarrow> server \<Rightarrow> bool" where
  "waiting_ok P s \<longleftrightarrow> dict_ok (sv_client_db s) \<and> (\<forall>u. P u \<noteq> None \<longrightarrow> map_of (sv_client_db s) u \<noteq> None)"

definition mirrored ::
  "hold \<Rightarrow> suspended \<Rightarrow> bool \<Rightarrow> pystr \<Rightarrow> bool \<Rightarrow> started outcome \<times> effect list \<times> server \<Rightarrow>
     ctl outcome \<times> effect list \<times> server \<Rightarrow> bool" where
  "mirrored h P l u locked x y = (case x of (r, es, s1) \<Rightarrow>
     (case r of
        Return (Suspended h') \<Rightarrow> h' = h \<and> y = (Return Next, es, settle_at (P(u \<mapsto> h)) l s1) \<and>
          map_of (sv_client_db s1) u \<noteq> None
      | Return (Ended c) \<Rightarrow> y = (Return c, es, settle_at P l s1)
      | Raise e \<Rightarrow> y = (Raise e, es, settle_at P l s1)
      | Block \<Rightarrow> True) \<and>
     (r \<noteq> Block \<longrightarrow> waiting_ok P s1 \<and> sv_db_locked s1 = locked))"

definition mirrors :: "hold \<Rightarrow> suspended \<Rightarrow> pystr \<Rightarrow> started action \<Rightarrow> ctl action \<Rightarrow> bool" where
  "mirrors h P u mb ma \<longleftrightarrow>
     (\<forall>s l. waiting_ok P s \<longrightarrow> mirrored h P l u (sv_db_locked s) (mb s) (ma (settle_at P l s)))"

lemma mirrored_effect: "mirrored h P l u locked (r, es, s') (r', es', s'') \<Longrightarrow>
   mirrored h P l u locked (r, e # es, s') (r', e # es', s'')"
  by (auto simp: mirrored_def split: outcome.splits started.splits)

lemma mirrors_throw [mirror_intros]: "mirrors h P u (throw e) (throw e)"
  by (simp add: mirrors_def mirrored_def act_simps)

lemma mirrors_block [mirror_intros]: "mirrors h P u block m"
  by (simp add: mirrors_def mirrored_def act_simps)

lemma mirrors_stop [mirror_intros]: "mirrors h P u (ret (Ended c)) (ret c)"
  by (simp add: mirrors_def mirrored_def act_simps)

lemma mirrors_lift [mirror_intros]:
  "(\<And>x. mirrors h P u (k x) (k' x)) \<Longrightarrow> mirrors h P u (and_then (lift r) k) (and_then (lift r) k')"
  by (cases r) (simp_all add: act_simps mirrors_throw)

lemma mirrors_gets [mirror_intros]:
  "(\<And>s l. f (settle_at P l s) = f s) \<Longrightarrow> (\<And>x. mirrors h P u (k x) (k' x)) \<Longrightarrow>
   mirrors h P u (and_then (gets f) k) (and_then (gets f) k')"
  by (simp add: mirrors_def act_simps)

lemma mirrors_modify [mirror_intros]:
  assumes "\<And>s l. g (settle_at P l s) = settle_at P l (g s)" "\<And>s. sv_client_db (g s) = sv_client_db s"
    and "\<And>s. sv_db_locked (g s) = sv_db_locked s" "mirrors h P u (k ()) (k' ())"
  shows "mirrors h P u (and_then (modify g) k) (and_then (modify g) k')"
  unfolding mirrors_def
proof (intro allI impI)
  fix s l assume "waiting_ok P s"
  then have "waiting_ok P (g s)" by (simp add: waiting_ok_def assms(2))
  from assms(4) [unfolded mirrors_def, rule_format, OF this, of l]
  have "mirrored h P l u (sv_db_locked s) (k () (g s)) (k' () (settle_at P l (g s)))"
    by (simp only: assms(3))
  then show "mirrored h P l u (sv_db_locked s) (and_then (modify g) k s) (and_then (modify g) k' (settle_at P l s))"
    by (simp add: act_simps assms(1))
qed

lemma mirrors_get [mirror_intros]:
  assumes "\<And>c. mirrors h P u (k c) (k' (bump P t c))"
  shows "mirrors h P u (and_then (get_session t) k) (and_then (get_session t) k')"
  unfolding mirrors_def
proof (intro allI impI)
  fix s l assume "waiting_ok P s"
  then show "mirrored h P l u (sv_db_locked s) (and_then (get_session t) k s)
      (and_then (get_session t) k' (settle_at P l s))"
    using assms unfolding mirrors_def
    by (cases "map_of (sv_client_db s) t") (simp_all add: act_simps map_of_settled, simp add: mirrored_def)
qed

lemma waiting_ok_put:
  "waiting_ok P s \<Longrightarrow> waiting_ok P (s\<lparr>sv_client_db := dict_setitem (sv_client_db s) t c\<rparr>)"
  by (simp add: waiting_ok_def map_of_setitem)

lemma mirrors_put [mirror_intros]:
  assumes "c' = bump P t c" "mirrors h P u (k ()) (k' ())"
  shows "mirrors h P u (and_then (put_session t c) k) (and_then (put_session t c') k')"
  unfolding mirrors_def
proof (intro allI impI)
  fix s l assume "waiting_ok P s"
  from assms(2) [unfolded mirrors_def, rule_format, OF waiting_ok_put [OF this, of t c], of l]
  have "mirrored h P l u (sv_db_locked s) (k () (s\<lparr>sv_client_db := dict_setitem (sv_client_db s) t c\<rparr>))
      (k' () ((settle_at P l s)\<lparr>sv_client_db := dict_setitem (sv_client_db (settle_at P l s)) t c'\<rparr>))"
    by (simp add: settle_at_def settled_setitem assms(1))
  then show "mirrored h P l u (sv_db_locked s) (and_then (put_session t c) k s)
      (and_then (put_session t c') k' (settle_at P l s))"
    by (simp add: act_simps put_session_def)
qed

lemma mirrors_set_book [mirror_intros]:
  "mirrors h P u (k ()) (k' ()) \<Longrightarrow> mirrors h P u (and_then (set_book key v) k) (and_then (set_book key v) k')"
  unfolding set_book_def by (rule mirrors_modify) (simp_all add: settle_at_def)

lemma mirrors_del_book [mirror_intros]:
  "mirrors h P u (k ()) (k' ()) \<Longrightarrow> mirrors h P u (and_then (del_book key) k) (and_then (del_book key) k')"
  unfolding del_book_def and_then_assoc
  by (intro mirrors_gets mirrors_lift mirrors_modify) (simp_all add: settle_at_def)

lemma mirrors_if [mirror_intros]:
  "(b \<Longrightarrow> mirrors h P u m m') \<Longrightarrow> (\<not> b \<Longrightarrow> mirrors h P u n n') \<Longrightarrow>
   mirrors h P u (if b then m else n) (if b then m' else n')"
  by simp

lemma mirrors_reply [mirror_intros]:
  assumes "P u = None"
  shows "mirrors h P u (begin_reply cr sock u h data) (reply_next cr sock u data)"
  unfolding mirrors_def
proof (intro allI impI)
  fix s l assume ok: "waiting_ok P s"
  show "mirrored h P l u (sv_db_locked s) (begin_reply cr sock u h data s) (reply_next cr sock u data (settle_at P l s))"
  proof (cases "map_of (sv_client_db s) u")
    case None
    then show ?thesis using ok
      by (simp add: begin_reply_def reply_begin_def reply_next_def send_reply_def act_simps map_of_settled mirrored_def)
  next
    case (Some c)
    then have "settle_at (P(u \<mapsto> h)) l s = (settle_at P l s)\<lparr>sv_client_db := dict_setitem
        (settled P (sv_client_db s)) u (c\<lparr>cl_tx_nonce := cl_tx_nonce c + 1\<rparr>)\<rparr>"
      using ok assms by (simp add: settle_at_def settled_suspend waiting_ok_def)
    then show ?thesis using Some ok assms
      by (cases "construct_packet cr data (cl_cipher c) (cl_tx_nonce c) compressor_level")
        (simp_all add: begin_reply_def reply_begin_def reply_next_def send_reply_def act_simps map_of_settled
          mirrored_def)
  qed
qed

lemma mirrors_error [mirror_intros]:
  "P u = None \<Longrightarrow> mirrors h P u (begin_error cr sock u h n) (error_next cr sock u n)"
  unfolding begin_error_def error_next_def by (intro mirror_intros)

text \<open>Each operation of the handler and its first piece; \<open>value\<close> is the request without its first byte.\<close>

lemma mirrors_unlocked:
  assumes "P u = None"
  shows "mirrors NoLock P u (begin_register cr sock u x) (op_register cr sock u x)"
    and "mirrors NoLock P u (begin_unregister cr sock u x) (op_unregister cr sock u x)"
    and "mirrors NoLock P u (begin_whoami cr sock u) (op_whoami cr sock u)"
    and "mirrors NoLock P u (begin_whohas cr sock u x) (op_whohas cr sock u x)"
    and "mirrors NoLock P u (begin_put_inbox cr rnd sock u x) (op_put_inbox cr rnd sock u x)"
    and "mirrors NoLock P u (begin_put_outbox cr locked sock u x) (op_put_outbox cr sock u x)"
  unfolding begin_register_def op_register_def begin_unregister_def op_unregister_def begin_whoami_def
    op_whoami_def begin_whohas_def op_whohas_def begin_put_inbox_def op_put_inbox_def
    begin_put_outbox_def op_put_outbox_def Let_def
  using assms by (auto intro!: mirror_intros)

lemma mirrors_inbox:
  assumes "P u = None"
  shows "mirrors NoLock P u (begin_get_inbox cr sock u) (op_get_inbox cr sock u)"
  unfolding begin_get_inbox_def op_get_inbox_def
proof (rule mirrors_get)
  fix c show "mirrors NoLock P u (case cl_inbox c of [] \<Rightarrow> block | r # inbox' \<Rightarrow>
        and_then (put_session u (c\<lparr>cl_inbox := inbox'\<rparr>)) (\<lambda>_.
        and_then (lift (pack_Is [length (rq_return_uuid r), length (rq_request r),
                                 length (rq_key r), length (rq_request_uuid r)])) (\<lambda>lens.
        begin_reply cr sock u NoLock
          (lens @ rq_return_uuid r @ rq_request r @ rq_key r @ rq_request_uuid r))))
      (case cl_inbox (bump P u c) of [] \<Rightarrow> block | r # inbox' \<Rightarrow>
        and_then (put_session u ((bump P u c)\<lparr>cl_inbox := inbox'\<rparr>)) (\<lambda>_.
        and_then (lift (pack_Is [length (rq_return_uuid r), length (rq_request r),
                                 length (rq_key r), length (rq_request_uuid r)])) (\<lambda>lens.
        reply_next cr sock u
          (lens @ rq_return_uuid r @ rq_request r @ rq_key r @ rq_request_uuid r))))"
    using assms by (cases "cl_inbox c") (auto intro!: mirror_intros)
qed

lemma mirrors_outbox:
  assumes "P u = None"
  shows "mirrors OutboxLock P u (begin_get_outbox cr sock u x) (op_get_outbox cr sock u x)"
  unfolding begin_get_outbox_def op_get_outbox_def using assms by (auto intro!: mirror_intros)

section \<open>Simulation\<close>

text \<open>The handlers that hold the database lock: one at most, and then it is taken.\<close>

definition suspended_ok :: "suspended \<Rightarrow> server \<Rightarrow> bool" where
  "suspended_ok P s \<longleftrightarrow> waiting_ok P s \<and> (\<forall>u. P u = Some DbLock \<longrightarrow> sv_db_locked s) \<and>
     (\<forall>u v. P u = Some DbLock \<longrightarrow> P v = Some DbLock \<longrightarrow> u = v)"

text \<open>A start is the whole request in the settled state, and keeps the lock's bookkeeping.\<close>

definition simulated ::
  "suspended \<Rightarrow> pystr \<Rightarrow> bool \<Rightarrow> started outcome \<times> effect list \<times> server \<Rightarrow>
     ctl outcome \<times> effect list \<times> server \<Rightarrow> bool" where
  "simulated P u locked x y = (case x of
       (Return (Suspended h), es, s1) \<Rightarrow>
         y = (Return Next, es, settle (P(u \<mapsto> h)) s1) \<and> suspended_ok (P(u \<mapsto> h)) s1 \<and>
         sv_db_locked s1 = (locked \<or> h = DbLock)
     | (Return (Ended c), es, s1) \<Rightarrow> y = (Return c, es, settle P s1) \<and> suspended_ok P s1 \<and> sv_db_locked s1 = locked
     | (Raise e, es, s1) \<Rightarrow> y = (Raise e, es, settle P s1) \<and> suspended_ok P s1 \<and> sv_db_locked s1 = locked
     | (Block, es, s1) \<Rightarrow> True)"

definition simulates :: "suspended \<Rightarrow> pystr \<Rightarrow> started action \<Rightarrow> ctl action \<Rightarrow> bool" where
  "simulates P u mb ma \<longleftrightarrow>
     (\<forall>s. suspended_ok P s \<longrightarrow> simulated P u (sv_db_locked s) (mb s) (ma (settle P s)))"

lemma waiting_ok_suspend: "waiting_ok P s \<Longrightarrow> map_of (sv_client_db s) u \<noteq> None \<Longrightarrow> waiting_ok (P(u \<mapsto> h)) s"
  by (simp add: waiting_ok_def)

lemma waiting_ok_lock [simp]: "waiting_ok P (s\<lparr>sv_db_locked := l\<rparr>) = waiting_ok P s"
  by (simp add: waiting_ok_def)

lemma settle_at_lock [simp]: "settle_at P l (s\<lparr>sv_db_locked := k\<rparr>) = settle_at P l s"
  "(settle_at P l s)\<lparr>sv_db_locked := k\<rparr> = settle_at P k s"
  by (simp_all add: settle_at_def)

lemma in_ran: "h \<in> ran P \<longleftrightarrow> (\<exists>u. P u = Some h)"
  by (auto simp: ran_def)

lemma simulates_unlocked:
  assumes "mirrors h P u mb ma" "h \<noteq> DbLock" "P u = None"
  shows "simulates P u mb ma"
  unfolding simulates_def
proof (intro allI impI)
  fix s assume ok: "suspended_ok P s"
  then have "mirrored h P (sv_db_locked s \<and> DbLock \<notin> ran P) u (sv_db_locked s) (mb s) (ma (settle P s))"
    using assms(1) by (simp add: mirrors_def settle_def suspended_ok_def)
  with ok assms(2,3) show "simulated P u (sv_db_locked s) (mb s) (ma (settle P s))"
    by (auto simp: simulated_def mirrored_def settle_def suspended_ok_def waiting_ok_suspend
        split: outcome.splits started.splits)
qed

lemma holding_db_eval:
  "holding_db m s = (if sv_db_locked s then (Block, [], s) else case m (s\<lparr>sv_db_locked := True\<rparr>) of
       (Return (Suspended hold), es, s') \<Rightarrow> (Return (Suspended hold), es, s')
     | (r, es, s') \<Rightarrow> (r, es, s'\<lparr>sv_db_locked := False\<rparr>))"
  by (auto simp: holding_db_def and_then_def acquire_db_def split: prod.splits outcome.splits started.splits)

lemma simulates_locked:
  assumes "mirrors DbLock P u mb ma" "P u = None"
  shows "simulates P u (holding_db mb) (with_db_lock ma)"
  unfolding simulates_def
proof (intro allI impI)
  fix s assume ok: "suspended_ok P s"
  show "simulated P u (sv_db_locked s) (holding_db mb s) (with_db_lock ma (settle P s))"
  proof (cases "sv_db_locked s")
    case True
    then show ?thesis by (simp add: simulated_def holding_db_eval)
  next
    case False
    let ?s = "s\<lparr>sv_db_locked := True\<rparr>"
    obtain r es s1 where m: "mb ?s = (r, es, s1)" by (cases "mb ?s")
    have no: "DbLock \<notin> ran P" "\<And>v. P v \<noteq> Some DbLock" using ok False by (auto simp: in_ran suspended_ok_def)
    have "mirrored DbLock P True u True (mb ?s) (ma (settle_at P True s))"
      using assms(1) [unfolded mirrors_def, rule_format, of ?s True] ok by (simp add: suspended_ok_def)
    then show ?thesis
      using m no False assms(2)
      by (auto simp: simulated_def mirrored_def settle_def suspended_ok_def waiting_ok_suspend
          holding_db_eval with_db_lock_free
        split: outcome.splits started.splits)
  qed
qed

lemma simulates_db_ops:
  assumes "P u = None"
  shows "simulates P u (begin_set cr sock u x) (op_set cr sock u x)"
    and "simulates P u (begin_get cr sock u x) (op_get cr sock u x)"
    and "simulates P u (begin_delete cr sock u x) (op_delete cr sock u x)"
    and "simulates P u (begin_list cr sock u) (op_list cr sock u)"
  unfolding begin_set_def op_set_def begin_get_def op_get_def begin_delete_def op_delete_def
    begin_list_def op_list_def Let_def
  using assms by (auto intro!: simulates_locked mirror_intros simp: settle_at_def)

lemma simulates_request:
  assumes "P u = None"
  shows "simulates P u (begin_request cr rnd locked sock u data) (dispatch cr rnd sock u data)"
proof -
  have plain: "mirrors NoLock P u mb ma \<Longrightarrow> simulates P u mb ma"
    "mirrors OutboxLock P u mb ma \<Longrightarrow> simulates P u mb ma" for mb ma
    using simulates_unlocked assms by blast+
  note ops = simulates_db_ops [where P = P and u = u, OF assms] mirrors_unlocked [where P = P and u = u, OF assms]
    mirrors_inbox [where P = P and u = u, OF assms] mirrors_outbox [where P = P and u = u, OF assms]
    mirrors_error [where P = P and u = u, OF assms] mirrors_stop [where P = P and u = u]
  have "simulates P u (begin_server_request cr sock u opcode x) (server_request cr sock u opcode x)"
    "simulates P u (begin_client_request cr rnd locked sock u opcode x) (client_request cr rnd sock u opcode x)"
    for opcode x
    unfolding begin_server_request_def server_request_def begin_client_request_def client_request_def
    by (auto intro: ops plain)
  then show ?thesis
    using plain(1) [OF mirrors_throw] by (cases data) (simp_all add: begin_request_def dispatch_def)
qed

lemma lock_holder_resumed:
  assumes "suspended_ok P s" "P u = Some h"
  shows "DbLock \<in> ran (P(u := None)) \<longleftrightarrow> h \<noteq> DbLock \<and> DbLock \<in> ran P"
proof -
  have one: "P v = Some DbLock \<Longrightarrow> h = DbLock \<Longrightarrow> v = u" for v
    using assms by (simp add: suspended_ok_def)
  have other: "P v = Some DbLock \<Longrightarrow> h \<noteq> DbLock \<Longrightarrow> v \<noteq> u" for v
    using assms(2) by auto
  show ?thesis unfolding in_ran fun_upd_apply using one other by (metis option.distinct(1))
qed

lemma suspended_ok_resumed:
  assumes "suspended_ok P s" "P u = Some h" "waiting_ok P s'" "sv_db_locked s' = (sv_db_locked s \<and> h \<noteq> DbLock)"
  shows "suspended_ok (P(u := None)) s'"
  using assms by (auto simp: suspended_ok_def waiting_ok_def)

text \<open>Resuming a suspended handler changes nothing in the settled state.\<close>

lemma finish_settles:
  assumes "suspended_ok P s" "P u = Some h" "finish h u s = (r, es, s')"
  shows "settle (P(u := None)) s' = settle P s \<and> suspended_ok (P(u := None)) s' \<and> es = [] \<and>
    sv_db_locked s' = (sv_db_locked s \<and> h \<noteq> DbLock)"
proof -
  obtain c where c: "map_of (sv_client_db s) u = Some c"
    using assms(1,2) by (auto simp: suspended_ok_def waiting_ok_def)
  let ?d = "dict_setitem (sv_client_db s) u (c\<lparr>cl_tx_nonce := cl_tx_nonce c + 1\<rparr>)"
  have s': "s' = release h (s\<lparr>sv_client_db := ?d\<rparr>)" "es = []"
    using assms(3) c by (auto simp: finish_def reply_end_def act_simps)
  have d: "settled (P(u := None)) ?d = settled P (sv_client_db s)" "dict_ok (sv_client_db s)"
    using settled_resume [where P = P and u = u, OF _ c assms(2)] assms(1) by (simp_all add: suspended_ok_def waiting_ok_def)
  have l: "sv_db_locked s' = (sv_db_locked s \<and> h \<noteq> DbLock)" by (simp add: s' release_def)
  have "sv_client_db s' = ?d" by (simp add: s' release_def)
  moreover have "DbLock \<in> ran (P(u := None)) \<longleftrightarrow> h \<noteq> DbLock \<and> DbLock \<in> ran P"
    by (rule lock_holder_resumed [OF assms(1,2)])
  then have "(sv_db_locked s' \<and> DbLock \<notin> ran (P(u := None))) = (sv_db_locked s \<and> DbLock \<notin> ran P)"
    using assms(2) l by (auto simp: in_ran)
  ultimately have "settle (P(u := None)) s' = settle P s"
    using d by (simp add: settle_def settle_at_def s' release_def)
  moreover have "suspended_ok (P(u := None)) s'"
    using assms(1,2) \<open>sv_client_db s' = ?d\<close> l d(2)
    by (auto simp: suspended_ok_def waiting_ok_def map_of_setitem)
  ultimately show ?thesis using l s'(2) by blast
qed

section \<open>Runs\<close>

fun is_abandon :: "handler_event \<Rightarrow> bool" where
  "is_abandon (Abandon u) = True"
| "is_abandon _ = False"

lemma step_simulates:
  assumes "suspended_ok P s" "handler_step cr ev (s, P) = Some (es, s', P')" "\<not> is_abandon ev"
  shows "atomic_run cr [ev] (settle P s) = (es, settle P' s') \<and> suspended_ok P' s'"
proof (cases ev)
  case (Begin rnd sock u data)
  then have u: "P u = None" using assms(2) by (auto split: if_splits)
  have "simulated P u (sv_db_locked s) (begin_request cr rnd (outbox_locked P) sock u data s)
      (dispatch cr rnd sock u data (settle P s))"
    using simulates_request [where P = P and u = u, OF u] assms(1) by (simp add: simulates_def)
  then show ?thesis
    using assms(2) u Begin by (auto simp: simulated_def split: prod.splits outcome.splits started.splits)
next
  case (Finish u)
  then obtain h r where "P u = Some h" "finish h u s = (r, es, s')" "P' = P(u := None)"
    using assms(2) by (auto split: option.splits prod.splits)
  moreover from this have "settle P' s' = settle P s \<and> suspended_ok P' s' \<and> es = []"
    using finish_settles [where P = P and u = u, OF assms(1)] by simp
  ultimately show ?thesis by (simp add: Finish)
qed (use assms(3) in simp)

lemma handler_run_Cons:
  "handler_run cr (ev # evs) (s, P) = Some (es, s', P') \<longleftrightarrow>
   (\<exists>es1 s1 P1 es2. handler_step cr ev (s, P) = Some (es1, s1, P1) \<and>
      handler_run cr evs (s1, P1) = Some (es2, s', P') \<and> es = es1 @ es2)"
  by (auto split: option.splits prod.splits)

lemma run_simulates:
  "suspended_ok P s \<Longrightarrow> \<forall>ev \<in> set evs. \<not> is_abandon ev \<Longrightarrow> handler_run cr evs (s, P) = Some (es, s', P') \<Longrightarrow>
   atomic_run cr evs (settle P s) = (es, settle P' s') \<and> suspended_ok P' s'"
proof (induction evs arbitrary: s P es)
  case (Cons ev evs)
  obtain es1 s1 P1 es2 where st: "handler_step cr ev (s, P) = Some (es1, s1, P1)"
    "handler_run cr evs (s1, P1) = Some (es2, s', P')" "es = es1 @ es2"
    using Cons.prems(3) by (auto simp only: handler_run_Cons)
  have one: "atomic_run cr [ev] (settle P s) = (es1, settle P1 s1)" "suspended_ok P1 s1"
    using step_simulates [OF Cons.prems(1) st(1)] Cons.prems(2) by auto
  with Cons.IH [OF one(2) _ st(2)] Cons.prems(2) st(3) show ?case
    by (cases ev) (auto split: prod.splits)
qed simp

lemma suspended_ok_none: "dict_ok (sv_client_db s) \<Longrightarrow> suspended_ok Map.empty s"
  by (simp add: suspended_ok_def waiting_ok_def)

lemma mailbox_of_bump [simp]: "mailbox_of (bump P u c) = mailbox_of c"
  by (simp add: mailbox_of_def)

lemma office_of_settle: "office_of (settle P s) = office_of s"
  by (simp add: office_of_def settle_def map_of_settled option.map_comp comp_def)

text \<open>The lock is held exactly while a handler that holds it is suspended.\<close>

lemma step_lock:
  assumes "suspended_ok P s" "handler_step cr ev (s, P) = Some (es, s', P')"
  shows "suspended_ok P' s' \<and> ((sv_db_locked s \<longleftrightarrow> DbLock \<in> ran P) \<longrightarrow> (sv_db_locked s' \<longleftrightarrow> DbLock \<in> ran P'))"
proof (cases ev)
  case (Begin rnd sock u data)
  then have u: "P u = None" using assms(2) by (auto split: if_splits)
  have "simulated P u (sv_db_locked s) (begin_request cr rnd (outbox_locked P) sock u data s)
      (dispatch cr rnd sock u data (settle P s))"
    using simulates_request [where P = P and u = u, OF u] assms(1) by (simp add: simulates_def)
  then show ?thesis
    using assms(2) u Begin by (auto simp: simulated_def split: prod.splits outcome.splits started.splits)
next
  case (Finish u)
  then obtain h r where h: "P u = Some h" "finish h u s = (r, es, s')" "P' = P(u := None)"
    using assms(2) by (auto split: option.splits prod.splits)
  with finish_settles [where P = P and u = u, OF assms(1) h(1,2)] lock_holder_resumed [OF assms(1) h(1)]
  show ?thesis by auto
next
  case (Abandon u)
  then obtain h where h: "P u = Some h" "s' = release h s" "P' = P(u := None)"
    using assms(2) by (auto simp: abandon_def split: option.splits)
  have l: "sv_db_locked s' = (sv_db_locked s \<and> h \<noteq> DbLock)" "waiting_ok P s'"
    using assms(1) by (simp_all add: h(2) release_def suspended_ok_def)
  show ?thesis
    using suspended_ok_resumed [OF assms(1) h(1) l(2,1)] lock_holder_resumed [OF assms(1) h(1)] l h(3)
    by auto
qed

lemma run_lock:
  "suspended_ok P s \<Longrightarrow> (sv_db_locked s \<longleftrightarrow> DbLock \<in> ran P) \<Longrightarrow> handler_run cr evs (s, P) = Some (es, s', P') \<Longrightarrow>
   suspended_ok P' s' \<and> (sv_db_locked s' \<longleftrightarrow> DbLock \<in> ran P')"
proof (induction evs arbitrary: s P es)
  case (Cons ev evs)
  then obtain es1 s1 P1 es2 where st: "handler_step cr ev (s, P) = Some (es1, s1, P1)"
    "handler_run cr evs (s1, P1) = Some (es2, s', P')"
    by (auto simp only: handler_run_Cons)
  from step_lock [OF Cons.prems(1) st(1)] Cons.prems(2) Cons.IH [OF _ _ st(2)] show ?case by blast
qed simp



text \<open>Resuming every suspended handler, in any order, ends in the settled state.\<close>

lemma finish_all:
  "suspended_ok P s \<Longrightarrow> distinct us \<Longrightarrow> set us = dom P \<Longrightarrow>
   handler_run cr (map Finish us) (s, P) = Some ([], settle P s, Map.empty)"
proof (induction us arbitrary: P s)
  case Nil
  then have "P = Map.empty" by (metis dom_eq_empty_conv list.set(1))
  then show ?case by simp
next
  case (Cons u us)
  then have "u \<in> dom P" by (metis list.set_intros(1))
  then obtain h where h: "P u = Some h" by auto
  obtain r es s1 where f: "finish h u s = (r, es, s1)" by (cases "finish h u s")
  have s1: "settle (P(u := None)) s1 = settle P s" "suspended_ok (P(u := None)) s1" "es = []"
    using finish_settles [where P = P and u = u, OF Cons.prems(1) h f] by simp_all
  have us: "set us = dom (P(u := None))" using Cons.prems(2,3) by auto
  have "distinct us" using Cons.prems(2) by simp
  from Cons.IH [OF s1(2) this us]
  have "handler_run cr (map Finish us) (s1, P(u := None)) = Some ([], settle P s, Map.empty)"
    by (simp only: s1(1))
  then show ?case using h f s1(3) by simp
qed

lemma step_finite: "handler_step cr ev (s, P) = Some (es, s', P') \<Longrightarrow> finite (dom P) \<Longrightarrow> finite (dom P')"
  by (cases ev) (auto split: if_splits option.splits prod.splits outcome.splits started.splits)

lemma run_finite: "handler_run cr evs (s, P) = Some (es, s', P') \<Longrightarrow> finite (dom P) \<Longrightarrow> finite (dom P')"
proof (induction evs arbitrary: s P es)
  case (Cons ev evs)
  then obtain es1 s1 P1 es2 where st: "handler_step cr ev (s, P) = Some (es1, s1, P1)"
    "handler_run cr evs (s1, P1) = Some (es2, s', P')"
    by (auto simp only: handler_run_Cons)
  then show ?case using step_finite Cons by blast
qed simp

lemma session_of_settle:
  "session_cipher (settle P s) u = session_cipher s u" "session_rx (settle P s) u = session_rx s u"
  "map_of (sv_client_db s) u \<noteq> None \<Longrightarrow>
     session_tx (settle P s) u = session_tx s u + (if P u = None then 0 else 1)"
  "map_of (sv_client_db s) u = None \<Longrightarrow> session_tx (settle P s) u = session_tx s u"
  by (cases "map_of (sv_client_db s) u";
      simp add: session_cipher_def session_rx_def session_tx_def settle_def map_of_settled bump_def)+

section \<open>Properties\<close>

text \<open>C3: overlapping requests of different sessions are atomic. Whatever the interleaving of their
  handlers, the packets sent are those of the same requests handled one at a time in the order in
  which they began, and the tables differ from that run's only in the counters of the sessions
  that still wait for their reply to be sent; when none waits, the states are equal.\<close>

theorem overlapping_requests_atomic:
  assumes "dict_ok (sv_client_db s)" "handler_run cr evs (s, Map.empty) = Some (es, s', P')"
    and "\<forall>ev \<in> set evs. \<not> is_abandon ev"
  shows "\<exists>t. atomic_run cr evs s = (es, t) \<and> office_of t = office_of s' \<and>
    (\<forall>u. session_cipher t u = session_cipher s' u \<and> session_rx t u = session_rx s' u \<and>
       session_tx t u = session_tx s' u + (if P' u = None then 0 else 1)) \<and>
    (P' = Map.empty \<longrightarrow> t = s')"
proof -
  have r: "atomic_run cr evs s = (es, settle P' s')" "suspended_ok P' s'"
    using run_simulates [OF suspended_ok_none [OF assms(1)] assms(3,2)] by simp_all
  have "session_tx (settle P' s') u = session_tx s' u + (if P' u = None then 0 else 1)" for u
    using r(2) session_of_settle(3,4) [of s' u P'] by (cases "map_of (sv_client_db s') u = None")
      (auto simp: suspended_ok_def waiting_ok_def)
  with r(1) show ?thesis by (auto simp: office_of_settle session_of_settle(1,2))
qed

text \<open>C7: the database lock. A server whose lock was free ends every interleaving of requests, broken
  connections included, with the lock held exactly if a handler that holds it is suspended, and at
  most one handler does.\<close>

theorem database_lock_exclusive:
  assumes "dict_ok (sv_client_db s)" "\<not> sv_db_locked s" "handler_run cr evs (s, Map.empty) = Some (es, s', P')"
  shows "(sv_db_locked s' \<longleftrightarrow> (\<exists>u. P' u = Some DbLock)) \<and>
    (P' u = Some DbLock \<longrightarrow> P' v = Some DbLock \<longrightarrow> u = v)"
  using run_lock [OF suspended_ok_none [OF assms(1)] _ assms(3)] assms(2)
  by (auto simp: suspended_ok_def in_ran)


text \<open>C8: overlapping requests never deadlock. At every moment of every interleaving finitely many
  handlers are suspended, none of them waits for another, and they can be resumed in any order:
  every order ends in the same state, with the database lock free and the tables as they were.\<close>

theorem suspended_handlers_drain:
  assumes "dict_ok (sv_client_db s)" "\<not> sv_db_locked s" "handler_run cr evs (s, Map.empty) = Some (es, s', P')"
  shows "finite (dom P') \<and> (\<exists>t. office_of t = office_of s' \<and> \<not> sv_db_locked t \<and>
    (\<forall>us. distinct us \<longrightarrow> set us = dom P' \<longrightarrow>
       handler_run cr (map Finish us) (s', P') = Some ([], t, Map.empty)))"
proof (intro conjI exI [of _ "settle P' s'"] allI impI)
  have r: "suspended_ok P' s'" "sv_db_locked s' \<longleftrightarrow> DbLock \<in> ran P'"
    using run_lock [OF suspended_ok_none [OF assms(1)] _ assms(3)] assms(2) by simp_all
  show "finite (dom P')" by (rule run_finite [OF assms(3)]) simp
  show "office_of (settle P' s') = office_of s'" by (rule office_of_settle)
  show "\<not> sv_db_locked (settle P' s')" using r(2) by (simp add: settle_def)
  fix us assume "distinct us" "set us = dom P'"
  with r(1) show "handler_run cr (map Finish us) (s', P') = Some ([], settle P' s', Map.empty)"
    by (rule finish_all)
qed

section \<open>Witnesses\<close>

text \<open>Bob's WHOAMI is answered while alice's SET waits for its reply to be sent.\<close>

definition overlap :: "handler_event list" where
  "overlap = [Begin [] (Sock 1) alice (0x81 # 0 # 0 # 0 # 1 # 0 # 0 # 0 # 1 # [5, 6]),
     Begin [] (Sock 2) bob [0x87]]"

lemma sample_dict_ok: "dict_ok (sv_client_db two_sessions)"
  by (simp add: dict_ok_def two_sessions_def empty_server_def)

lemma sample_overlap:
  "\<exists>es s1. handler_run toy_crypto overlap (two_sessions, Map.empty) = Some (es, s1, [alice \<mapsto> DbLock, bob \<mapsto> NoLock])"
proof -
  have d: "sendable ACK" "sendable (latin1_bytes bob)" by (auto simp: sendable_def ACK_def simp flip: length_greater_0_conv)
  obtain p q where p: "construct_packet toy_crypto ACK (Some alice_key) 2 compressor_level = Inr p"
    and q: "construct_packet toy_crypto (latin1_bytes bob) (Some bob_key) 2 compressor_level = Inr q"
    using construct_verify [OF toy_aead_ok toy_zstd_ok, of alice_key 2 ACK compressor_level]
      construct_verify [OF toy_aead_ok toy_zstd_ok, of bob_key 2 "latin1_bytes bob" compressor_level] d
    by (auto simp: sendable_def)
  show ?thesis
    by (simp add: overlap_def begin_request_def begin_server_request_def begin_set_def begin_whoami_def
        holding_db_eval begin_reply_def reply_begin_def act_simps
        Let_def p q new_session_def unpack_Is_def latin1_encode)
qed


theorem overlapping_requests_atomic_witness:
  "\<exists>es s1 t. handler_run toy_crypto overlap (two_sessions, Map.empty) = Some (es, s1, [alice \<mapsto> DbLock, bob \<mapsto> NoLock]) \<and>
     atomic_run toy_crypto overlap two_sessions = (es, t) \<and> session_tx t alice = session_tx s1 alice + 1"
proof -
  obtain es s1 where r: "handler_run toy_crypto overlap (two_sessions, Map.empty) =
      Some (es, s1, [alice \<mapsto> DbLock, bob \<mapsto> NoLock])"
    using sample_overlap by blast
  have "\<forall>ev \<in> set overlap. \<not> is_abandon ev" by (simp add: overlap_def)
  from overlapping_requests_atomic [OF sample_dict_ok r this] r show ?thesis by auto
qed

theorem database_lock_exclusive_witness:
  "\<exists>es s1. handler_run toy_crypto overlap (two_sessions, Map.empty) =
     Some (es, s1, [alice \<mapsto> DbLock, bob \<mapsto> NoLock]) \<and> sv_db_locked s1"
proof -
  obtain es s1 where r: "handler_run toy_crypto overlap (two_sessions, Map.empty) =
      Some (es, s1, [alice \<mapsto> DbLock, bob \<mapsto> NoLock])"
    using sample_overlap by blast
  have "[alice \<mapsto> DbLock, bob \<mapsto> NoLock] alice = Some DbLock" by simp
  with database_lock_exclusive [OF sample_dict_ok _ r, of alice alice] have "sv_db_locked s1" by simp
  with r show ?thesis by blast
qed


theorem suspended_handlers_drain_witness:
  "\<exists>es s1 t. handler_run toy_crypto overlap (two_sessions, Map.empty) =
       Some (es, s1, [alice \<mapsto> DbLock, bob \<mapsto> NoLock]) \<and>
     handler_run toy_crypto (map Finish [bob, alice]) (s1, [alice \<mapsto> DbLock, bob \<mapsto> NoLock]) = Some ([], t, Map.empty)"
proof -
  obtain es s1 where r: "handler_run toy_crypto overlap (two_sessions, Map.empty) =
      Some (es, s1, [alice \<mapsto> DbLock, bob \<mapsto> NoLock])"
    using sample_overlap by blast
  have us: "distinct [bob, alice]" "set [bob, alice] = dom [alice \<mapsto> DbLock, bob \<mapsto> NoLock]" by auto
  have "\<not> sv_db_locked two_sessions" by simp
  from suspended_handlers_drain [OF sample_dict_ok this r] us r show ?thesis by blast
qed

end
