(* ===== verification/Overlap.thy ===== *)
theory Overlap
  imports AwaitProofs Guarantees
begin

text \<open>
  The invariants of the reachable servers under overlapping requests. \<open>Reach\<close> proves them for whole
  requests; a suspended handler has changed nothing they speak of but for its counter, so they
  hold in the settled state exactly if they hold in the state itself. The second part connects
  overlapping requests with the post office, the third shows what a broken connection loses.
\<close>

lemma settled_keys: "map fst (settled P cdb) = map fst cdb"
  by (simp add: settled_def case_prod_unfold)

lemma dict_ok_settled: "dict_ok (settled P cdb) = dict_ok cdb"
  by (simp add: dict_ok_def settled_keys)

lemma dict_all_settled: "(\<And>u c. Q u (bump P u c) = Q u c) \<Longrightarrow> dict_all Q (settled P cdb) = dict_all Q cdb"
  by (auto simp: dict_all_def settled_def)

lemma tables_wf_settle: "tables_wf (settle P s) = tables_wf s"
proof -
  have "dict_all session_wf (settled P (sv_client_db s)) = dict_all session_wf (sv_client_db s)"
    by (rule dict_all_settled) (simp add: session_wf_def bump_def)
  then show ?thesis by (simp add: tables_wf_def settle_def dict_ok_settled)
qed

lemma ownership_settle: "ownership (settle P s) = ownership s"
proof -
  have "dict_all (owner_ok b) (settled P (sv_client_db s)) = dict_all (owner_ok b) (sv_client_db s)" for b
    by (rule dict_all_settled) (simp add: owner_ok_def)
  then show ?thesis by (simp add: ownership_def settle_def dict_ok_settled)
qed

lemma keyed_settle: "keyed (settle P s) = keyed s"
proof -
  have "dict_all session_keyed (settled P (sv_client_db s)) = dict_all session_keyed (sv_client_db s)"
    by (rule dict_all_settled) (simp add: session_keyed_def bump_def)
  then show ?thesis by (simp add: keyed_def settle_def)
qed

text \<open>A predicate as in \<open>server_invariant\<close> that does not look at the counters and the lock holds
  after every event of overlapping handlers, broken connections included.\<close>

locale overlap_invariant = server_invariant +
  assumes I_settle: "I (settle P s) = I s"
begin

lemma step_keeps:
  assumes "suspended_ok P s" "I s" "handler_step cr ev (s, P) = Some (es, s', P')"
  shows "I s'"
proof (cases ev)
  case (Begin rnd sock u data)
  have "I (snd (snd (dispatch cr rnd sock u data (settle P s))))"
    using keeps_dispatch [of "settle P s"] assms(2) by (simp add: keeps_def I_settle)
  moreover have "atomic_run cr [ev] (settle P s) = (es, settle P' s')"
    using step_simulates [OF assms(1,3)] Begin by simp
  ultimately have "I (settle P' s')" using Begin by (auto split: prod.splits)
  then show ?thesis by (simp add: I_settle)
next
  case (Finish u)
  then have "settle P' s' = settle P s" using step_simulates [OF assms(1,3)] by simp
  then show ?thesis using assms(2) I_settle by metis
next
  case (Abandon u)
  then obtain h where "s' = release h s" using assms(3) by (auto simp: abandon_def split: option.splits)
  then show ?thesis using assms(2) by (simp add: release_def I_lock)
qed

lemma run_keeps:
  "suspended_ok P s \<Longrightarrow> I s \<Longrightarrow> handler_run cr evs (s, P) = Some (es, s', P') \<Longrightarrow> I s'"
proof (induction evs arbitrary: s P es)
  case (Cons ev evs)
  then obtain es1 s1 P1 es2 where st: "handler_step cr ev (s, P) = Some (es1, s1, P1)"
    "handler_run cr evs (s1, P1) = Some (es2, s', P')"
    by (auto simp only: handler_run_Cons)
  from step_lock [OF Cons.prems(1) st(1)] step_keeps [OF Cons.prems(1,2) st(1)] Cons.IH [OF _ _ st(2)]
  show ?case by blast
qed simp

lemma reachable_run_keeps:
  assumes "reachable cr s" "dict_ok (sv_client_db s)" "handler_run cr evs (s, Map.empty) = Some (es, s', P')"
  shows "I s'"
  by (rule run_keeps [OF suspended_ok_none [OF assms(2)] reachable_holds [OF assms(1)] assms(3)])

end

interpretation overlap_tables: overlap_invariant tables_wf
  by unfold_locales (rule tables_wf_settle)

interpretation overlap_owners: overlap_invariant ownership
  by unfold_locales (rule ownership_settle)

interpretation overlap_keys: overlap_invariant keyed
  by unfold_locales (rule keyed_settle)

text \<open>C6: the tables are well formed at every moment. From a reachable server, whatever requests
  overlap and whatever connections break, no key occurs twice in a table, every session is filed
  under its own 36-character UUID with a 32-byte key, and the address book agrees with the
  addresses the sessions own.\<close>

theorem tables_typed_throughout:
  assumes "reachable cr s" "handler_run cr evs (s, Map.empty) = Some (es, s', P')"
  shows "tables_wf s' \<and> ownership s' \<and> keyed s'"
proof -
  have "dict_ok (sv_client_db s)" using tables.reachable_holds [OF assms(1)] by (simp add: tables_wf_def)
  then show ?thesis
    using overlap_tables.reachable_run_keeps [OF assms(1) _ assms(2)]
      overlap_owners.reachable_run_keeps [OF assms(1) _ assms(2)]
      overlap_keys.reachable_run_keeps [OF assms(1) _ assms(2)] by blast
qed

text \<open>Alice's WHOAMI, whose connection breaks while the reply is being sent.\<close>

theorem tables_typed_throughout_witness:
  "\<exists>es s'. handler_run toy_crypto [Begin [] (Sock 1) alice [0x87], Abandon alice] (alice_server, Map.empty) =
     Some (es, s', Map.empty) \<and> tables_wf s' \<and> ownership s' \<and> keyed s'"
proof -
  have "latin1_bytes alice \<noteq> []" using length_latin1_bytes [of alice] by (metis length_0_conv sample_uuids(1) zero_neq_numeral)
  then obtain p where p: "construct_packet toy_crypto (latin1_bytes alice) (Some alice_key) 2 compressor_level = Inr p"
    using construct_verify [OF toy_aead_ok toy_zstd_ok, of alice_key 2 "latin1_bytes alice" compressor_level] by auto
  have "handler_run toy_crypto [Begin [] (Sock 1) alice [0x87], Abandon alice] (alice_server, Map.empty) =
      Some ([SendAll (Sock 1) p], alice_server, Map.empty)"
    by (simp add: begin_request_def begin_server_request_def begin_whoami_def begin_reply_def reply_begin_def
        act_simps p new_session_def latin1_encode abandon_def release_def)
  with tables_typed_throughout [OF reachable_alice this] show ?thesis by blast
qed

section \<open>Overlapping requests and the post office\<close>

text \<open>The requests of a run in the order in which they begin, and the packets that answer them: each
  to its session's connection, under the session's key and consecutive counters.\<close>

fun begun :: "handler_event list \<Rightarrow> (bytes \<times> sock \<times> pystr \<times> bytes) list" where
  "begun [] = []"
| "begun (Begin rnd sock u data # evs) = (rnd, sock, u, data) # begun evs"
| "begun (_ # evs) = begun evs"

definition sent_by :: "(pystr \<Rightarrow> sock) \<Rightarrow> request_event \<Rightarrow> bytes \<times> sock \<times> pystr \<times> bytes" where
  "sent_by socks req = (case req of (rnd, u, cmd) \<Rightarrow> (rnd, socks u, u, command_bytes cmd))"

fun answered ::
  "crypto \<Rightarrow> (pystr \<Rightarrow> sock) \<Rightarrow> (pystr \<Rightarrow> bytes option) \<Rightarrow> (pystr \<Rightarrow> nat) \<Rightarrow> request_event list \<Rightarrow>
     answer list \<Rightarrow> effect list \<Rightarrow> bool" where
  "answered cr socks key tx [] [] [] \<longleftrightarrow> True"
| "answered cr socks key tx ((rnd, u, cmd) # reqs) (a # as) (SendAll sock p # es) \<longleftrightarrow>
     sock = socks u \<and> verify_packet cr p (key u) (tx u) = Inr (Inr (answer_bytes a), None) \<and>
     answered cr socks key (tx(u := Suc (tx u))) reqs as es"
| "answered cr socks key tx _ _ _ \<longleftrightarrow> False"

definition can_answer :: "nat \<Rightarrow> server \<Rightarrow> request_event \<Rightarrow> bool" where
  "can_answer n s req = (case req of (rnd, u, cmd) \<Rightarrow> command_ok cmd \<and>
     (\<exists>key. session_cipher s u = Some key \<and> length key = 32) \<and> session_tx s u + n \<le> 2 ^ 96)"

lemma atomic_run_served:
  assumes "aead_ok cr" "zstd_ok cr"
  shows "begun evs = map (sent_by socks) reqs \<Longrightarrow> \<not> sv_db_locked s \<Longrightarrow>
    \<forall>req \<in> set reqs. can_answer (length reqs) s req \<Longrightarrow> office_run reqs (office_of s) = Some (as, w') \<Longrightarrow>
    \<forall>a \<in> set as. sendable (answer_bytes a) \<Longrightarrow>
    \<exists>es t. atomic_run cr evs s = (es, t) \<and> office_of t = w' \<and>
      answered cr socks (session_cipher s) (session_tx s) reqs as es"
proof (induction evs arbitrary: s reqs as)
  case (Cons ev evs)
  show ?case
  proof (cases ev)
    case (Begin rnd sock u data)
    then obtain cmd reqs' where r: "reqs = (rnd, u, cmd) # reqs'" "sock = socks u" "data = command_bytes cmd"
      "begun evs = map (sent_by socks) reqs'"
      using Cons.prems(1) by (cases reqs) (auto simp: sent_by_def)
    then obtain a as' w1 where a: "office_step rnd u cmd (office_of s) = Some (a, w1)"
      "office_run reqs' w1 = Some (as', w')" "as = a # as'"
      using Cons.prems(4) by (auto split: option.splits)
    have ready: "session_ready s u" "command_ok cmd"
      using Cons.prems(3) r(1) by (auto simp: can_answer_def session_ready_def)
    obtain p s1 where d: "dispatch cr rnd sock u data s = (Return Next, [SendAll sock p], s1)"
      "verify_packet cr p (session_cipher s u) (session_tx s u) = Inr (Inr (answer_bytes a), None)"
      "office_of s1 = w1" "session_cipher s1 = session_cipher s"
      "session_tx s1 = (session_tx s)(u := Suc (session_tx s u))" "\<not> sv_db_locked s1"
      using dispatch_office [OF assms ready(1) Cons.prems(2) ready(2) a(1), of sock] Cons.prems(2,5) a(3) r(3)
      by (auto simp: served_def)
    have "\<forall>req \<in> set reqs'. can_answer (length reqs') s1 req"
      using Cons.prems(3) r(1) d(4,5) by (auto simp: can_answer_def)
    with Cons.IH [OF r(4) d(6)] a(2,3) d(3) Cons.prems(5)
    obtain es t where "atomic_run cr evs s1 = (es, t)" "office_of t = w'"
      "answered cr socks (session_cipher s1) (session_tx s1) reqs' as' es"
      by auto
    then show ?thesis using Begin r a(3) d(1,2) by (simp add: d(4,5))
  qed (use Cons in simp_all)
qed simp

text \<open>C2: overlapping requests are served. Whatever the interleaving of the handlers, each request is
  answered on its own connection by one packet, which verifies under the session's key and the
  session's next counter and carries the answer of the post office to the requests in the order
  in which they began; the tables are the post office's throughout.\<close>

theorem overlapping_requests_served:
  assumes "aead_ok cr" "zstd_ok cr" "dict_ok (sv_client_db s)" "\<not> sv_db_locked s"
    and "handler_run cr evs (s, Map.empty) = Some (es, s', P')" "\<forall>ev \<in> set evs. \<not> is_abandon ev"
    and "begun evs = map (sent_by socks) reqs" "\<forall>req \<in> set reqs. can_answer (length reqs) s req"
    and "office_run reqs (office_of s) = Some (as, w')" "\<forall>a \<in> set as. sendable (answer_bytes a)"
  shows "office_of s' = w' \<and> answered cr socks (session_cipher s) (session_tx s) reqs as es"
proof -
  have "atomic_run cr evs s = (es, settle P' s')"
    using run_simulates [OF suspended_ok_none [OF assms(3)] assms(6,5)] by simp
  with atomic_run_served [OF assms(1,2,7,4,8,9,10)] show ?thesis by (auto simp: office_of_settle)
qed

text \<open>Alice's SET and Bob's WHOAMI, which begins before the reply to the SET has been sent.\<close>

theorem overlapping_requests_served_witness:
  "\<exists>es s'. handler_run toy_crypto overlap (two_sessions, Map.empty) = Some (es, s', [alice \<mapsto> DbLock, bob \<mapsto> NoLock]) \<and>
     of_db (office_of s') = [[5] \<mapsto> [6]] \<and>
     answered toy_crypto (\<lambda>u. Sock (if u = alice then 1 else 2)) (session_cipher two_sessions)
       (session_tx two_sessions) [([], alice, CSet [5] [6]), ([], bob, CWhoami)]
       [Ack, Value (latin1_bytes bob)] es"
proof -
  let ?socks = "\<lambda>u. Sock (if u = alice then 1 else 2)"
  let ?reqs = "[([], alice, CSet [5] [6]), ([], bob, CWhoami)]"
  obtain es s1 where r: "handler_run toy_crypto overlap (two_sessions, Map.empty) =
      Some (es, s1, [alice \<mapsto> DbLock, bob \<mapsto> NoLock])"
    using sample_overlap by blast
  have bob: "bob \<noteq> []" by (metis list.size(3) sample_uuids(3) zero_neq_numeral)
  have one: "be_bytes 4 (Suc 0) = [0, 0, 0, 1]" by code_simp
  have e: "\<forall>ev \<in> set overlap. \<not> is_abandon ev" "begun overlap = map (sent_by ?socks) ?reqs"
    by (simp_all add: overlap_def sent_by_def u32_fields_def one)
  have c: "\<forall>req \<in> set ?reqs. can_answer (length ?reqs) two_sessions req"
    by (simp add: can_answer_def command_ok_def)
  have o: "office_run ?reqs (office_of two_sessions) =
      Some ([Ack, Value (latin1_bytes bob)], (office_of two_sessions)\<lparr>of_db := [[5] \<mapsto> [6]]\<rparr>)"
    using bob by (simp add: sample_office)
  have a: "\<forall>a \<in> set [Ack, Value (latin1_bytes bob)]. sendable (answer_bytes a)"
    using bob by (auto simp: sendable_def ACK_def latin1_bytes_def)
  have "\<not> sv_db_locked two_sessions" by simp
  from overlapping_requests_served [OF toy_aead_ok toy_zstd_ok sample_dict_ok this r e c o a] r show ?thesis
    by (simp del: handler_run.simps answered.simps)
qed

section \<open>Broken connections\<close>

lemma begin_reply_sends:
  assumes "aead_ok cr" "zstd_ok cr" "map_of (sv_client_db s) u = Some c" "cl_cipher c = Some key" "length key = 32"
    and "cl_tx_nonce c < 2 ^ 96" "sendable data"
  shows "\<exists>p. begin_reply cr sock u h data s = (Return (Suspended h), [SendAll sock p], s)"
proof -
  obtain p where "construct_packet cr data (Some key) (cl_tx_nonce c) compressor_level = Inr p"
    using construct_verify [OF assms(1,2,5,6), of data compressor_level] assms(7) by (auto simp: sendable_def)
  then show ?thesis using assms(3,4) by (simp add: begin_reply_def reply_begin_def act_simps)
qed

text \<open>C25: a read that breaks off loses the message. READ INBOX and READ OUTBOX take the item out of the
  mailbox before they send it. When the connection breaks during the send, the session stays, for
  its client to log in to again, but the request or the response is gone.\<close>

theorem abandoned_read_loses_message:
  assumes "aead_ok cr" "zstd_ok cr" "map_of (sv_client_db s) u = Some c" "cl_cipher c = Some key" "length key = 32"
    and "cl_tx_nonce c < 2 ^ 96" "cl_inbox c = r # q" "sendable (inbox_message r)"
    and "map_of (cl_outbox c) i = Some a" "sendable (outbox_message a)"
  shows "\<exists>p p'. handler_run cr [Begin rnd sock u [0x03], Abandon u] (s, Map.empty) = Some ([SendAll sock p],
      s\<lparr>sv_client_db := dict_setitem (sv_client_db s) u (c\<lparr>cl_inbox := q\<rparr>)\<rparr>, Map.empty) \<and>
    handler_run cr [Begin rnd sock u (0x05 # i), Abandon u] (s, Map.empty) = Some ([SendAll sock p'],
      s\<lparr>sv_client_db := dict_setitem (sv_client_db s) u (c\<lparr>cl_outbox := AList.delete i (cl_outbox c)\<rparr>)\<rparr>, Map.empty)"
proof -
  let ?c1 = "c\<lparr>cl_inbox := q\<rparr>" and ?c2 = "c\<lparr>cl_outbox := AList.delete i (cl_outbox c)\<rparr>"
  let ?s1 = "s\<lparr>sv_client_db := dict_setitem (sv_client_db s) u ?c1\<rparr>"
  let ?s2 = "s\<lparr>sv_client_db := dict_setitem (sv_client_db s) u ?c2\<rparr>"
  let ?f1 = "[rq_return_uuid r, rq_request r, rq_key r, rq_request_uuid r]" and ?f2 = "[rs_key a, rs_response a]"
  have "pack_Is (map length ?f1) = Inr (u32_fields ?f1)" "pack_Is (map length ?f2) = Inr (u32_fields ?f2)"
    using assms(8,10) by (intro pack_fields sendable_fields; simp add: inbox_message_def outbox_message_def)+
  then have pk: "pack_Is [length (rq_return_uuid r), length (rq_request r), length (rq_key r),
      length (rq_request_uuid r)] = Inr (u32_fields ?f1)"
    "pack_Is [length (rs_key a), length (rs_response a)] = Inr (u32_fields ?f2)" by simp_all
  have m: "map_of (sv_client_db ?s1) u = Some ?c1" "map_of (sv_client_db ?s2) u = Some ?c2"
    by (simp_all add: map_of_setitem)
  obtain p where p: "begin_reply cr sock u NoLock (inbox_message r) ?s1 = (Return (Suspended NoLock), [SendAll sock p], ?s1)"
    using begin_reply_sends [OF assms(1,2) m(1) _ assms(5) _ assms(8)] assms(4,6) by auto
  obtain p' where p': "begin_reply cr sock u OutboxLock (outbox_message a) ?s2 =
      (Return (Suspended OutboxLock), [SendAll sock p'], ?s2)"
    using begin_reply_sends [OF assms(1,2) m(2) _ assms(5) _ assms(10)] assms(4,6) by auto
  have "begin_request cr rnd {} sock u [0x03] s = (Return (Suspended NoLock), [SendAll sock p], ?s1)"
    using assms(3,7) p pk(1)
    by (simp add: begin_request_def begin_client_request_def begin_get_inbox_def act_simps inbox_message_def
        del: pack_Is.simps)
  moreover have "begin_request cr rnd {} sock u (0x05 # i) s = (Return (Suspended OutboxLock), [SendAll sock p'], ?s2)"
    using assms(3,9) p' pk(2)
    by (simp add: begin_request_def begin_client_request_def begin_get_outbox_def act_simps outbox_message_def
        dict_contains_map_of dict_getitem_def del: pack_Is.simps)
  ultimately show ?thesis by (simp add: outbox_locked_def abandon_def release_def)
qed

definition full_mailboxes :: server where
  "full_mailboxes = two_sessions\<lparr>sv_client_db := [(alice, (new_session (Sock 1) (AddrStr []) alice alice_key 2 2)\<lparr>
     cl_inbox := [\<lparr>rq_return_uuid = [1], rq_key = [2], rq_request = [3], rq_request_uuid = [4]\<rparr>],
     cl_outbox := [([9], \<lparr>rs_key = [2], rs_response = [5], rs_response_uuid = [9]\<rparr>)]\<rparr>)]\<rparr>"

theorem abandoned_read_loses_message_witness:
  "\<exists>p s'. handler_run toy_crypto [Begin [] (Sock 1) alice [0x03], Abandon alice] (full_mailboxes, Map.empty) =
     Some ([SendAll (Sock 1) p], s', Map.empty) \<and> (\<exists>c. map_of (sv_client_db s') alice = Some c \<and> cl_inbox c = [])"
proof -
  let ?r = "\<lparr>rq_return_uuid = [1], rq_key = [2], rq_request = [3], rq_request_uuid = [4]\<rparr>"
  let ?a = "\<lparr>rs_key = [2], rs_response = [5], rs_response_uuid = [9]\<rparr>"
  let ?c = "(new_session (Sock 1) (AddrStr []) alice alice_key 2 2)\<lparr>cl_inbox := [?r], cl_outbox := [([9], ?a)]\<rparr>"
  have c: "map_of (sv_client_db full_mailboxes) alice = Some ?c" "cl_cipher ?c = Some alice_key"
    "cl_tx_nonce ?c < 2 ^ 96" "cl_inbox ?c = [?r]" "map_of (cl_outbox ?c) [9] = Some ?a"
    by (simp_all add: full_mailboxes_def new_session_def)
  have m: "sendable (inbox_message ?r)" "sendable (outbox_message ?a)"
    by (simp_all add: sendable_def inbox_message_def outbox_message_def u32_fields_def)
  from abandoned_read_loses_message [OF toy_aead_ok toy_zstd_ok c(1,2) sample_keys(1) c(3,4) m(1) c(5) m(2), of "[]" "Sock 1"]
  show ?thesis by (auto simp: map_of_setitem simp del: handler_run.simps)
qed

end
