(* ===== verification/Discipline.thy ===== *)
theory Discipline
  imports Samples
begin

text \<open>
  What holds of \<^verbatim>\<open>handle_client\<close>'s dispatcher on every input, well formed or not, and in every
  state: each request is answered by at most one packet, which is built under the session's
  counter and moves it by one (\<open>answers_once\<close>), and a request of one session leaves the
  connection of every other session alone (\<open>leaves_peers\<close>). Both are postconditions of an
  action, and the locale \<open>request_post\<close> carries a postcondition through all operations once.
\<close>

named_theorems post_simps \<open>postconditions of actions\<close>

section \<open>Postconditions\<close>

type_synonym 'a post = "'a outcome \<times> effect list \<times> server \<Rightarrow> bool"

definition post :: "'a post \<Rightarrow> 'a action \<Rightarrow> server \<Rightarrow> bool" where
  "post Q m s \<longleftrightarrow> Q (m s)"

lemma post_basic [post_simps]:
  "post Q (ret x) s = Q (Return x, [], s)"
  "post Q (throw e) s = Q (Raise e, [], s)"
  "post Q block s = Q (Block, [], s)"
  by (simp_all add: post_def act_simps)

lemma post_and_then [post_simps]:
  "post Q (and_then (gets f) (k :: 'a \<Rightarrow> 'b action)) s = post Q (k (f s)) s"
  "post Q (and_then (modify g) (k' :: unit \<Rightarrow> 'b action)) s = post Q (k' ()) (g s)"
  "post Q (and_then (put_session u c) (k' :: unit \<Rightarrow> 'b action)) s =
     post Q (k' ()) (s\<lparr>sv_client_db := dict_setitem (sv_client_db s) u c\<rparr>)"
  "post Q (and_then (set_book key u) (k' :: unit \<Rightarrow> 'b action)) s =
     post Q (k' ()) (s\<lparr>sv_address_book := dict_setitem (sv_address_book s) key u\<rparr>)"
  by (simp_all add: post_def act_simps)

lemma post_lift [post_simps]:
  "post Q (and_then (lift r) (k :: 'a \<Rightarrow> 'b action)) s =
     (case r of Inl e \<Rightarrow> Q (Raise e, [], s) | Inr x \<Rightarrow> post Q (k x) s)"
  by (simp add: post_def act_simps split: sum.split)

lemma post_get_session [post_simps]:
  "post Q (and_then (get_session u) (k :: client \<Rightarrow> 'b action)) s =
     (case map_of (sv_client_db s) u of None \<Rightarrow> Q (Raise KeyError, [], s) | Some c \<Rightarrow> post Q (k c) s)"
  by (simp add: post_def act_simps split: option.split)

lemma post_del_book [post_simps]:
  "post Q (and_then (del_book key) (k' :: unit \<Rightarrow> 'b action)) s =
     (if dict_contains (sv_address_book s) key
      then post Q (k' ()) (s\<lparr>sv_address_book := AList.delete key (sv_address_book s)\<rparr>)
      else Q (Raise KeyError, [], s))"
  by (simp add: post_def act_simps del_book_def dict_delitem_def)

lemma post_with_db_lock:
  "post Q (with_db_lock m) s =
     (if sv_db_locked s then Q (Block, [], s)
      else post (\<lambda>(r, es, s'). Q (r, es, s'\<lparr>sv_db_locked := False\<rparr>)) m (s\<lparr>sv_db_locked := True\<rparr>))"
  by (cases "m (s\<lparr>sv_db_locked := True\<rparr>)") (simp add: post_def with_db_lock_free with_db_lock_held)

section \<open>The operations, once\<close>

text \<open>
  \<open>R s\<close> relates the state at the start of a request to \<open>s\<close>, before the reply; \<open>Q\<close> is the
  postcondition. The laws say that the updates of the operations stay in \<open>R\<close> and that from \<open>R\<close>
  an exception, a wait, a stop and a reply establish \<open>Q\<close>.
\<close>

locale request_post =
  fixes cr :: crypto and sock :: sock and u :: pystr
    and R :: "server \<Rightarrow> bool" and Q :: "ctl post"
  assumes R_lock: "R s \<Longrightarrow> R (s\<lparr>sv_db_locked := b\<rparr>)"
    and R_db: "R s \<Longrightarrow> R (s\<lparr>sv_db := d\<rparr>)"
    and R_book: "R s \<Longrightarrow> R (s\<lparr>sv_address_book := b'\<rparr>)"
    and R_own: "R s \<Longrightarrow> map_of (sv_client_db s) u = Some c \<Longrightarrow> cl_cipher c' = cl_cipher c \<Longrightarrow>
      cl_tx_nonce c' = cl_tx_nonce c \<Longrightarrow> R (s\<lparr>sv_client_db := dict_setitem (sv_client_db s) u c'\<rparr>)"
    and R_mail: "R s \<Longrightarrow> map_of (sv_client_db s) t = Some c \<Longrightarrow>
      R (s\<lparr>sv_client_db := dict_setitem (sv_client_db s) t (c\<lparr>cl_inbox := cl_inbox c @ [r]\<rparr>)\<rparr>)"
    and R_answer: "R s \<Longrightarrow> map_of (sv_client_db s) t = Some c \<Longrightarrow>
      R (s\<lparr>sv_client_db := dict_setitem (sv_client_db s) t
        (c\<lparr>cl_outbox := dict_setitem (cl_outbox c) i p\<rparr>)\<rparr>)"
    and Q_raise: "R s \<Longrightarrow> Q (Raise e, [], s)"
    and Q_block: "R s \<Longrightarrow> Q (Block, [], s)"
    and Q_stop: "R s \<Longrightarrow> Q (Return (Stop clean), [], s)"
    and Q_reply: "R s \<Longrightarrow> map_of (sv_client_db s) u = Some c \<Longrightarrow>
      construct_packet cr data (cl_cipher c) (cl_tx_nonce c) compressor_level = Inr packet \<Longrightarrow>
      Q (Return Next, [SendAll sock packet],
         s\<lparr>sv_client_db := dict_setitem (sv_client_db s) u (c\<lparr>cl_tx_nonce := cl_tx_nonce c + 1\<rparr>)\<rparr>)"
    and Q_unlock: "Q (x, es, s') \<Longrightarrow> Q (x, es, s'\<lparr>sv_db_locked := b\<rparr>)"
begin

lemma post_reply: "R s \<Longrightarrow> post Q (reply_next cr sock u data) s"
proof -
  assume R: "R s"
  show ?thesis
  proof (cases "map_of (sv_client_db s) u")
    case None
    then show ?thesis using Q_raise [OF R] by (simp add: reply_next_def send_reply_def post_def act_simps)
  next
    case (Some c)
    then show ?thesis
      using Q_raise [OF R] Q_reply [OF R Some]
      by (cases "construct_packet cr data (cl_cipher c) (cl_tx_nonce c) compressor_level")
        (simp_all add: reply_next_def send_reply_def post_def act_simps)
  qed
qed

lemma post_error: "R s \<Longrightarrow> post Q (error_next cr sock u n) s"
  by (simp add: error_next_def post_simps post_reply Q_raise split: sum.split)

lemma post_locked: "R s \<Longrightarrow> (\<And>s. R s \<Longrightarrow> post Q m s) \<Longrightarrow> post Q (with_db_lock m) s"
proof (cases "sv_db_locked s")
  case False
  assume "R s" and m: "\<And>s. R s \<Longrightarrow> post Q m s"
  then have "post Q m (s\<lparr>sv_db_locked := True\<rparr>)" by (intro m R_lock)
  with False show ?thesis
    unfolding post_with_db_lock by (auto simp: post_def Q_unlock split: prod.split)
qed (simp add: post_with_db_lock Q_block)

lemmas post_ends = post_reply post_error Q_raise Q_block Q_stop

lemma post_server_ops:
  "R s \<Longrightarrow> post Q (op_set cr sock u x) s"
  "R s \<Longrightarrow> post Q (op_get cr sock u x) s"
  "R s \<Longrightarrow> post Q (op_delete cr sock u x) s"
  "R s \<Longrightarrow> post Q (op_list cr sock u) s"
  by (auto simp: op_set_def op_get_def op_delete_def op_list_def post_simps post_ends Let_def R_db
      intro!: post_locked split: sum.split)

lemma post_book_ops:
  "R s \<Longrightarrow> post Q (op_register cr sock u x) s"
  "R s \<Longrightarrow> post Q (op_unregister cr sock u x) s"
  "R s \<Longrightarrow> post Q (op_whoami cr sock u) s"
  "R s \<Longrightarrow> post Q (op_whohas cr sock u x) s"
  by (auto simp: op_register_def op_unregister_def op_whoami_def op_whohas_def post_simps post_ends
      Let_def R_own R_book split: sum.split option.split)

lemma post_mail_ops:
  "R s \<Longrightarrow> post Q (op_put_inbox cr rnd sock u x) s"
  "R s \<Longrightarrow> post Q (op_get_inbox cr sock u) s"
  "R s \<Longrightarrow> post Q (op_put_outbox cr sock u x) s"
  "R s \<Longrightarrow> post Q (op_get_outbox cr sock u x) s"
  by (auto simp: op_put_inbox_def op_get_inbox_def op_put_outbox_def op_get_outbox_def post_simps
      post_ends Let_def R_own R_mail R_answer split: sum.split option.split list.split)

lemma post_dispatch: "R s \<Longrightarrow> post Q (dispatch cr rnd sock u data) s"
  by (simp add: dispatch_def server_request_def client_request_def post_server_ops post_book_ops
      post_mail_ops post_ends post_simps split: list.split)

end

section \<open>One answer\<close>

text \<open>With \<open>key\<close> and \<open>n\<close> the session's cipher and counter before the request: nothing was sent
  and the handler does not go on to the next request, or exactly one packet was sent, built
  under \<open>n\<close>, and the counter is \<open>n + 1\<close>.\<close>

definition answers_once :: "crypto \<Rightarrow> sock \<Rightarrow> pystr \<Rightarrow> bytes option \<Rightarrow> nat \<Rightarrow> ctl post" where
  "answers_once cr sock u key n res \<longleftrightarrow>
     (case res of (r, es, s') \<Rightarrow>
        session_cipher s' u = key \<and>
        (es = [] \<and> r \<noteq> Return Next \<and> session_tx s' u = n \<or>
         (\<exists>packet data. es = [SendAll sock packet] \<and> r = Return Next \<and> session_tx s' u = Suc n \<and>
            construct_packet cr data key n compressor_level = Inr packet)))"

definition session_is :: "pystr \<Rightarrow> bytes option \<Rightarrow> nat \<Rightarrow> server \<Rightarrow> bool" where
  "session_is u key n s \<longleftrightarrow> session_cipher s u = key \<and> session_tx s u = n"

interpretation once: request_post cr sock u "session_is u key n" "answers_once cr sock u key n"
proof unfold_locales
  fix s t c r
  assume "session_is u key n s" "map_of (sv_client_db s) t = Some c"
  then show "session_is u key n
      (s\<lparr>sv_client_db := dict_setitem (sv_client_db s) t (c\<lparr>cl_inbox := cl_inbox c @ [r]\<rparr>)\<rparr>)"
    by (auto simp: session_is_def session_of_put session_fields)
next
  fix s t c i p
  assume "session_is u key n s" "map_of (sv_client_db s) t = Some c"
  then show "session_is u key n (s\<lparr>sv_client_db := dict_setitem (sv_client_db s) t
      (c\<lparr>cl_outbox := dict_setitem (cl_outbox c) i p\<rparr>)\<rparr>)"
    by (auto simp: session_is_def session_of_put session_fields)
qed (auto simp: session_is_def answers_once_def session_of_put session_fields split: if_splits)

section \<open>The other sessions\<close>

text \<open>What a request of another session may do to a session: append to its inbox and store in its
  outbox.\<close>

definition peer_ok :: "client \<Rightarrow> client \<Rightarrow> bool" where
  "peer_ok c c' \<longleftrightarrow> prefix (cl_inbox c) (cl_inbox c') \<and>
     dom (map_of (cl_outbox c)) \<subseteq> dom (map_of (cl_outbox c')) \<and>
     c'\<lparr>cl_inbox := [], cl_outbox := []\<rparr> = c\<lparr>cl_inbox := [], cl_outbox := []\<rparr>"

definition leaves_peers :: "pystr \<Rightarrow> server \<Rightarrow> server \<Rightarrow> bool" where
  "leaves_peers u s0 s \<longleftrightarrow>
     (\<forall>v. v \<noteq> u \<longrightarrow> rel_option peer_ok (map_of (sv_client_db s0) v) (map_of (sv_client_db s) v))"

lemma peer_ok_refl [simp]: "peer_ok c c"
  by (simp add: peer_ok_def)

lemma peer_ok_mail: "peer_ok c0 c \<Longrightarrow> peer_ok c0 (c\<lparr>cl_inbox := cl_inbox c @ [r]\<rparr>)"
  by (simp add: peer_ok_def)

lemma peer_ok_answer: "peer_ok c0 c \<Longrightarrow> peer_ok c0 (c\<lparr>cl_outbox := dict_setitem (cl_outbox c) i p\<rparr>)"
  by (auto simp: peer_ok_def map_of_setitem)

lemma leaves_peers_put:
  assumes "leaves_peers u s0 s" and "map_of (sv_client_db s) t = Some c"
    and "t = u \<or> (\<forall>c0. peer_ok c0 c \<longrightarrow> peer_ok c0 c')"
  shows "leaves_peers u s0 (s\<lparr>sv_client_db := dict_setitem (sv_client_db s) t c'\<rparr>)"
  unfolding leaves_peers_def
proof (intro allI impI)
  fix v
  assume v: "v \<noteq> u"
  with assms(1) have r: "rel_option peer_ok (map_of (sv_client_db s0) v) (map_of (sv_client_db s) v)"
    by (simp add: leaves_peers_def)
  show "rel_option peer_ok (map_of (sv_client_db s0) v)
      (map_of (sv_client_db (s\<lparr>sv_client_db := dict_setitem (sv_client_db s) t c'\<rparr>)) v)"
    using r v assms(2,3) by (cases "v = t") (auto simp: map_of_setitem option_rel_Some2)
qed

lemma leaves_peers_tables [simp]:
  "leaves_peers u s0 (s\<lparr>sv_db := d\<rparr>) = leaves_peers u s0 s"
  "leaves_peers u s0 (s\<lparr>sv_db_locked := b\<rparr>) = leaves_peers u s0 s"
  "leaves_peers u s0 (s\<lparr>sv_address_book := b'\<rparr>) = leaves_peers u s0 s"
  by (simp_all add: leaves_peers_def)

interpretation peers: request_post cr sock u "leaves_peers u s0" "\<lambda>(r, es, s'). leaves_peers u s0 s'"
  by unfold_locales (auto intro: leaves_peers_put peer_ok_mail peer_ok_answer)

section \<open>Properties\<close>

text \<open>C14: reply discipline. Whatever the bytes of a request and the state of the server, the
  dispatcher either sends nothing and does not go on to the next request, or sends exactly one
  packet on the session's connection, built with the session's cipher and its current counter,
  and moves the counter by exactly one. No counter value is used for two packets.\<close>

theorem request_reply_discipline:
  "answers_once cr sock u (session_cipher s u) (session_tx s u) (dispatch cr rnd sock u data s)"
proof -
  have "session_is u (session_cipher s u) (session_tx s u) s" by (simp add: session_is_def)
  from once.post_dispatch [OF this] show ?thesis by (simp add: post_def)
qed

text \<open>C15: isolation. Whatever the bytes of a request, it leaves the connection, cipher, counters,
  identity and addresses of every other session as they were; another session's inbox can only
  grow at its end, and its outbox can only gain or replace responses.\<close>

theorem request_isolation:
  "case dispatch cr rnd sock u data s of (r, es, s') \<Rightarrow> leaves_peers u s s'"
proof -
  have "leaves_peers u s s" by (simp add: leaves_peers_def option.rel_refl)
  from peers.post_dispatch [OF this] show ?thesis by (simp add: post_def)
qed

text \<open>The opcode. Of the first byte only bit 7 and the low nibble are looked at, and a byte
  that names no operation is answered with error 4 and changes nothing.\<close>

theorem unknown_opcode_answered:
  assumes "aead_ok cr" and "zstd_ok cr" and "session_ready s u"
    and "if ty AND 0x80 \<noteq> 0 then ty AND 0xF \<notin> {1, 2, 3, 4, 5, 6, 7, 8} else ty AND 0xF \<notin> {1, 2, 3, 4, 5}"
  shows "served cr sock u (err_answer 4) s (office_of s) (dispatch cr rnd sock u (ty # x) s) \<and>
    dispatch cr rnd sock u (ty' # x) = dispatch cr rnd sock u ((ty' AND 0x8F) # x)"
  using assms error_served [OF assms(1-3), of s "office_of s" 4]
  by (auto simp: dispatch_def server_request_def client_request_def and.assoc split: if_splits)

theorem unknown_opcode_answered_witness:
  "served toy_crypto (Sock 1) alice (err_answer 4) two_sessions (office_of two_sessions)
     (dispatch toy_crypto [] (Sock 1) alice [0x89, 1, 2] two_sessions)"
  using unknown_opcode_answered [OF toy_aead_ok toy_zstd_ok,
      where s = two_sessions and u = alice and ty = "0x89" and sock = "Sock 1" and rnd = "[]" and x = "[1, 2]"]
  by (simp add: session_ready_def)

end
