(* ===== verification/Bounds.thy ===== *)
theory Bounds
  imports Discipline
begin

text \<open>
  How much a connection can make the server send: at most one packet per request, and a request
  takes at least the six bytes of its header. This holds for every stream, honest or not.
\<close>

fun is_send :: "effect \<Rightarrow> bool" where
  "is_send (SendAll sock data) = True"
| "is_send _ = False"

definition sends :: "effect list \<Rightarrow> nat" where
  "sends es = length (filter is_send es)"

lemma sends_simps [simp]:
  "sends [] = 0" "sends (e # es) = (if is_send e then 1 else 0) + sends es" "sends (es @ es') = sends es + sends es'"
  by (simp_all add: sends_def)

lemma answers_once_sends: "answers_once cr sock u key n (r, es, s') \<Longrightarrow> sends es \<le> 1"
  by (auto simp: answers_once_def)

lemma dispatch_sends: "dispatch cr rnd sock u data s = (r, es, s') \<Longrightarrow> sends es \<le> 1"
  using once.post_dispatch [of u "session_cipher s u" "session_tx s u" s cr sock rnd data]
  by (simp add: session_is_def post_def answers_once_sends [simplified])

lemma error_sends: "error_next cr sock u n s = (r, es, s') \<Longrightarrow> sends es \<le> 1"
  using once.post_error [of u "session_cipher s u" "session_tx s u" s cr sock n]
  by (simp add: session_is_def post_def answers_once_sends [simplified])

text \<open>A postcondition of a sequence from one of its first part.\<close>

lemma post_seq:
  assumes "post P m s" and "\<And>x es s1. P (Return x, es, s1) \<Longrightarrow> post (\<lambda>(r, es', s2). Q (r, es @ es', s2)) (k x) s1"
    and "\<And>e es s1. P (Raise e, es, s1) \<Longrightarrow> Q (Raise e, es, s1)"
    and "\<And>es s1. P (Block, es, s1) \<Longrightarrow> Q (Block, es, s1)"
  shows "post Q (and_then m k) s"
proof -
  obtain r es s1 where m: "m s = (r, es, s1)" by (cases "m s")
  show ?thesis
  proof (cases r)
    case (Return x)
    then show ?thesis
      using assms(1) assms(2) [of x es s1] m by (auto simp: post_def and_then_def split: prod.splits)
  qed (use assms(1,3,4) m in \<open>simp_all add: post_def and_then_def\<close>)
qed

definition sends_once :: "'a post" where
  "sends_once res \<longleftrightarrow> sends (fst (snd res)) \<le> 1"

definition frame_sends :: "bytes option post" where
  "frame_sends res \<longleftrightarrow> sends_once res \<and> (\<forall>d. fst res = Return (Some d) \<longrightarrow> fst (snd res) = [])"

lemma post_error_sends: "post sends_once (error_next cr sock u n) s"
  unfolding post_def sends_once_def by (metis error_sends prod.collapse)

lemma post_frame_sends: "post frame_sends (handle_frame cr sock u frame) s"
proof (cases "map_of (sv_client_db s) u")
  case (Some c)
  have err: "post frame_sends (and_then (error_next cr sock u code)
      (\<lambda>_. and_then (emit (CloseSock sock)) (\<lambda>_. ret None))) s" for code s
    by (rule post_seq [OF post_error_sends]) (auto simp: sends_once_def frame_sends_def post_def act_simps)
  show ?thesis
    using Some err
    by (auto simp: handle_frame_def post_simps sends_once_def frame_sends_def to_bytes_little_def
        split: option.split sum.split prod.split)
qed (simp add: handle_frame_def post_simps sends_once_def frame_sends_def)

lemma handle_packet_sends: "post sends_once (handle_packet cr rnd sock u frame) s"
  unfolding handle_packet_def
  by (rule post_seq [OF post_frame_sends])
    (auto simp: frame_sends_def sends_once_def post_simps post_def act_simps dest: dispatch_sends
      split: option.splits prod.splits)

lemma handle_read_sends:
  assumes "handle_read cr rnd sock u i s = (r, es, s')" shows "sends es \<le> 1"
proof -
  have p: "handle_packet cr rnd sock u f s = (r, es, s') \<Longrightarrow> sends es \<le> 1" for f r es s'
    using handle_packet_sends [of cr rnd sock u f s] by (simp add: post_def sends_once_def)
  show ?thesis
  proof (cases i)
    case (FrameError e)
    then show ?thesis
      using assms handle_packet_none [of cr rnd sock u s]
      by (auto simp: handle_read_def act_simps ERR_DISPATCH_def split: if_splits)
  qed (use assms p in \<open>auto simp: handle_read_def\<close>)
qed

lemma handler_loop_sends:
  "handler_loop cr rnd sock u n b cs s = (r, es, s') \<Longrightarrow> sends es \<le> (length b + length (concat cs)) div 6 + 1"
proof (induction cr rnd sock u n b cs arbitrary: s r es s' rule: handler_loop.induct)
  case (1 cr rnd sock u n b cs)
  show ?case
  proof (cases "receive_frame b cs")
    case (Frame f b' cs')
    have len: "length f + length b' + length (concat cs') \<le> length b + length (concat cs)" "6 \<le> length f"
      using receive_frame_shorter [OF Frame] by simp_all
    obtain o1 es1 s1 where h: "handle_read cr (rnd n) sock u (Frame f b' cs') s = (o1, es1, s1)"
      by (cases "handle_read cr (rnd n) sock u (Frame f b' cs') s")
    have h1: "sends es1 \<le> 1" by (rule handle_read_sends [OF h])
    show ?thesis
    proof (cases "o1 = Return Next")
      case True
      obtain r2 es2 s2 where l: "handler_loop cr rnd sock u (Suc n) b' cs' s1 = (r2, es2, s2)"
        by (cases "handler_loop cr rnd sock u (Suc n) b' cs' s1")
      have "sends es2 \<le> (length b' + length (concat cs')) div 6 + 1"
        using "1.IH" [OF Frame l] by simp
      moreover have "es = es1 @ es2"
        using "1.prems" True h l by (subst (asm) handler_loop.simps) (simp add: Frame and_then_def)
      moreover have "(length b' + length (concat cs')) div 6 + 1 \<le> (length b + length (concat cs)) div 6"
        using len by linarith
      ultimately show ?thesis using h1 by simp
    next
      case False
      then have "es = es1"
        using "1.prems" h
        by (subst (asm) handler_loop.simps)
          (auto simp: Frame and_then_def ret_def split: outcome.splits ctl.splits)
      then show ?thesis using h1 by simp
    qed
  next
    case (FrameError e)
    then obtain e2 es2 where "handle_read cr (rnd n) sock u (FrameError e) s = (Raise e2, es2, s)"
      using handle_read_raises [of "FrameError e" cr "rnd n" sock u s] by auto
    with "1.prems" FrameError show ?thesis
      by (subst (asm) handler_loop.simps) (auto simp: and_then_def dest: handle_read_sends)
  next
    case Eof
    then obtain e2 es2 where "handle_read cr (rnd n) sock u Eof s = (Raise e2, es2, s)"
      using handle_read_raises [of Eof cr "rnd n" sock u s] by auto
    with "1.prems" Eof show ?thesis
      by (subst (asm) handler_loop.simps) (auto simp: and_then_def dest: handle_read_sends)
  qed
qed

text \<open>C27: what a connection can cost. On any stream at all, honest or not, a handler that has read
  \<open>n\<close> bytes has sent at most \<open>n div 6 + 1\<close> packets when it ends.\<close>

theorem handler_sends_bounded:
  assumes "handle_client cr rnd sock u chunks s = (r, es, s')"
  shows "sends es \<le> length (concat chunks) div 6 + 1"
proof (cases "map_of (sv_client_db s) u")
  case (Some c)
  obtain o1 es1 s1 where l: "handler_loop cr rnd sock u 0 [] chunks s = (o1, es1, s1)"
    by (cases "handler_loop cr rnd sock u 0 [] chunks s")
  have "sends es = sends es1 \<or> sends es = 0"
  proof (cases "cl_cipher c = None")
    case True
    then show ?thesis using assms Some by (simp add: handle_client_def act_simps)
  next
    case key: False
    have "handle_client cr rnd sock u chunks s =
        and_then (handler_loop cr rnd sock u 0 [] chunks) (\<lambda>clean_exit. cleanup sock u) s"
      using key by (auto simp: handle_client_def get_session_eval(1) [OF Some])
    then show ?thesis
      using assms l by (cases o1) (auto simp: and_then_def cleanup_eval split: if_splits)
  qed
  then show ?thesis using handler_loop_sends [OF l] by auto
qed (use assms in \<open>simp add: handle_client_def act_simps\<close>)

theorem handler_sends_bounded_witness:
  "\<exists>r es s'. handle_client toy_crypto (\<lambda>_. []) (Sock 1) alice [[1, 2, 3], [4, 5, 6, 7]] two_sessions = (r, es, s') \<and>
     sends es \<le> 2"
proof -
  obtain r es s' where "handle_client toy_crypto (\<lambda>_. []) (Sock 1) alice [[1, 2, 3], [4, 5, 6, 7]] two_sessions = (r, es, s')"
    by (metis prod.collapse)
  with handler_sends_bounded [OF this] show ?thesis by auto
qed

end
