(* ===== verification/Waiting.thy ===== *)
theory Waiting
  imports Discipline
begin


definition ends :: "'a post" where
  "ends = (\<lambda>(r, es, s'). r \<noteq> Block)"

lemma ends_simps [post_simps, simp]: "ends (Return x, es, s)" "ends (Raise e, es, s)" "\<not> ends (Block, es, s)"
  "(\<lambda>(r, es, s'). ends (r, es, f s')) = ends"
  by (auto simp: ends_def)

lemma reply_ends [post_simps]: "post ends (reply_next cr sock u data) s"
proof (cases "map_of (sv_client_db s) u")
  case (Some c)
  then show ?thesis
    by (cases "construct_packet cr data (cl_cipher c) (cl_tx_nonce c) compressor_level")
      (simp_all add: reply_next_def send_reply_def post_def act_simps)
qed (simp add: reply_next_def send_reply_def post_def act_simps)










end
