(* ===== verification/Gsyncio.thy ===== *)
theory Gsyncio
  imports Impl
begin

text \<open>
  \<^verbatim>\<open>pipebomb/gsyncio/__init__.py\<close> and the Go library \<^verbatim>\<open>gsyncio.go\<close> behind it.
  The cancellation flags are memory cells shared between Python and Go, and the entries of the
  Go side are reached through pointers, so both live in an explicit store: a cell or an entry is
  its address. A goroutine is a value with a phase, run one step at a time by \<open>go_run\<close>, which
  gives every interleaving with the calls from Python. A Python callback is a number; \<open>go_calls\<close>
  records the entries whose callback was entered.

  The functions of the wrapper exist only when the extension module was found (\<open>gs_ffi\<close>); cffi
  refuses an integer that does not fit a C \<open>int32_t\<close> with \<open>OverflowError\<close> and a missing pointer
  with \<open>TypeError\<close>.
\<close>

section \<open>Finding the extension module\<close>

datatype platform = Win | Darwin | OtherOs

definition path_join :: "pystr \<Rightarrow> pystr \<Rightarrow> pystr" where
  "path_join dir name = dir @ py ''/'' @ name"

definition path_parent :: "pystr \<Rightarrow> pystr" where
  "path_parent p = rev (drop 1 (dropWhile (\<lambda>c. c \<noteq> 47) (rev p)))"

text \<open>The files tried in order: the folder of \<open>GSYNCIO_PATH\<close> when it is set, \<open>dist\<close> beside the
  package, the package itself. \<open>resolve\<close> and \<open>exists\<close> are the file system.\<close>

definition first_existing :: "(pystr \<Rightarrow> bool) \<Rightarrow> pystr list \<Rightarrow> pystr option" where
  "first_existing exists candidates = find exists candidates"

definition env_folder :: "(pystr \<Rightarrow> pystr) \<Rightarrow> pystr option \<Rightarrow> pystr list" where
  "env_folder resolve env_path =
     (case env_path of None \<Rightarrow> [] | Some p \<Rightarrow> if p = [] then [] else [resolve p])"

definition find_cffi_ext ::
  "platform \<Rightarrow> pystr option \<Rightarrow> (pystr \<Rightarrow> pystr) \<Rightarrow> (pystr \<Rightarrow> bool) \<Rightarrow> pystr \<Rightarrow> pystr option" where
  "find_cffi_ext platform env_path resolve exists this_file =
     (let comp_ext = (if platform = Win then py ''.pyd'' else py ''.so'');
          name = py ''gsyncio_cffi'' @ comp_ext;
          parent_dist = path_join (path_parent (path_parent (path_parent (resolve this_file)))) (py ''dist'');
          pkg_dir = path_parent (resolve this_file)
      in first_existing exists
           (map (\<lambda>folder. path_join folder name) (env_folder resolve env_path @ [parent_dist, pkg_dir])))"

section \<open>State\<close>

record go_entry =
  ge_callback :: nat
  ge_canceled :: nat \<comment> \<open>address of the flag\<close>

record goroutine =
  gr_id :: int
  gr_entry :: nat
  gr_checks :: bool \<comment> \<open>looks at the flag before it calls\<close>
  gr_called :: bool

record gsyncio =
  gs_ffi :: bool
  gs_gil :: bool
  gs_lib :: bool
  gs_tasks :: "(int, nat) dict"
  gs_live :: "nat list"
  gs_results :: "int list"
  gs_flags :: "(int, nat) dict"
  go_cells :: "int list"
  go_entries :: "go_entry list"
  go_callbacks :: "(int, nat) dict"
  go_cancellation :: "(int, bool) dict"
  go_next :: "64 word"
  go_routines :: "goroutine list"
  go_calls :: "nat list"

text \<open>\<open>_init\<close>: \<open>ffi\<close> is bound as soon as the module has been executed, before the two GIL
  functions are looked up, so a failing lookup leaves it bound. The flags say whether a loader was
  found, whether executing the module and looking the functions up succeeded.\<close>

definition gsyncio_init :: "pystr option \<Rightarrow> bool \<Rightarrow> bool \<Rightarrow> bool \<Rightarrow> gsyncio" where
  "gsyncio_init cffi_path loader executed gil_found =
     (let ffi = (cffi_path \<noteq> None \<and> loader \<and> executed)
      in \<lparr>gs_ffi = ffi, gs_gil = (ffi \<and> gil_found), gs_lib = False, gs_tasks = [], gs_live = [],
          gs_results = [], gs_flags = [], go_cells = [], go_entries = [], go_callbacks = [],
          go_cancellation = [], go_next = 1, go_routines = [], go_calls = []\<rparr>)"

definition load_go_library :: "gsyncio \<Rightarrow> gsyncio" where
  "load_go_library st = st\<lparr>gs_lib := True\<rparr>"

section \<open>The Go library\<close>

definition go_start :: "nat \<Rightarrow> int \<Rightarrow> nat \<Rightarrow> bool \<Rightarrow> gsyncio \<Rightarrow> gsyncio" where
  "go_start callback task_id canceled checks st =
     (let entry = length (go_entries st)
      in st\<lparr>go_entries := go_entries st @ [\<lparr>ge_callback = callback, ge_canceled = canceled\<rparr>],
            go_cancellation := dict_setitem (go_cancellation st) task_id False,
            go_callbacks := dict_setitem (go_callbacks st) task_id entry,
            go_routines := go_routines st @
              [\<lparr>gr_id = task_id, gr_entry = entry, gr_checks = checks, gr_called = False\<rparr>]\<rparr>)"

definition go_StartGoTaskWithResult :: "nat \<Rightarrow> int \<Rightarrow> nat \<Rightarrow> gsyncio \<Rightarrow> gsyncio" where
  "go_StartGoTaskWithResult callback task_id canceled st = go_start callback task_id canceled True st"

text \<open>The sentinel \<open>noCancel\<close> is a fresh cell.\<close>

definition go_StartGoTask :: "nat \<Rightarrow> int \<Rightarrow> gsyncio \<Rightarrow> gsyncio" where
  "go_StartGoTask callback task_id st =
     go_start callback task_id (length (go_cells st)) False (st\<lparr>go_cells := go_cells st @ [0]\<rparr>)"

definition go_GetNextTaskId :: "gsyncio \<Rightarrow> int \<times> gsyncio" where
  "go_GetNextTaskId st =
     (let task_id = go_next st in (sint (ucast task_id :: 32 word), st\<lparr>go_next := task_id + 1\<rparr>))"

definition go_CancelGoTask :: "int \<Rightarrow> gsyncio \<Rightarrow> gsyncio" where
  "go_CancelGoTask task_id st =
     (let st = (case map_of (go_callbacks st) task_id of None \<Rightarrow> st
                | Some entry \<Rightarrow>
                    st\<lparr>go_cells := go_cells st @ [1],
                       go_entries := (go_entries st)[entry :=
                         (go_entries st ! entry)\<lparr>ge_canceled := length (go_cells st)\<rparr>]\<rparr>)
      in st\<lparr>go_cancellation := dict_setitem (go_cancellation st) task_id True\<rparr>)"

definition go_IsCanceled :: "int \<Rightarrow> gsyncio \<Rightarrow> bool" where
  "go_IsCanceled task_id st =
     (case map_of (go_cancellation st) task_id of None \<Rightarrow> True | Some canceled \<Rightarrow> canceled)"

text \<open>The flag a goroutine sees through its entry, and one step of the \<open>i\<close>-th goroutine: it enters
  the callback, or it ends, and its deferred function removes its task ID from both maps.\<close>

definition canceled_flag :: "gsyncio \<Rightarrow> nat \<Rightarrow> int" where
  "canceled_flag st entry = go_cells st ! ge_canceled (go_entries st ! entry)"

definition go_run :: "nat \<Rightarrow> gsyncio \<Rightarrow> gsyncio option" where
  "go_run i st =
     (if length (go_routines st) \<le> i then None
      else let g = go_routines st ! i
           in if gr_called g \<or> (gr_checks g \<and> canceled_flag st (gr_entry g) \<noteq> 0)
              then Some (st\<lparr>go_cancellation := AList.delete (gr_id g) (go_cancellation st),
                            go_callbacks := AList.delete (gr_id g) (go_callbacks st),
                            go_routines := take i (go_routines st) @ drop (Suc i) (go_routines st)\<rparr>)
              else Some (st\<lparr>go_routines := (go_routines st)[i := g\<lparr>gr_called := True\<rparr>],
                            go_calls := go_calls st @ [gr_entry g]\<rparr>))"

section \<open>The Python wrapper\<close>

definition fits_int32 :: "int \<Rightarrow> bool" where
  "fits_int32 n \<longleftrightarrow> - (2 ^ 31) \<le> n \<and> n < 2 ^ 31"

definition StartGoTask :: "nat \<Rightarrow> int \<Rightarrow> gsyncio \<Rightarrow> unit result \<times> gsyncio" where
  "StartGoTask callback task_id st =
     (if \<not> gs_lib st then (Inl RuntimeError, st)
      else let st = st\<lparr>gs_live := gs_live st @ [callback]\<rparr>
           in if \<not> fits_int32 task_id then (Inl OverflowError, st)
              else if \<not> gs_gil st then (Inl TypeError, st)
              else let st = go_StartGoTask callback task_id st
                   in (Inr (), st\<lparr>gs_tasks := dict_setitem (gs_tasks st) task_id callback\<rparr>))"

definition StartGoTaskWithResult :: "nat \<Rightarrow> int \<Rightarrow> gsyncio \<Rightarrow> unit result \<times> gsyncio" where
  "StartGoTaskWithResult callback task_id st =
     (if \<not> gs_lib st then (Inl RuntimeError, st)
      else let canceled_flag = length (go_cells st);
               st = st\<lparr>go_cells := go_cells st @ [0],
                       gs_flags := dict_setitem (gs_flags st) task_id canceled_flag\<rparr>;
               st = (if task_id \<in> set (gs_results st) then st
                     else st\<lparr>gs_results := gs_results st @ [task_id]\<rparr>);
               st = st\<lparr>gs_live := gs_live st @ [callback]\<rparr>
           in if \<not> fits_int32 task_id then (Inl OverflowError, st)
              else if \<not> gs_gil st then (Inl TypeError, st)
              else (Inr (), go_StartGoTaskWithResult callback task_id canceled_flag st))"

definition CancelGoTask :: "int \<Rightarrow> gsyncio \<Rightarrow> unit result \<times> gsyncio" where
  "CancelGoTask task_id st =
     (if \<not> gs_lib st then (Inl RuntimeError, st)
      else if \<not> fits_int32 task_id then (Inl OverflowError, st)
      else let st = go_CancelGoTask task_id st
           in (Inr (), case map_of (gs_flags st) task_id of None \<Rightarrow> st
                       | Some flag \<Rightarrow> st\<lparr>go_cells := (go_cells st)[flag := 1]\<rparr>))"

definition IsCanceled :: "int \<Rightarrow> gsyncio \<Rightarrow> bool result" where
  "IsCanceled task_id st =
     (if \<not> gs_lib st then Inl RuntimeError
      else if \<not> fits_int32 task_id then Inl OverflowError
      else Inr (go_IsCanceled task_id st))"

definition get_next_task_id :: "gsyncio \<Rightarrow> int result \<times> gsyncio" where
  "get_next_task_id st =
     (if \<not> gs_lib st then (Inl RuntimeError, st)
      else case go_GetNextTaskId st of (task_id, st) \<Rightarrow> (Inr task_id, st))"

end
