(* ===== verification/Exports.thy ===== *)
theory Exports
  imports Gsyncio
begin

text \<open>
  What the modules export. A module is the list of the names it has bound and its \<open>__all__\<close>;
  \<open>import_star\<close> is \<^verbatim>\<open>from module import *\<close>. The package binds its submodules, but its \<open>__all__\<close>
  (\<^verbatim>\<open>pipebomb/__init__.py\<close>) lists the names the submodules export.
\<close>

section \<open>Lists of names\<close>

definition client_all :: "pystr list" where
  "client_all = [py ''RawClient'', py ''Client'']"

definition server_all :: "pystr list" where
  "server_all = [py ''Server'', py ''serialize'', py ''deserialize'']"

definition impl_all :: "pystr list" where
  "impl_all = [py ''SocketAddress'', py ''SocketFactory'', py ''TcpSocketFactory'', py ''UnixSocketFactory'',
     py ''tcp_factory'', py ''tcp_server_factory'', py ''dict_factory'', py ''unix_factory'',
     py ''DEFAULT_UNIX_SOCKET_PATH'']"

definition utils_all :: "pystr list" where
  "utils_all = [py ''err_to_human_readable'', py ''Request'', py ''Response'', py ''run_task_async'',
     py ''CancelableTask'', py ''_gsyncio_available'', py ''_init_gsyncio'']"

definition gsyncio_all :: "pystr list" where
  "gsyncio_all = [py ''load_go_library'', py ''StartGoTask'', py ''StartGoTaskWithResult'', py ''CancelGoTask'',
     py ''IsCanceled'', py ''get_next_task_id'']"

definition package_all :: "pystr list" where
  "package_all = client_all @ server_all @ impl_all @ gsyncio_all"

text \<open>The stub \<^verbatim>\<open>__init__.pyi\<close> promises the names of \<open>utils\<close> as well.\<close>

definition stub_all :: "pystr list" where
  "stub_all = client_all @ server_all @ impl_all @ utils_all @ gsyncio_all"

section \<open>Names bound\<close>

text \<open>Without the double-underscore names every module has. The package: the four modules it imports, \<open>utils\<close>, which those import as a submodule, and \<open>cast\<close>.\<close>

definition package_names :: "pystr list" where
  "package_names = [py ''client'', py ''server'', py ''impl'', py ''gsyncio'', py ''utils'', py ''cast'']"

text \<open>The wrapper of the Go library defines its functions only when the extension module was loaded.\<close>

definition gsyncio_names :: "gsyncio \<Rightarrow> pystr list" where
  "gsyncio_names st =
     [py ''Callable'', py ''Optional'', py ''List'', py ''Sequence'', py ''ctypes'', py ''os'', py ''sys'',
      py ''threading'', py ''Path'', py ''logging'', py ''logger'', py ''NO_GSYNCIO_CFFI'', py ''ffi'',
      py ''_gil_ensure_fn'', py ''_gil_release_fn'', py ''gsyncio_lib'', py ''tasks'', py ''_live_callbacks'',
      py ''_task_results'', py ''_lock'', py ''_cancel_flags'', py ''_find_cffi_ext'', py ''_init''] @
     (if gs_ffi st then [py ''load_go_library'', py ''StartGoTask'', py ''StartGoTaskWithResult'',
        py ''CancelGoTask'', py ''IsCanceled'', py ''get_next_task_id''] else [])"

text \<open>The first name of \<open>__all__\<close> that is not bound raises \<open>AttributeError\<close>; the names before it are bound
  in the importing module already.\<close>

fun import_star :: "pystr list \<Rightarrow> pystr list \<Rightarrow> unit result \<times> pystr list" where
  "import_star bound [] = (Inr (), [])"
| "import_star bound (name # names) =
     (if name \<notin> set bound then (Inl AttributeError, [])
      else case import_star bound names of (r, imported) \<Rightarrow> (r, name # imported))"

section \<open>Properties\<close>

lemma import_star_ok: "set names \<subseteq> set bound \<Longrightarrow> import_star bound names = (Inr (), names)"
  by (induction names) auto

text \<open>Star imports. \<^verbatim>\<open>from pipebomb import *\<close> raises \<open>AttributeError\<close> before it has imported anything,
  because none of the names the package exports is bound in it;
  \<^verbatim>\<open>from pipebomb.gsyncio import *\<close> does so exactly when the extension module is missing. The names
  the type stub promises beyond \<open>__all__\<close> are those of \<open>utils\<close>.\<close>

theorem star_imports:
  "import_star package_names package_all = (Inl AttributeError, []) \<and>
   set package_all \<inter> set package_names = {} \<and>
   import_star (gsyncio_names st) gsyncio_all =
     (if gs_ffi st then (Inr (), gsyncio_all) else (Inl AttributeError, [])) \<and>
   set stub_all - set package_all = set utils_all"
proof -
  have missing: "import_star (gsyncio_names st) gsyncio_all = (Inl AttributeError, [])" if "\<not> gs_ffi st"
    using that by (simp add: gsyncio_all_def gsyncio_names_def py_def)
  have bound: "set gsyncio_all \<subseteq> set (gsyncio_names st)" if "gs_ffi st"
    using that by (simp add: gsyncio_all_def gsyncio_names_def)
  have "import_star package_names package_all = (Inl AttributeError, [])"
    by (simp add: package_names_def package_all_def client_all_def py_def)
  moreover have "set package_all \<inter> set package_names = {}"
    by (simp add: package_names_def package_all_def client_all_def server_all_def impl_all_def gsyncio_all_def py_def)
  moreover have "set utils_all \<inter> set package_all = {}"
    by (simp add: package_all_def client_all_def server_all_def impl_all_def gsyncio_all_def utils_all_def py_def)
  then have "set stub_all - set package_all = set utils_all"
    by (auto simp: stub_all_def package_all_def)
  ultimately show ?thesis using missing import_star_ok [OF bound] by simp
qed

end
