(* ===== verification/GsyncioProofs.thy ===== *)
theory GsyncioProofs
  imports Gsyncio
begin

text \<open>
  What holds of the goroutine tasks under every interleaving of Python calls and goroutines: the
  store stays well formed, a cancelled task does not enter its callback, and how far \<open>IsCanceled\<close>
  and the task IDs can be trusted.
\<close>

section \<open>Runs\<close>

text \<open>Calls from Python and steps of goroutines, in any order.\<close>

inductive gs_step :: "gsyncio \<Rightarrow> gsyncio \<Rightarrow> bool" where
  start: "StartGoTask callback task_id st = (r, st') \<Longrightarrow> gs_step st st'"
| start_result: "StartGoTaskWithResult callback task_id st = (r, st') \<Longrightarrow> gs_step st st'"
| cancel: "CancelGoTask task_id st = (r, st') \<Longrightarrow> gs_step st st'"
| next_id: "get_next_task_id st = (r', st') \<Longrightarrow> gs_step st st'"
| run: "go_run i st = Some st' \<Longrightarrow> gs_step st st'"

inductive gs_steps :: "gsyncio \<Rightarrow> gsyncio \<Rightarrow> bool" where
  none: "gs_steps st st"
| more: "gs_steps st st' \<Longrightarrow> gs_step st' st'' \<Longrightarrow> gs_steps st st''"

inductive_cases gs_stepE: "gs_step st st'"

text \<open>The store is well formed: every pointer points at something, and the maps of the library
  name entries that exist.\<close>

definition store_ok :: "gsyncio \<Rightarrow> bool" where
  "store_ok st \<longleftrightarrow>
     (\<forall>g \<in> set (go_routines st). gr_entry g < length (go_entries st)) \<and>
     (\<forall>e \<in> set (go_entries st). ge_canceled e < length (go_cells st)) \<and>
     (\<forall>i e. map_of (go_callbacks st) i = Some e \<longrightarrow> e < length (go_entries st)) \<and>
     (\<forall>i a. map_of (gs_flags st) i = Some a \<longrightarrow> a < length (go_cells st))"




lemma store_ok_simps [simp]:
  "store_ok (st\<lparr>gs_live := l\<rparr>) = store_ok st" "store_ok (st\<lparr>gs_tasks := t\<rparr>) = store_ok st"
  "store_ok (st\<lparr>gs_results := rs\<rparr>) = store_ok st" "store_ok (st\<lparr>go_next := n\<rparr>) = store_ok st"
  "store_ok (st\<lparr>go_cancellation := c\<rparr>) = store_ok st"
  by (simp_all add: store_ok_def)





section \<open>Cancellation\<close>

text \<open>Every goroutine of this entry looks at its flag before it calls; \<open>silenced\<close>: and the flag is set.\<close>

definition guarded :: "nat \<Rightarrow> gsyncio \<Rightarrow> bool" where
  "guarded e st \<longleftrightarrow> e < length (go_entries st) \<and> (\<forall>g \<in> set (go_routines st). gr_entry g = e \<longrightarrow> gr_checks g)"

definition silenced :: "nat \<Rightarrow> gsyncio \<Rightarrow> bool" where
  "silenced e st \<longleftrightarrow> guarded e st \<and> canceled_flag st e \<noteq> 0"


lemma guarded_simps [simp]:
  "guarded e (st\<lparr>gs_live := l\<rparr>) = guarded e st" "guarded e (st\<lparr>gs_tasks := t\<rparr>) = guarded e st"
  "guarded e (st\<lparr>gs_results := rs\<rparr>) = guarded e st" "guarded e (st\<lparr>go_next := n\<rparr>) = guarded e st"
  "guarded e (st\<lparr>gs_flags := f\<rparr>) = guarded e st" "guarded e (st\<lparr>go_cells := cs\<rparr>) = guarded e st"
  "guarded e (go_CancelGoTask i st) = guarded e st"
  by (simp_all add: guarded_def go_CancelGoTask_def Let_def split: option.split)






lemma flag_simps [simp]:
  "canceled_flag (st\<lparr>gs_live := l\<rparr>) e = canceled_flag st e"
  "canceled_flag (st\<lparr>gs_tasks := t\<rparr>) e = canceled_flag st e"
  "canceled_flag (st\<lparr>gs_results := rs\<rparr>) e = canceled_flag st e"
  "canceled_flag (st\<lparr>gs_flags := f\<rparr>) e = canceled_flag st e"
  "canceled_flag (st\<lparr>go_next := n\<rparr>) e = canceled_flag st e"
  by (simp_all add: canceled_flag_def)




lemma calls_start [simp]:
  "go_calls (go_start callback i a checks st) = go_calls st" "go_calls (go_CancelGoTask i st) = go_calls st"
  by (simp_all add: go_start_def go_CancelGoTask_def Let_def split: option.split)



lemma silenced_simps [simp]:
  "silenced e (st\<lparr>gs_live := l\<rparr>) = silenced e st" "silenced e (st\<lparr>gs_tasks := t\<rparr>) = silenced e st"
  "silenced e (st\<lparr>gs_results := rs\<rparr>) = silenced e st" "silenced e (st\<lparr>gs_flags := f\<rparr>) = silenced e st"
  "silenced e (st\<lparr>go_next := n\<rparr>) = silenced e st"
  by (simp_all add: silenced_def)





lemma steps_trans: "gs_steps b c \<Longrightarrow> gs_steps a b \<Longrightarrow> gs_steps a c"
  by (induction rule: gs_steps.induct) (auto intro: gs_steps.more)


section \<open>Properties\<close>


definition loaded :: gsyncio where
  "loaded = load_go_library (gsyncio_init (Some []) True True True)"

lemma cancel_succeeds:
  assumes "gs_lib st" "fits_int32 task_id" obtains st' where "CancelGoTask task_id st = (Inr (), st')"
  using assms by (cases "CancelGoTask task_id st") (auto simp: CancelGoTask_def Let_def)

lemma go_run_runs:
  assumes "i < length (go_routines st)" obtains st' where "go_run i st = Some st'"
  using assms by (cases "go_run i st") (auto simp: go_run_def Let_def split: if_splits)

lemma go_cancel_keeps [simp]:
  "gs_flags (go_CancelGoTask i st) = gs_flags st" "gs_lib (go_CancelGoTask i st) = gs_lib st"
  "go_routines (go_CancelGoTask i st) = go_routines st"
  by (simp_all add: go_CancelGoTask_def Let_def split: option.split)

lemma fits_1 [simp]: "fits_int32 1"
  by (simp add: fits_int32_def)

lemmas gs_eval = loaded_def load_go_library_def gsyncio_init_def StartGoTaskWithResult_def
  go_StartGoTaskWithResult_def StartGoTask_def go_StartGoTask_def go_start_def CancelGoTask_def
  go_CancelGoTask_def IsCanceled_def go_IsCanceled_def go_run_def canceled_flag_def fits_int32_def


text \<open>A task started with \<open>StartGoTask\<close> cannot be cancelled. After \<open>CancelGoTask\<close> the library
  reports it as cancelled, but the goroutine enters the callback all the same.\<close>

theorem plain_task_not_cancelable:
  assumes "StartGoTask callback task_id st = (Inr (), st1)" and "CancelGoTask task_id st1 = (Inr (), st2)"
  shows "IsCanceled task_id st2 = Inr True \<and>
    (\<exists>st3. go_run (length (go_routines st)) st2 = Some st3 \<and>
       go_calls st3 = go_calls st @ [length (go_entries st)] \<and>
       ge_callback (go_entries st3 ! length (go_entries st)) = callback)"
proof -
  have st1: "gs_lib st" "fits_int32 task_id" "gs_gil st"
    "st1 = (go_StartGoTask callback task_id (st\<lparr>gs_live := gs_live st @ [callback]\<rparr>))
       \<lparr>gs_tasks := dict_setitem (gs_tasks st) task_id callback\<rparr>"
    using assms(1) by (auto simp: StartGoTask_def go_StartGoTask_def go_start_def Let_def split: if_splits)
  have "st2 = (case map_of (gs_flags st1) task_id of None \<Rightarrow> go_CancelGoTask task_id st1
      | Some flag \<Rightarrow> (go_CancelGoTask task_id st1)\<lparr>go_cells := (go_cells (go_CancelGoTask task_id st1))[flag := 1]\<rparr>)"
    "gs_lib st1"
    using assms(2) by (auto simp: CancelGoTask_def Let_def split: if_splits)
  then show ?thesis
    using st1
    by (auto simp: IsCanceled_def go_IsCanceled_def go_run_def go_CancelGoTask_def go_StartGoTask_def
        go_start_def Let_def map_of_setitem nth_append split: option.splits)
qed

theorem plain_task_not_cancelable_witness:
  "\<exists>st1 st2 st3. StartGoTask 5 1 loaded = (Inr (), st1) \<and> CancelGoTask 1 st1 = (Inr (), st2) \<and>
     go_run 0 st2 = Some st3 \<and> go_calls st3 = [0]"
proof -
  obtain st1 where s1: "StartGoTask 5 1 loaded = (Inr (), st1)" "gs_lib st1" by (simp add: gs_eval)
  obtain st2 where s2: "CancelGoTask 1 st1 = (Inr (), st2)" using cancel_succeeds [OF s1(2) fits_1] by blast
  from plain_task_not_cancelable [OF s1(1) s2] s1 s2 show ?thesis by (auto simp: gs_eval)
qed

text \<open>What \<open>IsCanceled\<close> reports of a task: not cancelled while it has been started, cancelled
  after \<open>CancelGoTask\<close>, and cancelled as well once it has run to its end.\<close>

theorem is_canceled_reports:
  assumes "StartGoTaskWithResult callback task_id st = (Inr (), st1)"
    and "go_run (length (go_routines st)) st1 = Some st2" and "go_run (length (go_routines st)) st2 = Some st3"
    and "CancelGoTask task_id st1 = (Inr (), st4)"
  shows "IsCanceled task_id st1 = Inr False \<and> go_calls st2 = go_calls st @ [length (go_entries st)] \<and>
    IsCanceled task_id st3 = Inr True \<and> IsCanceled task_id st4 = Inr True"
proof -
  let ?s = "(st\<lparr>go_cells := go_cells st @ [0], gs_flags := dict_setitem (gs_flags st) task_id (length (go_cells st))\<rparr>)"
  have st1: "gs_lib st" "fits_int32 task_id" "gs_gil st"
    "st1 = go_start callback task_id (length (go_cells st)) True
       (?s\<lparr>gs_results := (if task_id \<in> set (gs_results st) then gs_results st else gs_results st @ [task_id]),
          gs_live := gs_live st @ [callback]\<rparr>)"
    using assms(1) by (auto simp: StartGoTaskWithResult_def go_StartGoTaskWithResult_def Let_def split: if_splits)
  then have st2: "st2 = st1\<lparr>go_routines := go_routines st @ [\<lparr>gr_id = task_id, gr_entry = length (go_entries st),
       gr_checks = True, gr_called = True\<rparr>], go_calls := go_calls st @ [length (go_entries st)]\<rparr>"
    using assms(2) by (simp add: go_run_def go_start_def Let_def canceled_flag_def nth_append)
  have "IsCanceled task_id st3 = Inr True"
    using assms(3) st1(1,2) unfolding st2
    by (auto simp: go_run_def Let_def IsCanceled_def go_IsCanceled_def map_of_delete st1(4) go_start_def)
  moreover have "IsCanceled task_id st4 = Inr True"
    using assms(4) st1(1,2)
    by (auto simp: CancelGoTask_def IsCanceled_def go_IsCanceled_def go_CancelGoTask_def Let_def st1(4) go_start_def
        map_of_setitem split: option.splits)
  ultimately show ?thesis
    using st1(1,2) st2 by (simp add: IsCanceled_def go_IsCanceled_def st1(4) go_start_def Let_def map_of_setitem)
qed

theorem is_canceled_reports_witness:
  "\<exists>st1 st2 st3. StartGoTaskWithResult 5 1 loaded = (Inr (), st1) \<and> go_run 0 st1 = Some st2 \<and>
     go_run 0 st2 = Some st3 \<and> IsCanceled 1 st1 = Inr False \<and> IsCanceled 1 st3 = Inr True"
proof -
  obtain st1 where s1: "StartGoTaskWithResult 5 1 loaded = (Inr (), st1)" "gs_lib st1" "length (go_routines st1) = 1"
    by (simp add: gs_eval)
  obtain st2 where s2: "go_run 0 st1 = Some st2" "length (go_routines st2) = 1"
    using s1(1) by (simp add: gs_eval) (auto simp: gs_eval)
  obtain st3 where s3: "go_run 0 st2 = Some st3" using s2(2) go_run_runs [of 0 st2] by fastforce
  obtain st4 where s4: "CancelGoTask 1 st1 = (Inr (), st4)" using cancel_succeeds [OF s1(2) fits_1] by blast
  have "go_routines loaded = []" by (simp add: gs_eval)
  then show ?thesis using is_canceled_reports [OF s1(1) _ _ s4, of st2 st3] s1 s2 s3 by auto
qed

section \<open>Task IDs\<close>

fun take_ids :: "nat \<Rightarrow> gsyncio \<Rightarrow> int result list \<times> gsyncio" where
  "take_ids 0 st = ([], st)"
| "take_ids (Suc n) st =
     (case get_next_task_id st of (i, st) \<Rightarrow> (case take_ids n st of (ids, st) \<Rightarrow> (i # ids, st)))"

lemma next_id_value:
  assumes "k < 2 ^ 31" shows "sint (ucast (of_nat k :: 64 word) :: 32 word) = int k"
proof -
  have "uint (ucast (of_nat k :: 64 word) :: 32 word) = int k"
    using assms by (simp add: unsigned_ucast_eq unsigned_of_nat take_bit_nat_eq_self)
  then show ?thesis
    using assms unfolding sint_uint by (simp add: signed_take_bit_int_eq_self)
qed

lemma next_id_wraps: "sint (ucast (of_nat (2 ^ 31) :: 64 word) :: 32 word) = - (2 ^ 31)"
  by simp

lemma take_ids_counts:
  "gs_lib st \<Longrightarrow> go_next st = of_nat k \<Longrightarrow> k + n \<le> 2 ^ 31 \<Longrightarrow>
   fst (take_ids n st) = map (\<lambda>i. Inr (int i)) [k..<k + n] \<and>
   go_next (snd (take_ids n st)) = of_nat (k + n) \<and> gs_lib (snd (take_ids n st))"
proof (induction n arbitrary: k st)
  case (Suc n)
  let ?s = "st\<lparr>go_next := go_next st + 1\<rparr>"
  have "get_next_task_id st = (Inr (int k), ?s)"
    using Suc.prems next_id_value [of k] by (simp add: get_next_task_id_def go_GetNextTaskId_def Let_def)
  moreover have "fst (take_ids n ?s) = map (\<lambda>i. Inr (int i)) [Suc k..<Suc k + n] \<and>
     go_next (snd (take_ids n ?s)) = of_nat (Suc k + n) \<and> gs_lib (snd (take_ids n ?s))"
    using Suc.prems by (intro Suc.IH) (simp_all add: add.commute)
  moreover have "[k..<k + Suc n] = k # [Suc k..<Suc k + n]" by (simp add: upt_conv_Cons del: upt_Suc)
  moreover obtain js st2 where "take_ids n ?s = (js, st2)" by (cases "take_ids n ?s")
  ultimately show ?case by (simp del: upt_Suc)
qed simp

text \<open>C39: task IDs. The first \<open>2^31 - 1\<close> calls of \<open>get_next_task_id\<close> return 1, 2, 3 and so on; the next
  one wraps around the C \<open>int\<close> and returns \<open>- 2^31\<close>, which \<open>StartGoTaskWithResult\<close> still takes.\<close>

theorem task_ids_wrap:
  assumes "gs_lib st" "go_next st = 1" "n < 2 ^ 31"
  shows "fst (take_ids n st) = map (\<lambda>i. Inr (int i)) [1..<Suc n] \<and>
    fst (get_next_task_id (snd (take_ids (2 ^ 31 - 1) st))) = Inr (- (2 ^ 31)) \<and> fits_int32 (- (2 ^ 31))"
proof -
  have "fst (take_ids n st) = map (\<lambda>i. Inr (int i)) [1..<1 + n]"
    using take_ids_counts [of st 1 n] assms by simp
  moreover have "go_next (snd (take_ids (2 ^ 31 - 1) st)) = of_nat (1 + (2 ^ 31 - 1))"
    "gs_lib (snd (take_ids (2 ^ 31 - 1) st))"
    using take_ids_counts [of st 1 "2 ^ 31 - 1"] assms by simp_all
  ultimately show ?thesis
    using next_id_wraps by (simp add: get_next_task_id_def go_GetNextTaskId_def Let_def fits_int32_def)
qed

theorem task_ids_wrap_witness: "fst (take_ids 2 loaded) = [Inr 1, Inr 2]"
proof -
  have "[1..<Suc 2] = [1, 2]" by (simp add: upt_rec)
  moreover have "gs_lib loaded" "go_next loaded = 1" by (simp_all add: gs_eval)
  ultimately show ?thesis using task_ids_wrap [of loaded 2] by (simp del: take_ids.simps)
qed

end
