(* ===== verification/Tasks.thy ===== *)
theory Tasks
  imports GsyncioProofs
begin

text \<open>
  The task half of \<^verbatim>\<open>pipebomb/utils.py\<close>: \<open>CancelableTask\<close>, \<open>_init_gsyncio\<close> and \<open>run_task_async\<close>
  with the bridge that carries a result from a goroutine to an \<open>asyncio\<close> task.

  An \<open>asyncio.Task\<close> is what it runs and how it has ended; its scheduling belongs to the event
  loop, and \<open>turn_task\<close> is what a turn of that loop does to it. A callback is a number; what it does
  when it is called is a parameter (\<open>callback_result\<close>).
\<close>

section \<open>Finding the Go library\<close>

definition go_ext :: "platform \<Rightarrow> pystr" where
  "go_ext platform =
     (if platform = Win then py ''.pyd'' else if platform = Darwin then py ''.dylib'' else py ''.so'')"

definition gsyncio_library ::
  "platform \<Rightarrow> pystr option \<Rightarrow> (pystr \<Rightarrow> pystr) \<Rightarrow> (pystr \<Rightarrow> bool) \<Rightarrow> pystr \<Rightarrow> pystr option" where
  "gsyncio_library platform env_path resolve exists this_file =
     (let name = py ''gsyncio'' @ go_ext platform;
          base = path_join (path_parent (path_parent (resolve this_file))) (py ''dist'');
          local = path_join (path_parent this_file) (py ''gsyncio'')
      in first_existing exists
           (map (\<lambda>folder. path_join folder name) (env_folder resolve env_path @ [base, local])))"

section \<open>State\<close>

datatype job = Coroutine nat | AwaitBridge nat | ToThread nat
  \<comment> \<open>a coroutine, the wrapper that waits for a bridge, a callback in the thread pool\<close>

datatype 'a aio_outcome = Finished 'a | Failed py_exc | Cancelled

record 'a aio_task =
  aio_job :: job
  aio_outcome :: "'a aio_outcome option"
  aio_cancel_requested :: bool

definition aio_done :: "'a aio_task \<Rightarrow> bool" where
  "aio_done t \<longleftrightarrow> aio_outcome t \<noteq> None"

text \<open>\<open>CancelledError\<close> is not an \<open>Exception\<close>: no handler of this package catches it.\<close>

datatype task_exc = Exc py_exc | CancelledError

text \<open>The event loop \<open>get_event_loop\<close> finds in the current thread: none (it raises \<open>RuntimeError\<close>),
  or the thread's own loop, which runs or does not.\<close>

datatype thread_loop = NoLoop | StoppedLoop | RunningLoop

text \<open>The bridge: \<open>result_holder[0]\<close> (an exception is \<open>Inl\<close>), and whether the event is set.\<close>

record 'a bridge =
  br_result :: "(py_exc + 'a) option"
  br_event :: bool

record 'a world =
  tw_gs :: gsyncio
  tw_available :: bool
  tw_tasks :: "'a aio_task list"
  tw_bridges :: "'a bridge list"

record CancelableTask =
  ct_task :: nat
  ct_task_id :: "int option"
  ct_cancelled :: bool

definition cancelable_task :: "nat \<Rightarrow> int option \<Rightarrow> CancelableTask" where
  "cancelable_task task task_id = \<lparr>ct_task = task, ct_task_id = task_id, ct_cancelled = False\<rparr>"

text \<open>\<open>_init_gsyncio\<close>; \<open>dlopen\<close> tells whether a library can be loaded.\<close>

definition init_gsyncio :: "pystr option \<Rightarrow> (pystr \<Rightarrow> bool) \<Rightarrow> 'a world \<Rightarrow> bool result \<times> 'a world" where
  "init_gsyncio found_lib dlopen w =
     (if \<not> gs_ffi (tw_gs w) then (Inr False, w)
      else case found_lib of
        None \<Rightarrow> (Inr False, w\<lparr>tw_available := False\<rparr>)
      | Some lib \<Rightarrow>
          if \<not> dlopen lib then (Inl OSError, w)
          else (Inr True, w\<lparr>tw_gs := load_go_library (tw_gs w), tw_available := True\<rparr>))"

section \<open>CancelableTask\<close>

definition aio_cancel :: "nat \<Rightarrow> 'a aio_task list \<Rightarrow> bool \<times> 'a aio_task list" where
  "aio_cancel i tasks =
     (if aio_done (tasks ! i) then (False, tasks)
      else (True, tasks[i := (tasks ! i)\<lparr>aio_cancel_requested := True\<rparr>]))"

text \<open>The functions of the wrapper are attributes of the module only when cffi was found.\<close>

definition gsy_CancelGoTask :: "int \<Rightarrow> gsyncio \<Rightarrow> unit result \<times> gsyncio" where
  "gsy_CancelGoTask task_id st = (if \<not> gs_ffi st then (Inl AttributeError, st) else CancelGoTask task_id st)"

definition ct_cancel :: "CancelableTask \<Rightarrow> 'a world \<Rightarrow> bool result \<times> CancelableTask \<times> 'a world" where
  "ct_cancel ct w =
     (if ct_cancelled ct then (Inr False, ct, w)
      else let ct = ct\<lparr>ct_cancelled := True\<rparr>;
               (r, st) = (case ct_task_id ct of None \<Rightarrow> (Inr (), tw_gs w)
                          | Some task_id \<Rightarrow> gsy_CancelGoTask task_id (tw_gs w));
               w = w\<lparr>tw_gs := st\<rparr>
           in case r of
                Inl e \<Rightarrow>
                  if e = ImportError \<or> e = RuntimeError
                  then (case aio_cancel (ct_task ct) (tw_tasks w) of (b, tasks) \<Rightarrow>
                          (Inr b, ct, w\<lparr>tw_tasks := tasks\<rparr>))
                  else (Inl e, ct, w)
              | Inr _ \<Rightarrow>
                  (case aio_cancel (ct_task ct) (tw_tasks w) of (b, tasks) \<Rightarrow>
                     (Inr b, ct, w\<lparr>tw_tasks := tasks\<rparr>)))"

definition ct_done :: "CancelableTask \<Rightarrow> 'a world \<Rightarrow> bool" where
  "ct_done ct w = aio_done (tw_tasks w ! ct_task ct)"

text \<open>\<open>Task.result\<close> and \<open>Task.exception\<close> of \<open>asyncio\<close>.\<close>

definition aio_result :: "'a aio_task \<Rightarrow> task_exc + 'a" where
  "aio_result t = (case aio_outcome t of
       None \<Rightarrow> Inl (Exc InvalidStateError)
     | Some (Finished v) \<Rightarrow> Inr v
     | Some (Failed e) \<Rightarrow> Inl (Exc e)
     | Some Cancelled \<Rightarrow> Inl CancelledError)"

definition aio_exception :: "'a aio_task \<Rightarrow> task_exc + py_exc option" where
  "aio_exception t = (case aio_outcome t of
       None \<Rightarrow> Inl (Exc InvalidStateError)
     | Some (Finished v) \<Rightarrow> Inr None
     | Some (Failed e) \<Rightarrow> Inr (Some e)
     | Some Cancelled \<Rightarrow> Inl CancelledError)"

definition end_task :: "nat \<Rightarrow> 'a aio_outcome \<Rightarrow> 'a world \<Rightarrow> 'a world" where
  "end_task i out w = w\<lparr>tw_tasks := (tw_tasks w)[i := (tw_tasks w ! i)\<lparr>aio_outcome := Some out\<rparr>]\<rparr>"

text \<open>\<open>run_until_complete(wait_for(task, timeout))\<close>. A loop that runs already
  can be run again, because importing the package applies \<open>nest_asyncio\<close>. The event loop decides
  whether the task ends within the timeout, and how (\<open>ends\<close>); when it does not, \<open>wait_for\<close> cancels
  it.\<close>

definition run_wait_for ::
  "thread_loop \<Rightarrow> 'a aio_outcome option \<Rightarrow> nat \<Rightarrow> 'a world \<Rightarrow> (task_exc + 'a) \<times> 'a world" where
  "run_wait_for loop ends i w =
     (if loop = NoLoop then (Inl (Exc RuntimeError), w)
      else if aio_done (tw_tasks w ! i) then (aio_result (tw_tasks w ! i), w)
      else case ends of
        Some out \<Rightarrow> let w = end_task i out w in (aio_result (tw_tasks w ! i), w)
      | None \<Rightarrow> (Inl (Exc TimeoutError), end_task i Cancelled w))"

definition ct_result ::
  "bool \<Rightarrow> thread_loop \<Rightarrow> 'a aio_outcome option \<Rightarrow> CancelableTask \<Rightarrow> 'a world \<Rightarrow> (task_exc + 'a) \<times> 'a world" where
  "ct_result with_timeout loop ends ct w =
     (if with_timeout then run_wait_for loop ends (ct_task ct) w
      else (aio_result (tw_tasks w ! ct_task ct), w))"

definition ct_exception ::
  "bool \<Rightarrow> thread_loop \<Rightarrow> 'a aio_outcome option \<Rightarrow> CancelableTask \<Rightarrow> 'a world \<Rightarrow>
     (task_exc + py_exc option) \<times> 'a world" where
  "ct_exception with_timeout loop ends ct w =
     (if with_timeout then
        (case run_wait_for loop ends (ct_task ct) w of
           (Inl e, w) \<Rightarrow> (Inl e, w)
         | (Inr _, w) \<Rightarrow> (aio_exception (tw_tasks w ! ct_task ct), w))
      else (aio_exception (tw_tasks w ! ct_task ct), w))"

section \<open>run_task_async\<close>

definition new_task :: "job \<Rightarrow> int option \<Rightarrow> 'a world \<Rightarrow> CancelableTask result \<times> 'a world" where
  "new_task job task_id w =
     (Inr (cancelable_task (length (tw_tasks w)) task_id),
      w\<lparr>tw_tasks := tw_tasks w @ [\<lparr>aio_job = job, aio_outcome = None, aio_cancel_requested = False\<rparr>]\<rparr>)"

text \<open>The end of \<open>run_task_async\<close> on its two thread paths: a running loop creates the task at once; a
  stopped one is run by the loops over \<open>sleep(0)\<close> until it has created it. The coroutine path calls
  \<open>asyncio.create_task\<close>, which needs a running loop.\<close>

definition deferred_task :: "thread_loop \<Rightarrow> job \<Rightarrow> int option \<Rightarrow> 'a world \<Rightarrow> CancelableTask result \<times> 'a world" where
  "deferred_task loop job task_id w =
     (if loop = NoLoop then (Inl RuntimeError, w) else new_task job task_id w)"

definition run_task_async ::
  "thread_loop \<Rightarrow> bool \<Rightarrow> nat \<Rightarrow> 'a world \<Rightarrow> CancelableTask result \<times> 'a world" where
  "run_task_async loop coroutine callback w =
     (if coroutine then
        (if loop \<noteq> RunningLoop then (Inl RuntimeError, w) else new_task (Coroutine callback) None w)
      else if tw_available w then
        (let b = length (tw_bridges w);
             w = w\<lparr>tw_bridges := tw_bridges w @ [\<lparr>br_result = None, br_event = False\<rparr>]\<rparr>
         in case get_next_task_id (tw_gs w) of
              (Inl e, st) \<Rightarrow> (Inl e, w\<lparr>tw_gs := st\<rparr>)
            | (Inr tid, st) \<Rightarrow>
                (case StartGoTaskWithResult b tid st of
                   (Inl e, st) \<Rightarrow> (Inl e, w\<lparr>tw_gs := st\<rparr>)
                 | (Inr _, st) \<Rightarrow> deferred_task loop (AwaitBridge b) (Some tid) (w\<lparr>tw_gs := st\<rparr>)))
      else deferred_task loop (ToThread callback) (Some (- 1)) w)"






section \<open>Tasks that were started\<close>

lemma task_created [simp]:
  "new_task job task_id w = (Inr ct, w1) \<longleftrightarrow> ct = cancelable_task (length (tw_tasks w)) task_id \<and>
     w1 = w\<lparr>tw_tasks := tw_tasks w @ [\<lparr>aio_job = job, aio_outcome = None, aio_cancel_requested = False\<rparr>]\<rparr>"
  "deferred_task loop job task_id w = (Inr ct, w1) \<longleftrightarrow> loop \<noteq> NoLoop \<and> new_task job task_id w = (Inr ct, w1)"
  by (auto simp: new_task_def deferred_task_def)

lemma cancelable_task_fields [simp]:
  "ct_task (cancelable_task i n) = i" "ct_task_id (cancelable_task i n) = n" "\<not> ct_cancelled (cancelable_task i n)"
  by (simp_all add: cancelable_task_def)


section \<open>Properties\<close>

text \<open>Without the Go library a task of \<open>run_task_async\<close> has the ID -1. When the extension module
  is missing as well, cancelling it raises \<open>AttributeError\<close> and the \<open>asyncio\<close> task is not cancelled;
  as the object already counts as cancelled, no later call cancels it either.\<close>

theorem fallback_task_not_cancelable:
  assumes "\<not> tw_available w" "\<not> gs_ffi (tw_gs w)" "run_task_async loop False callback w = (Inr ct, w1)"
  shows "\<exists>ct'. ct_task_id ct = Some (- 1) \<and> aio_job (tw_tasks w1 ! ct_task ct) = ToThread callback \<and>
    ct_cancel ct w1 = (Inl AttributeError, ct', w1) \<and> ct_cancel ct' w1 = (Inr False, ct', w1) \<and>
    \<not> aio_cancel_requested (tw_tasks w1 ! ct_task ct)"
  using assms by (auto simp: run_task_async_def ct_cancel_def gsy_CancelGoTask_def Let_def)

definition no_gsyncio :: "nat world" where
  "no_gsyncio = \<lparr>tw_gs = gsyncio_init None False False False, tw_available = False, tw_tasks = [], tw_bridges = []\<rparr>"

theorem fallback_task_not_cancelable_witness:
  "\<exists>ct w1 ct'. run_task_async RunningLoop False 7 no_gsyncio = (Inr ct, w1) \<and>
     ct_cancel ct w1 = (Inl AttributeError, ct', w1) \<and> ct_cancel ct' w1 = (Inr False, ct', w1)"
proof -
  obtain ct w1 where r: "run_task_async RunningLoop False 7 no_gsyncio = (Inr ct, w1)"
    by (simp add: run_task_async_def deferred_task_def no_gsyncio_def new_task_def)
  from fallback_task_not_cancelable [OF _ _ r] r show ?thesis
    by (auto simp: no_gsyncio_def gsyncio_init_def Let_def)
qed





definition with_gsyncio :: "nat world" where
  "with_gsyncio = \<lparr>tw_gs = loaded, tw_available = True, tw_tasks = [], tw_bridges = []\<rparr>"




text \<open>A coroutine never reaches Go: it becomes an ordinary task of the event loop.\<close>

lemma coroutine_stays_on_loop:
  "run_task_async RunningLoop True callback w = (Inr ct, w1) \<Longrightarrow>
     tw_gs w1 = tw_gs w \<and> ct_task_id ct = None \<and> aio_job (tw_tasks w1 ! ct_task ct) = Coroutine callback"
  by (auto simp: run_task_async_def split: if_splits)

section \<open>What a caller sees\<close>





text \<open>\<open>exception\<close> with a timeout raises the task's exception instead of returning it; without one it
  returns it. A timeout that expires cancels the task.\<close>

theorem exception_with_timeout_raises:
  assumes "ct_task ct < length (tw_tasks w)" "\<not> ct_done ct w" "loop \<noteq> NoLoop"
  shows "(\<exists>w1. ct_exception True loop (Some (Failed e)) ct w = (Inl (Exc e), w1) \<and>
      fst (ct_exception False loop None ct w1) = Inr (Some e)) \<and>
    (\<exists>w1. ct_exception True loop None ct w = (Inl (Exc TimeoutError), w1) \<and>
      fst (ct_result False loop None ct w1) = Inl CancelledError)"
  using assms by (simp_all add: ct_exception_def run_wait_for_def ct_done_def end_task_def aio_result_def
      aio_exception_def Let_def ct_result_def aio_done_def)

definition one_coroutine :: "nat world" where
  "one_coroutine = with_gsyncio\<lparr>tw_tasks :=
     [\<lparr>aio_job = Coroutine 0, aio_outcome = None, aio_cancel_requested = False\<rparr>]\<rparr>"

theorem exception_with_timeout_raises_witness:
  "fst (ct_exception True StoppedLoop (Some (Failed ValueError)) (cancelable_task 0 None) one_coroutine) =
     Inl (Exc ValueError)"
proof -
  have "ct_task (cancelable_task 0 None) < length (tw_tasks one_coroutine)" "\<not> ct_done (cancelable_task 0 None) one_coroutine"
    by (simp_all add: ct_done_def aio_done_def one_coroutine_def)
  from exception_with_timeout_raises [OF this, of StoppedLoop ValueError] show ?thesis by auto
qed

end
