(* ===== verification/Build.thy ===== *)
theory Build
  imports Tasks
begin

text \<open>
  \<^verbatim>\<open>hatch_build.py\<close>: when the Go library and its extension module are built, and what is packaged.
  The file system is the set of the paths that exist. The Go compiler, cffi and the interpreter's
  configuration are parameters: whether \<open>go\<close> is installed, whether it builds, the file cffi
  compiles (\<open>None\<close> when it raises), \<open>LIBDIR\<close> and \<open>LDLIBRARY\<close>.
\<close>

record build_config =
  bc_use_gsyncio :: bool
  bc_compiled_sdist :: bool
  bc_wheel :: bool \<comment> \<open>\<open>target_name\<close> is \<open>wheel\<close>\<close>
  bc_root :: pystr
  bc_platform :: platform

record build_tools =
  bt_go :: "pystr option"
  bt_go_builds :: bool
  bt_cffi :: "pystr option"

record build_data =
  bd_infer_tag :: "bool option"
  bd_force_include :: "(pystr, pystr) dict"

definition go_library_extension :: "platform \<Rightarrow> pystr" where
  "go_library_extension platform =
     (if platform = Win then py ''.dll'' else if platform = Darwin then py ''.dylib'' else py ''.so'')"

definition compiled_library_extension :: "platform \<Rightarrow> pystr" where
  "compiled_library_extension platform = (if platform = Win then py ''.pyd'' else py ''.so'')"

text \<open>\<open>s.replace(old, '')\<close>.\<close>

function py_remove :: "pystr \<Rightarrow> pystr \<Rightarrow> pystr" where
  "py_remove old s =
     (case s of [] \<Rightarrow> []
      | c # cs \<Rightarrow> if old \<noteq> [] \<and> prefix old s then py_remove old (drop (length old) s)
                else c # py_remove old cs)"
  by pat_completeness auto
termination
  by (relation "measure (\<lambda>(old, s). length s)") auto

declare py_remove.simps [simp del]

definition link_args :: "pystr option \<Rightarrow> pystr option \<Rightarrow> pystr \<Rightarrow> pystr list" where
  "link_args libdir ldlibrary go_extension =
     (let py_libdir = (case libdir of None \<Rightarrow> [] | Some d \<Rightarrow> d);
          ldlibrary = (case ldlibrary of None \<Rightarrow> py ''python3.13''
                       | Some l \<Rightarrow> if l = [] then py ''python3.13'' else l);
          libname = py_remove (py ''.a'') (py_remove (py ''.so'') ldlibrary)
      in (if py_libdir \<noteq> [] then [py ''-L'' @ py_libdir, py ''-Wl,-rpath,'' @ py_libdir] else []) @
         [py ''-l'' @ drop 3 libname] @
         [py ''-L.'', py ''-l:gsyncio'' @ go_extension] @
         [py ''-Wl,-rpath,$ORIGIN:$ORIGIN/..:$ORIGIN/../..''])"

text \<open>The removal of old outputs before step 2: a missing \<open>gsyncio_cffi.so\<close> ends the block, and
  \<open>gsyncio.h\<close> stays.\<close>

definition clear_dist :: "pystr \<Rightarrow> pystr set \<Rightarrow> pystr set" where
  "clear_dist dist_path files =
     (let files = Set.filter (\<lambda>p. \<not> prefix (path_join dist_path (py ''pipebomb'') @ py ''/'') p) files;
          old = path_join dist_path (py ''gsyncio_cffi.so'')
      in if old \<notin> files then files
         else files - {old} - {path_join dist_path (py ''gsyncio.h'')})"

text \<open>\<open>initialize\<close>. The exit status of \<open>go build\<close> is not looked at (\<open>check\<close> is not set), so
  \<open>CalledProcessError\<close> is never raised.\<close>

definition initialize ::
  "build_config \<Rightarrow> build_tools \<Rightarrow> build_data \<Rightarrow> pystr set \<Rightarrow> build_data \<times> pystr set" where
  "initialize cfg tools build_data files =
     (if \<not> bc_use_gsyncio cfg then (build_data, files)
      else if \<not> bc_wheel cfg \<and> \<not> bc_compiled_sdist cfg then (build_data, files)
      else if bt_go tools = None then (build_data\<lparr>bd_infer_tag := Some False\<rparr>, files)
      else let build_data = build_data\<lparr>bd_infer_tag := Some True\<rparr>;
               dist_path = path_join (bc_root cfg) (py ''dist'');
               go_extension = go_library_extension (bc_platform cfg);
               compiled_extension = compiled_library_extension (bc_platform cfg);
               go_library = path_join dist_path (py ''gsyncio'' @ go_extension);
               files = files - {go_library};
               files = files - {dist_path @ py ''.h''};
               files = (if bt_go_builds tools
                        then files \<union> {go_library, path_join dist_path (py ''gsyncio.h'')} else files);
               files = clear_dist dist_path files
           in case bt_cffi tools of
                None \<Rightarrow> (build_data\<lparr>bd_infer_tag := Some False\<rparr>, files)
              | Some compiled \<Rightarrow>
                  let target = path_join dist_path (py ''gsyncio_cffi'' @ compiled_extension);
                      files = files - {compiled} \<union> {target};
                      includes = dict_setitem (bd_force_include build_data) target
                        (py ''pipebomb/gsyncio/gsyncio_cffi'' @ compiled_extension);
                      includes = dict_setitem includes go_library (py ''pipebomb/gsyncio/gsyncio'' @ go_extension)
                  in (build_data\<lparr>bd_force_include := includes\<rparr>, files))"

section \<open>Properties\<close>

lemma path_join_inj [simp]: "path_join d m = path_join d n \<longleftrightarrow> m = n"
  by (simp add: path_join_def)

text \<open>Without \<open>LDLIBRARY\<close> the first three letters of the fallback are cut off as if they were \<^verbatim>\<open>lib\<close>.\<close>

lemma fallback_library_name: "py ''-lhon3.13'' \<in> set (link_args None None ext)"
  by (simp add: link_args_def Let_def py_def py_remove.simps)

text \<open>A failing Go compiler goes unnoticed. When \<open>go build\<close> fails but cffi produces its module,
  the build is marked as platform specific and told to include the Go library, a file that does
  not exist: the old one was removed and no new one made.\<close>

theorem go_failure_unnoticed:
  assumes "bc_use_gsyncio cfg" "bc_wheel cfg" "bt_go tools \<noteq> None" "\<not> bt_go_builds tools"
    and "bt_cffi tools = Some compiled"
  shows "\<exists>data files'. initialize cfg tools build_data files = (data, files') \<and> bd_infer_tag data = Some True \<and>
    (let go_library = path_join (path_join (bc_root cfg) (py ''dist''))
           (py ''gsyncio'' @ go_library_extension (bc_platform cfg))
     in go_library \<notin> files' \<and> map_of (bd_force_include data) go_library =
          Some (py ''pipebomb/gsyncio/gsyncio'' @ go_library_extension (bc_platform cfg)))"
  using assms
  by (simp add: initialize_def Let_def map_of_setitem clear_dist_def py_def go_library_extension_def
      compiled_library_extension_def)

theorem go_failure_unnoticed_witness:
  "\<exists>data files'. initialize
      \<lparr>bc_use_gsyncio = True, bc_compiled_sdist = False, bc_wheel = True, bc_root = [], bc_platform = OtherOs\<rparr>
      \<lparr>bt_go = Some (py ''go''), bt_go_builds = False, bt_cffi = Some (py ''m.so'')\<rparr>
      \<lparr>bd_infer_tag = None, bd_force_include = []\<rparr> {py ''/dist/gsyncio.so''} = (data, files') \<and>
    py ''/dist/gsyncio.so'' \<notin> files' \<and> bd_infer_tag data = Some True"
  using go_failure_unnoticed [of "\<lparr>bc_use_gsyncio = True, bc_compiled_sdist = False, bc_wheel = True, bc_root = [],
      bc_platform = OtherOs\<rparr>" "\<lparr>bt_go = Some (py ''go''), bt_go_builds = False, bt_cffi = Some (py ''m.so'')\<rparr>"
      "py ''m.so''" "\<lparr>bd_infer_tag = None, bd_force_include = []\<rparr>" "{py ''/dist/gsyncio.so''}"]
  by (auto simp: Let_def go_library_extension_def path_join_def py_def)




lemma py_append: "py (a @ b) = py a @ py b"
  by (simp add: py_def)




end
