(* ===== verification/Spec2Isabelle.thy ===== *)
theory Spec2Isabelle
  imports ApiProofs Scenarios Receive Overlap Bounds Waiting Exports Build
begin

text \<open>
  \<^bold>\<open>Pipebomb\<close> is a small message broker: a server that keeps a key-value database, an address
  book and a session with an inbox and an outbox per client, and a client library. Peers speak
  a binary protocol of encrypted, compressed and checksummed packets over a stream socket, after
  a handshake with X25519 and a password. An optional Go library runs callbacks in goroutines.
  This development models the Python sources under \<^verbatim>\<open>src/pipebomb\<close>, the Go library behind
  \<^verbatim>\<open>src/pipebomb/gsyncio\<close> and the build hook \<^verbatim>\<open>src/hatch_build.py\<close>.

  \<^bold>\<open>How the code is modelled.\<close> Bytes are \<open>8 word list\<close>, Python strings lists of code points, integers
  \<open>int\<close> or \<open>nat\<close> (Python's are unbounded; a field with a width is packed and refused as \<open>struct\<close>
  and \<open>to_bytes\<close> do; Go's counter is a \<open>64 word\<close> cut to a C \<open>int\<close>). A dictionary is an
  association list in insertion order. A pure function that may raise returns \<open>py_exc + 'a\<close>.
  A method of the server is an action: a function from the \<open>server\<close> record to an outcome, the
  effects on sockets and tasks in order, and the new state. The outcome is \<open>Return\<close>, \<open>Raise\<close>, or
  \<open>Block\<close>: the coroutine waits for something only another one can do (a lock that is held, an empty
  inbox). The step relation \<open>server_step\<close> and the event lists of \<open>run_calls\<close> interleave whole
  requests. Inside a request the handler is suspended once, while \<open>sock_sendall\<close> waits, between
  building a packet and moving the counter. \<open>Await\<close> cuts every operation there and lets the handlers
  of different sessions interleave; overlapping requests are shown to be atomic, which justifies
  the coarser steps. Only a second handler of the same session sees the old counter, which \<open>Race\<close>
  models for two replies. Loops over a stream are recursive functions
  over the chunks \<open>sock_recv\<close> returns, so no fuel is needed: each terminates because the unread bytes
  decrease.

  \<^bold>\<open>Theories, in the order they build on each other.\<close>

  \<^item> \<open>Prelude\<close>: bytes, strings, exceptions, dictionaries, big and little endian numbers.
    \<open>PyLib\<close>: \<open>uuid4\<close>, \<open>json.dumps\<close> and \<open>json.loads\<close> for the listing, with their round trip.
    \<open>Crypto\<close>: the packages \<^verbatim>\<open>cryptography\<close> and \<^verbatim>\<open>zstandard\<close> as a parameter, with their documented laws
    (\<open>aead_ok\<close>, \<open>zstd_ok\<close>, \<open>x25519_ok\<close>, \<open>aead_nonce_bound\<close>) and \<open>toy_crypto\<close>, which satisfies them and
    serves the witnesses. \<open>Crc32\<close>: the checksum, bit by bit.
  \<^item> \<open>Impl\<close> (\<^verbatim>\<open>impl.py\<close>): the dictionary factory and the address arithmetic of the socket factories;
    the locale \<open>dict_protocol\<close> is what the server expects of its dictionaries.
  \<^item> \<open>Wire\<close> and \<open>Packet\<close> (\<^verbatim>\<open>utils.py\<close>): framing and the reading loops, \<open>construct_packet\<close>,
    \<open>verify_packet\<close>. The locales \<open>framing\<close> and \<open>frame_reader\<close> separate the loops from the format.
    Shown: round trip, independence of the cuts of the stream, rejection of replays, truncation
    and damage, totality and error codes.
  \<^item> \<open>Server\<close>, \<open>Handler\<close>, \<open>Accept\<close>, \<open>Loop\<close>, \<open>ServerApi\<close>, \<open>Serial\<close> (\<^verbatim>\<open>server.py\<close>): the objects and the
    actions; one definition per operation of \<open>handle_client\<close>; the phases of \<open>accept_clients\<close>; the
    loop and the clean-up; the in-process interface; the checkpoint format.
  \<^item> \<open>Client\<close> and \<open>Receive\<close> (\<^verbatim>\<open>client.py\<close>): the body and the reply of every method, the queues and
    counters of the connection, its send and receive loops.
  \<^item> \<open>Office\<close> and \<open>OfficeRefine\<close>: the abstract specification, a post office without wire format,
    counters or encryption, and the proof that each operation of the handler implements it.
    \<open>Exchange\<close>: client and server together; \<open>in_sync\<close> is the agreement of the two ends of a connection.
    \<open>Handshake\<close>: a login ends in that agreement. \<open>Scenarios\<close>: whole exchanges through the library.
    \<open>Race\<close>: the overlapping replies of two handlers of one session. \<open>Await\<close> and \<open>AwaitProofs\<close>: each
    operation up to its wait and after it, the locks held across the wait, broken connections;
    \<open>settle\<close>, which resumes every suspended handler, links a suspended state to the atomic one.
  \<^item> \<open>Reach\<close>, \<open>SerialProofs\<close>, \<open>SerialTotal\<close>, \<open>Guarantees\<close>, \<open>Disconnect\<close>: the server as a transition
    system. The locale \<open>server_invariant\<close> reduces an invariant to the updates the operations make; it is
    interpreted for the form of the tables, the agreement of address book and sessions, and the
    keys of the sessions. \<open>Overlap\<close> extends it (\<open>overlap_invariant\<close>) to overlapping requests and
    shows that these are answered as the post office answers them, in the order in which they begin. \<open>item_codec\<close> does the same for the three lists of a checkpoint.
  \<^item> \<open>Discipline\<close>, \<open>Bounds\<close> and \<open>Waiting\<close>: what holds on every input, well formed or not: one reply at most, the
    counter moves with it, other sessions are left alone, a bound on the packets sent, and when a
    request waits.
    The locale \<open>request_post\<close> carries a property over the twelve operations.
  \<^item> \<open>ApiProofs\<close>: the in-process interface on every branch, and where it is not atomic.
  \<^item> \<open>Gsyncio\<close>, \<open>GsyncioProofs\<close>, \<open>Tasks\<close> (\<^verbatim>\<open>gsyncio/__init__.py\<close>, \<^verbatim>\<open>gsyncio.go\<close>, the second half of
    \<^verbatim>\<open>utils.py\<close>): an explicit store of flags and entries shared by Python and Go, goroutines stepped
    one at a time, \<open>run_task_async\<close> and \<open>CancelableTask\<close>, from the start of a goroutine to the result its task
    delivers. Cancellation is shown for every interleaving.
  \<^item> \<open>Exports\<close> (\<^verbatim>\<open>pipebomb/__init__.py\<close>): the lists of exported names and star imports.
  \<^item> \<open>Build\<close> (\<^verbatim>\<open>hatch_build.py\<close>): what is built and packaged, and whether the package finds it.
  \<^item> \<open>Samples\<close> holds the concrete states of the witnesses.

  \<^bold>\<open>Assumptions and bounds.\<close> \<open>reachable\<close> starts from \<open>new_server\<close> and covers \<open>start\<close> and \<open>stop\<close>, logins,
  requests, handlers that end, database access and the removal of sessions by the program, and
  checkpoints; the UUID of a login is new, since
  \<open>uuid4\<close> does not repeat itself. The methods \<open>add_client\<close>, \<open>add_key\<close>, \<open>remove_key\<close>, \<open>apply_client_state\<close>
  and \<open>apply_state\<close> are not among its steps, because they can break the invariants (\<open>ApiProofs\<close>). Counters stay below
  \<open>2^96\<close>, where \<open>to_bytes(12)\<close> raises, and a packet below \<open>2^31 - 7\<close> bytes, the limit of the cipher;
  the theorems state both.

  \<^bold>\<open>Not modelled.\<close> The sockets, the event loop and the threads themselves, logging, the type stubs and
  the tests. The five-second timeout of \<open>receive\<close> is the empty queue. A third-party dictionary
  or socket factory is covered as far as it behaves like the ones in \<^verbatim>\<open>impl.py\<close>. How a
  coroutine or a thread of the pool ends, and whether it does so within a timeout, is a parameter.
  \<open>Await\<close> has one handler per session and no logins or checkpoints among its events.
  What a callback run in a goroutine does to the Python state is not modelled: it is a number in
  \<open>Gsyncio\<close> and an outcome in \<open>Tasks\<close>.
\<close>

section \<open>Clients and server\<close>

text \<open>C1: any number of connected clients, their calls interleaved in any order. Every call returns
  to its caller the answer the post office gives to the same sequence of commands, the server's
  tables are the post office's afterwards, and both ends of every connection are still in step.\<close>

theorem calls_linearise:
  assumes "aead_ok cr" and "zstd_ok cr" and "connected us (length evs) cs s" and "\<not> sv_db_locked s"
    and "\<forall>ev \<in> set evs. event_ok ev \<and> fst (snd ev) \<in> us"
    and "office_run evs (office_of s) = Some (as, w')" and "\<forall>a \<in> set as. answer_ok a"
  shows "\<exists>cs' s'. run_calls cr socks evs cs s = Some (map answer_bytes as, cs', s') \<and>
    office_of s' = w' \<and> connected us 0 cs' s' \<and> \<not> sv_db_locked s'"
  using run_calls_office [where k = 0, OF assms(1,2) _ assms(4-7)] assms(3) by simp

theorem calls_linearise_witness:
  "\<exists>cs' s'. run_calls toy_crypto (\<lambda>u. Sock (if u = alice then 1 else 2))
     [([], alice, CSet [1] [2]), ([], bob, CGet [1])] two_clients two_sessions =
       Some ([ACK, [2]], cs', s') \<and> connected {alice, bob} 0 cs' s'"
proof -
  let ?evs = "[([], alice, CSet [1] [2]), ([], bob, CGet [1])]"
  have evs: "\<forall>ev \<in> set ?evs. event_ok ev \<and> fst (snd ev) \<in> {alice, bob}"
    by (simp add: event_ok_def command_ok_def sendable_def)
  have run: "office_run ?evs (office_of two_sessions) =
      Some ([Ack, Value [2]], (office_of two_sessions)\<lparr>of_db := [[1] \<mapsto> [2]]\<rparr>)"
    by (simp add: sample_office)
  have ok: "\<forall>a \<in> set [Ack, Value [2]]. answer_ok a"
    by (simp add: answer_ok_def sendable_def client_accepts_def ACK_def ERR_PREFIX_def)
  have "connected {alice, bob} (length ?evs) two_clients two_sessions"
    by (rule sample_connected) simp
  from calls_linearise [OF toy_aead_ok toy_zstd_ok this _ evs run ok,
      of "\<lambda>u. Sock (if u = alice then 1 else 2)"] show ?thesis
    by (auto simp del: run_calls.simps)
qed

section \<open>One connection\<close>

text \<open>C11: one handler over a stream. The requests of a client may be pipelined and arrive in chunks
  of any size: each is answered as the post office answers it, under consecutive counters. When
  the client then closes the connection without BYE, the handler dies of a \<open>TypeError\<close>; it never
  reaches its clean-up, so the session and its addresses stay whatever \<open>keep_dead_sessions\<close> says.\<close>

theorem stream_until_eof:
  assumes "aead_ok cr" "zstd_ok cr" "length key = 32" "session_at s u key tx rx"
    and "tx + length cmds \<le> 2 ^ 96" "rx + length cmds < 2 ^ 96"
    and "packets_for cr key rx (map command_bytes cmds) ps"
    and "concat chunks = concat ps" "[] \<notin> set chunks" "\<forall>cmd \<in> set cmds. command_ok cmd"
    and "office_run (events rnd u 0 cmds) (office_of s) = Some (as, w')"
    and "\<forall>a \<in> set as. sendable (answer_bytes a)"
  shows "\<exists>qs s'. handle_client cr rnd sock u chunks s = (Raise TypeError, map (SendAll sock) qs, s') \<and>
     replies_for cr key tx (map answer_bytes as) qs \<and> office_of s' = w' \<and>
     session_at s' u key (tx + length cmds) (rx + length cmds)"
  using assms by (rule handle_client_eof)

theorem stream_until_eof_witness:
  "\<exists>p qs s'. packet_for toy_crypto alice_key 2 [0x82, 1] p \<and>
     handle_client toy_crypto (\<lambda>_. []) (Sock 1) alice [take 3 p, drop 3 p] two_sessions =
       (Raise TypeError, map (SendAll (Sock 1)) qs, s') \<and> replies_for toy_crypto alice_key 2 [err_answer 5] qs"
proof -
  obtain p where p: "packet_for toy_crypto alice_key 2 [0x82, 1] p"
    using sample_packet [of 2 "[0x82, 1]"] by (auto simp: sendable_def)
  then have l: "6 \<le> length p" by (simp add: packet_for_def frame_ok_def)
  have ps: "packets_for toy_crypto alice_key 2 (map command_bytes [CGet [1]]) [p]" using p by simp
  have cs: "concat [take 3 p, drop 3 p] = concat [p]" "[] \<notin> set [take 3 p, drop 3 p]" using l by auto
  have run: "office_run (events (\<lambda>_. []) alice 0 [CGet [1]]) (office_of two_sessions) =
      Some ([Err 5], office_of two_sessions)"
    by (simp add: sample_office)
  have "\<exists>qs s'. handle_client toy_crypto (\<lambda>_. []) (Sock 1) alice [take 3 p, drop 3 p] two_sessions =
       (Raise TypeError, map (SendAll (Sock 1)) qs, s') \<and>
     replies_for toy_crypto alice_key 2 (map answer_bytes [Err 5]) qs \<and> office_of s' = office_of two_sessions \<and>
     session_at s' alice alice_key (2 + length [CGet [1]]) (2 + length [CGet [1]])"
    by (rule stream_until_eof [OF toy_aead_ok toy_zstd_ok _ sample_at _ _ ps cs _ run])
      (simp_all add: command_ok_def)
  with p show ?thesis by auto
qed

text \<open>C12: the same stream ended by BYE. The handler returns after its clean-up: unless dead
  sessions are kept, the session is gone, and of its addresses the first one.\<close>

theorem stream_until_bye:
  assumes "aead_ok cr" "zstd_ok cr" "length key = 32" "session_at s u key tx rx"
    and "tx + length cmds \<le> 2 ^ 96"
    and "packets_for cr key rx (map command_bytes cmds @ [bye_request]) ps"
    and "concat chunks = concat ps @ rest" "[] \<notin> set chunks" "\<forall>cmd \<in> set cmds. command_ok cmd"
    and "office_run (events rnd u 0 cmds) (office_of s) = Some (as, w')"
    and "\<forall>a \<in> set as. sendable (answer_bytes a)"
  shows "\<exists>qs s1 s' es. handle_client cr rnd sock u chunks s = (Return (), map (SendAll sock) qs @ es, s') \<and>
     replies_for cr key tx (map answer_bytes as) qs \<and> office_of s1 = w' \<and>
     es = (if sv_keep_dead_sessions s1 then [] else [CloseSock sock]) \<and>
     (sv_keep_dead_sessions s1 \<and> s' = s1 \<or>
      \<not> sv_keep_dead_sessions s1 \<and> map_of (sv_client_db s') = (map_of (sv_client_db s1))(u := None) \<and>
      map_of (sv_address_book s') = (case first_key_of u (sv_address_book s1) of
        None \<Rightarrow> map_of (sv_address_book s1) | Some k \<Rightarrow> (map_of (sv_address_book s1))(k := None)))"
proof -
  obtain qs s1 s' es where h: "handle_client cr rnd sock u chunks s = (Return (), map (SendAll sock) qs @ es, s')"
    "replies_for cr key tx (map answer_bytes as) qs" "office_of s1 = w'"
    "cleanup sock u s1 = (Return (), es, s')"
    using handle_client_bye [OF assms] by blast
  from h(4) have "es = (if sv_keep_dead_sessions s1 then [] else [CloseSock sock]) \<and>
     (sv_keep_dead_sessions s1 \<and> s' = s1 \<or>
      \<not> sv_keep_dead_sessions s1 \<and> map_of (sv_client_db s') = (map_of (sv_client_db s1))(u := None) \<and>
      map_of (sv_address_book s') = (case first_key_of u (sv_address_book s1) of
        None \<Rightarrow> map_of (sv_address_book s1) | Some k \<Rightarrow> (map_of (sv_address_book s1))(k := None)))"
    by (auto simp: cleanup_eval map_of_delete split: if_splits option.splits)
  with h show ?thesis by blast
qed

theorem stream_until_bye_witness:
  "\<exists>p s' es. packet_for toy_crypto alice_key 2 bye_request p \<and>
     handle_client toy_crypto (\<lambda>_. []) (Sock 1) alice [p @ [1, 2]] two_sessions = (Return (), es, s')"
proof -
  obtain p where p: "packet_for toy_crypto alice_key 2 bye_request p"
    using sample_packet [of 2 bye_request] by (auto simp: sendable_def bye_request_def)
  have ps: "packets_for toy_crypto alice_key 2 (map command_bytes [] @ [bye_request]) [p]" using p by simp
  have cs: "concat [p @ [1, 2]] = concat [p] @ [1, 2]" "[] \<notin> set [p @ [1, 2]]" by auto
  have run: "office_run (events (\<lambda>_. []) alice 0 []) (office_of two_sessions) =
      Some ([], office_of two_sessions)"
    by simp
  from stream_until_bye [OF toy_aead_ok toy_zstd_ok _ sample_at _ ps cs _ run, of "Sock 1"] p
  show ?thesis by auto
qed

section \<open>Logging in\<close>

text \<open>C4: the handshake. With honest keys and the server's password it completes: both sides hold
  the same 32-byte key and the same counters, so that calls can start; a first login opens an
  empty session under a new UUID, a login with the UUID of a live session resumes it with its
  addresses, inbox and outbox, and one with an unknown UUID opens a new session and tells the
  client. Nothing else in the server changes, and the other connections stay in step.\<close>

theorem handshake_agrees:
  assumes "crypto_ok cr" and "fresh_client c" and "password = sv_password s" and "sendable (0 # password)"
    and "sendable (login_bytes relog)"
  shows "\<exists>ok c' u s'. handshake cr rnd a b sock address password relog c s = Some (ok, c', u, s') \<and>
    in_sync c' s' u \<and>
    u = (if login_known relog s then decode_latin1 (the relog) else uuid_str (uuid4_bytes rnd)) \<and>
    (ok \<longleftrightarrow> relog = None \<or> login_known relog s) \<and>
    office_of s' = (if login_known relog s then office_of s
      else (office_of s)\<lparr>of_boxes := (of_boxes (office_of s))
        (u \<mapsto> \<lparr>mb_owned = [], mb_inbox = [], mb_outbox = Map.empty\<rparr>)\<rparr>) \<and>
    (\<forall>d v. v \<noteq> u \<longrightarrow> in_sync d s' v = in_sync d s v)"
proof -
  let ?k = "handshake_key cr a b" and ?u = "login_uuid rnd relog s"
  have c: "rc_tx_nonce c = 0" "rc_rx_nonce c = 0" "rc_tasks c = []" "rc_input_packets c = []"
    using assms(2) by (simp_all add: fresh_client_def)
  have k: "length ?k = 32" using assms(1) handshake_key_sides(3) by (simp add: crypto_ok_def)
  have ack: "login_answer relog s = ACK \<longleftrightarrow> relog = None \<or> login_known relog s"
    by (simp add: login_answer_def err_answer_def ACK_def)
  show ?thesis
    using handshake_ok [OF assms(1) c(1,2) assms(3-5)] handshake_in_sync [OF k c(3,4)]
      handshake_office [of sock rnd relog s address ?k] ack
    by (auto simp: handshake_others login_uuid_def)
qed

theorem handshake_agrees_witness:
  "\<exists>c' s'. handshake toy_crypto (replicate 16 1) [1] [2] (Sock 1) (AddrStr []) (pyb ''secret'') None
      raw_client empty_server = Some (True, c', alice, s') \<and> in_sync c' s' alice"
proof -
  have "sv_password empty_server = pyb ''secret''"
    by (simp add: empty_server_def new_server_def)
  then show ?thesis
    using handshake_agrees [OF toy_crypto_ok, of raw_client "pyb ''secret''" empty_server None
        "replicate 16 1" "[1]" "[2]" "Sock 1" "AddrStr []"]
    by (auto simp: fresh_client_def raw_client_def sendable_def pyb_def login_bytes_def login_known_def
        alice_def)
qed

text \<open>C21: a client with another password is turned away: its password packet makes the server
  close the connection, send nothing and keep its state.\<close>

theorem wrong_password_rejected:
  assumes "crypto_ok cr" and "fresh_client c" and "password \<noteq> sv_password s" and "sendable (0 # password)"
  shows "\<exists>p c'. connect_key cr a password (x25519_public cr b) c = (Inr p, c') \<and>
    accept_key cr sock b (connect_hello cr a) s =
      (Return (Some (handshake_key cr a b)), [SendAll sock (x25519_public cr b)], s) \<and>
    accept_password cr sock (handshake_key cr a b) p s = (Return None, [CloseSock sock], s)"
proof -
  have c: "rc_tx_nonce c = 0" "rc_rx_nonce c = 0" and cr: "x25519_ok cr"
    using assms(1,2) by (simp_all add: fresh_client_def crypto_ok_def)
  obtain p where p: "connect_key cr a password (x25519_public cr b) c =
      (Inr p, keyed_client (handshake_key cr a b) 1 0 c)"
    "packet_for cr (handshake_key cr a b) 0 (0 # password) p"
    using connect_key_ok [OF assms(1) c assms(4)] by blast
  then show ?thesis
    using accept_key_ok [OF cr, of sock b a s] handshake_key_sides(2) [OF cr, of a b]
      accept_password_wrong [OF packet_for_verify [OF p(2)]] assms(3)
    by (simp add: connect_hello_def)
qed

theorem wrong_password_rejected_witness:
  "\<exists>p c'. connect_key toy_crypto [1] (pyb ''guess'') (x25519_public toy_crypto [2]) raw_client = (Inr p, c') \<and>
     accept_password toy_crypto (Sock 1) (handshake_key toy_crypto [1] [2]) p empty_server =
       (Return None, [CloseSock (Sock 1)], empty_server)"
proof -
  have "pyb ''guess'' \<noteq> sv_password empty_server"
    by (simp add: empty_server_def new_server_def pyb_def)
  note wrong = this
  have "fresh_client raw_client" by (simp add: fresh_client_def raw_client_def)
  from wrong_password_rejected [OF toy_crypto_ok this wrong, of "[1]" "[2]" "Sock 1"]
  obtain p c' where "connect_key toy_crypto [1] (pyb ''guess'') (x25519_public toy_crypto [2]) raw_client = (Inr p, c')"
    "accept_password toy_crypto (Sock 1) (handshake_key toy_crypto [1] [2]) p empty_server =
       (Return None, [CloseSock (Sock 1)], empty_server)"
    by (auto simp: sendable_def pyb_def)
  then show ?thesis by blast
qed

text \<open>C22: a session that logs in again while its old handler still waits on the old connection.
  The two handlers share the session's cipher and counters: a frame that arrives on the old
  connection and does not verify under the new cipher moves both counters of the session, so
  that the new connection is out of step, and the old handler goes on to clean the session up.\<close>

theorem stale_handler_desynchronises:
  assumes "aead_ok cr" and "zstd_ok cr" and "in_sync c s u" and "rc_rx_nonce c < 2 ^ 96"
    and "verify_packet cr p (rc_cipher c) (rc_tx_nonce c) = Inr (Inl code, r)"
  shows "\<exists>q s'. handle_packet cr rnd old u (Some p) s =
      (Return (Stop False), [SendAll old q, CloseSock old], s') \<and>
    session_rx s' u = Suc (session_rx s u) \<and> session_tx s' u = Suc (session_tx s u) \<and> \<not> in_sync c s' u"
proof -
  obtain key k where key: "rc_cipher c = Some key" "length key = 32" "session_cipher s u = Some key"
    and k1: "map_of (sv_client_db s) u = Some k"
    using assms(3) by (auto simp: in_sync_def session_cipher_def split: bind_splits)
  have k: "map_of (sv_client_db s) u = Some k" "cl_cipher k = Some key"
    "cl_tx_nonce k = rc_rx_nonce c" "cl_rx_nonce k = rc_tx_nonce c"
    using assms(3) k1 key(3) session_fields [OF k1] by (simp_all add: in_sync_def)
  obtain q s' where "handle_packet cr rnd old u (Some p) s =
      (Return (Stop False), [SendAll old q, CloseSock old], s')"
    "session_rx s' u = Suc (session_rx s u)" "session_tx s' u = Suc (session_tx s u)"
    using bad_frame_closes [OF assms(1,2) k(1,2) key(2), of p code r rnd old] k key assms(4,5) by metis
  then show ?thesis using assms(3) by (auto simp: in_sync_def)
qed

theorem stale_handler_desynchronises_witness:
  "\<exists>q s'. handle_packet toy_crypto [] (Sock 9) alice (Some [0x91]) two_sessions =
      (Return (Stop False), [SendAll (Sock 9) q, CloseSock (Sock 9)], s') \<and>
    \<not> in_sync (two_clients alice) s' alice"
proof -
  have c: "rc_rx_nonce (two_clients alice) < 2 ^ 96"
    "verify_packet toy_crypto [0x91] (rc_cipher (two_clients alice)) (rc_tx_nonce (two_clients alice)) =
      Inr (Inl 2, None)"
    by (simp_all add: two_clients_def client_at_def keyed_client_def verify_packet_def to_bytes_little_def)
  from stale_handler_desynchronises [OF toy_aead_ok toy_zstd_ok sample_in_sync(1) c] show ?thesis by blast
qed

end
